theory Spec2Isabelle
  imports Complex_Main "HOL-Library.AList" "HOL-Library.Sublist" "HOL-Library.Log_Nat"
  "HOL-Library.Code_Target_Nat"
begin

section \<open>JavaScript numbers\<close>

text \<open>
  A number of the program is an IEEE double, given here by the rational that it is
  exactly. Division, multiplication and subtraction give the double nearest to the exact
  result, a tie going to the even mantissa; \<open>round_double\<close> is that rounding, with 53
  bits of mantissa above \<open>2 powi (-1022)\<close> and steps of \<open>2 powi (-1074)\<close> below. No number of
  the program comes near \<open>2 powi 1024\<close>, where a double would be infinite. The numbers that
  the APIs deliver are taken as the doubles they were read as; counts are integers.
\<close>

definition floor_log2 :: "rat \<Rightarrow> int" where
  "floor_log2 x =
     (case quotient_of x of
        (p, q) \<Rightarrow> (let k = bitlen p - bitlen q in if 2 powi k \<le> x then k else k - 1))"

definition round_half_even :: "rat \<Rightarrow> int" where
  "round_half_even y =
     (let n = \<lfloor>y\<rfloor>; f = y - of_int n
      in if f < 1 / 2 then n else if 1 / 2 < f then n + 1 else if even n then n else n + 1)"

definition round_double :: "rat \<Rightarrow> rat" where
  "round_double x =
     (if x = 0 then 0
      else let e = max (- 1074) (floor_log2 \<bar>x\<bar> - 52)
           in of_int (round_half_even (x / 2 powi e)) * 2 powi e)"

definition js_div :: "rat \<Rightarrow> rat \<Rightarrow> rat" where
  "js_div a b = round_double (a / b)"

definition js_mul :: "rat \<Rightarrow> rat \<Rightarrow> rat" where
  "js_mul a b = round_double (a * b)"

definition js_sub :: "rat \<Rightarrow> rat \<Rightarrow> rat" where
  "js_sub a b = round_double (a - b)"

text \<open>\<open>Math.round\<close>: the nearest integer, a tie going up; it is exact.\<close>

definition js_round :: "rat \<Rightarrow> int" where
  "js_round x = \<lfloor>x + 1 / 2\<rfloor>"

section \<open>JavaScript strings\<close>

text \<open>
  A string is the list of its UTF-16 code units, so that \<open>length\<close> is \<open>.length\<close> and
  \<open>take n\<close> is \<open>.substring(0, n)\<close>; \<open>ascii\<close> writes a literal that has ASCII characters
  only. A value that should be a string can also be \<open>undefined\<close> or \<open>null\<close>.
\<close>

type_synonym utf16 = "nat list"

definition ascii :: "string \<Rightarrow> utf16" where
  "ascii s = map of_char s"

datatype opt_text = NoText | NullText | Txt utf16

text \<open>\<open>s || d\<close>, \<open>a || b\<close>, \<open>`${s}`\<close> and \<open>s?.substring(0, n)\<close> for such a value.\<close>

definition or_else :: "opt_text \<Rightarrow> utf16 \<Rightarrow> utf16" where
  "or_else s d = (case s of Txt t \<Rightarrow> if t = [] then d else t | _ \<Rightarrow> d)"

definition or_text :: "opt_text \<Rightarrow> opt_text \<Rightarrow> opt_text" where
  "or_text a b = (case a of Txt t \<Rightarrow> if t = [] then b else a | _ \<Rightarrow> b)"

definition template :: "opt_text \<Rightarrow> utf16" where
  "template s =
     (case s of NoText \<Rightarrow> ascii ''undefined'' | NullText \<Rightarrow> ascii ''null'' | Txt t \<Rightarrow> t)"

definition substring0 :: "nat \<Rightarrow> opt_text \<Rightarrow> opt_text" where
  "substring0 n s = (case s of Txt t \<Rightarrow> Txt (take n t) | _ \<Rightarrow> NoText)"

text \<open>The decimal digits of a count, as \<open>`${n}`\<close> writes an integer below \<open>10^21\<close>.\<close>

function show_nat :: "nat \<Rightarrow> utf16" where
  "show_nat n = (if n < 10 then [48 + n] else show_nat (n div 10) @ [48 + n mod 10])"
  by pat_completeness auto
termination
  by (relation "measure (\<lambda>n. n)") auto

definition show_int :: "int \<Rightarrow> utf16" where
  "show_int i = (if i < 0 then 45 # show_nat (nat (- i)) else show_nat (nat i))"

text \<open>The two default texts of the source, "no description" and "unknown" in Chinese.\<close>

definition no_description :: utf16 where
  "no_description = [0x7121, 0x63CF, 0x8FF0]"

definition unknown :: utf16 where
  "unknown = [0x672A, 0x77E5]"

section \<open>Requests, errors and arrays\<close>

text \<open>The result of \<open>await fetch(url)\<close>: the promise rejects, or it resolves to a response
  whose \<open>ok\<close> is false, or to one whose \<open>ok\<close> is true and whose body has been read.\<close>

datatype 'a response = Threw | NotOk | Ok 'a

datatype error = NetworkError | ValidationError

text \<open>\<open>Array.prototype.sort(cmp)\<close>: a stable sort; \<open>a\<close> stays before \<open>b\<close> unless
  \<open>cmp a b > 0\<close>. Insertion from the right end keeps equal elements in their order. The
  comparators of the source subtract two doubles; the sign of that difference is the sign
  of the exact difference, which is what the comparators are given as here.\<close>

fun insert_by :: "('a \<Rightarrow> 'a \<Rightarrow> rat) \<Rightarrow> 'a \<Rightarrow> 'a list \<Rightarrow> 'a list" where
  "insert_by cmp x [] = [x]"
| "insert_by cmp x (y # ys) = (if cmp x y \<le> 0 then x # y # ys else y # insert_by cmp x ys)"

definition js_sort :: "('a \<Rightarrow> 'a \<Rightarrow> rat) \<Rightarrow> 'a list \<Rightarrow> 'a list" where
  "js_sort cmp xs = foldr (insert_by cmp) xs []"

text \<open>\<open>xs.slice(0, limit)\<close> for a count \<open>limit\<close>.\<close>

definition slice0 :: "nat \<Rightarrow> 'a list \<Rightarrow> 'a list" where
  "slice0 limit xs = take limit xs"

text \<open>A \<open>try { body } catch (error) { log; return [] }\<close> around the body of a fetcher: the
  asynchronous function itself then settles with \<open>Inr\<close> (fulfilled) or \<open>Inl\<close> (rejected).\<close>

definition catch_empty :: "error + 'a list \<Rightarrow> error + 'a list" where
  "catch_empty body = (case body of Inl e \<Rightarrow> Inr [] | Inr xs \<Rightarrow> Inr xs)"

text \<open>Descending order of a list of records by a numeric field.\<close>

definition sorted_desc :: "('a \<Rightarrow> rat) \<Rightarrow> 'a list \<Rightarrow> bool" where
  "sorted_desc key xs = sorted_wrt (\<lambda>a b. key b \<le> key a) xs"

section \<open>Hacker News\<close>

record hn_hit =
  hit_title :: opt_text
  hit_story_text :: opt_text
  hit_url :: opt_text
  hit_objectID :: utf16
  hit_points :: int
  hit_created_at_i :: int
  hit_author :: utf16
  hit_num_comments :: int

record hn_story =
  hn_title :: opt_text
  hn_url :: utf16
  hn_points :: int
  hn_pointsPerHour :: rat
  hn_author :: utf16
  hn_comments :: int
  hn_ageHours :: int
  hn_isHot :: bool

text \<open>The age of a story in hours, at least 1, and its rate, the points divided by that
  age, before \<open>Math.round\<close>: the numbers \<open>ageHours\<close> and \<open>pointsPerHour\<close> of the callback
  below, which computes both inline. \<open>now\<close> is \<open>Date.now() / 1000\<close>.\<close>

definition hn_age :: "rat \<Rightarrow> hn_hit \<Rightarrow> rat" where
  "hn_age now item = max 1 (js_div (js_sub now (of_int (hit_created_at_i item))) 3600)"

definition hn_rate :: "rat \<Rightarrow> hn_hit \<Rightarrow> rat" where
  "hn_rate now item = js_div (of_int (hit_points item)) (hn_age now item)"

text \<open>The callback of \<open>.map\<close> in \<open>fetchHackerNews\<close>.\<close>

definition hn_story_of :: "rat \<Rightarrow> hn_hit \<Rightarrow> hn_story" where
  "hn_story_of now item =
     (let ageHours = max 1 (js_div (js_sub now (of_int (hit_created_at_i item))) 3600);
          pointsPerHour = js_div (of_int (hit_points item)) ageHours
      in \<lparr> hn_title = hit_title item,
           hn_url = or_else (hit_url item)
                      (ascii ''https://news.ycombinator.com/item?id='' @ hit_objectID item),
           hn_points = hit_points item,
           hn_pointsPerHour = js_div (of_int (js_round (js_mul pointsPerHour 10))) 10,
           hn_author = hit_author item,
           hn_comments = hit_num_comments item,
           hn_ageHours = js_round ageHours,
           hn_isHot = (pointsPerHour > 20) \<rparr>)"

text \<open>The text that the keyword filter of \<open>fetchHackerNews\<close> tests.\<close>

definition hn_text :: "hn_hit \<Rightarrow> utf16" where
  "hn_text item = or_else (hit_title item) [] @ ascii '' '' @ or_else (hit_story_text item) []"

text \<open>
  \<open>fetchHackerNews(limit)\<close>. \<open>aiKeywords\<close> stands for the test of the keyword regular
  expression on the lower-cased text, \<open>now_ms\<close> for \<open>Date.now()\<close> after the response has
  been read, \<open>resp\<close> for the answer of the Algolia search.
\<close>

definition fetchHackerNews_try ::
  "(utf16 \<Rightarrow> bool) \<Rightarrow> nat \<Rightarrow> int \<Rightarrow> hn_hit list response \<Rightarrow> error + hn_story list" where
  "fetchHackerNews_try aiKeywords limit now_ms resp =
     (case resp of
        Threw \<Rightarrow> Inl NetworkError
      | NotOk \<Rightarrow> Inr []
      | Ok hits \<Rightarrow>
          (let now = js_div (of_int now_ms) 1000;
               aiStories = filter (\<lambda>item. aiKeywords (hn_text item)) hits
           in Inr (slice0 limit
                     (js_sort (\<lambda>a b. hn_pointsPerHour b - hn_pointsPerHour a)
                        (map (hn_story_of now) aiStories)))))"

definition fetchHackerNews ::
  "(utf16 \<Rightarrow> bool) \<Rightarrow> nat \<Rightarrow> int \<Rightarrow> hn_hit list response \<Rightarrow> error + hn_story list" where
  "fetchHackerNews aiKeywords limit now_ms resp =
     catch_empty (fetchHackerNews_try aiKeywords limit now_ms resp)"

section \<open>Reddit\<close>

record reddit_post =
  post_title :: utf16
  post_permalink :: utf16
  post_score :: int
  post_created_utc :: rat
  post_num_comments :: int
  post_subreddit :: utf16

record reddit_item =
  rd_title :: utf16
  rd_url :: utf16
  rd_score :: int
  rd_scorePerHour :: rat
  rd_comments :: int
  rd_subreddit :: utf16
  rd_ageHours :: int
  rd_isHot :: bool

definition subreddits :: "utf16 list" where
  "subreddits = [ascii ''MachineLearning'', ascii ''LocalLLaMA'', ascii ''artificial'',
                 ascii ''ChatGPT'', ascii ''ClaudeAI'']"

text \<open>The callback of \<open>.filter\<close>: \<open>(now - created) < 86400\<close>.\<close>

definition reddit_recent :: "rat \<Rightarrow> reddit_post \<Rightarrow> bool" where
  "reddit_recent now p = (js_sub now (post_created_utc p) < 86400)"

text \<open>The callback of \<open>.map\<close>.\<close>

definition reddit_item_of :: "rat \<Rightarrow> reddit_post \<Rightarrow> reddit_item" where
  "reddit_item_of now p =
     (let ageHours = max 1 (js_div (js_sub now (post_created_utc p)) 3600);
          scorePerHour = js_div (of_int (post_score p)) ageHours
      in \<lparr> rd_title = take 100 (post_title p),
           rd_url = ascii ''https://reddit.com'' @ post_permalink p,
           rd_score = post_score p,
           rd_scorePerHour = js_div (of_int (js_round (js_mul scorePerHour 10))) 10,
           rd_comments = post_num_comments p,
           rd_subreddit = post_subreddit p,
           rd_ageHours = js_round ageHours,
           rd_isHot = (scorePerHour > 50) \<rparr>)"

text \<open>The loop over the subreddits; \<open>fetch sub\<close> is the answer to the request for the hot
  posts of \<open>sub\<close>. A request that throws leaves the loop and the \<open>try\<close> block.\<close>

fun reddit_loop ::
  "(utf16 \<Rightarrow> reddit_post list response) \<Rightarrow> rat \<Rightarrow> utf16 list \<Rightarrow> reddit_item list
     \<Rightarrow> error + reddit_item list" where
  "reddit_loop fetch now [] allPosts = Inr allPosts"
| "reddit_loop fetch now (sub # subs) allPosts =
     (case fetch sub of
        Threw \<Rightarrow> Inl NetworkError
      | NotOk \<Rightarrow> reddit_loop fetch now subs allPosts
      | Ok children \<Rightarrow>
          reddit_loop fetch now subs
            (allPosts @ map (reddit_item_of now) (filter (reddit_recent now) children)))"

definition fetchReddit_try ::
  "nat \<Rightarrow> int \<Rightarrow> (utf16 \<Rightarrow> reddit_post list response) \<Rightarrow> error + reddit_item list" where
  "fetchReddit_try limit now_ms fetch =
     (case reddit_loop fetch (js_div (of_int now_ms) 1000) subreddits [] of
        Inl e \<Rightarrow> Inl e
      | Inr allPosts \<Rightarrow>
          Inr (slice0 limit (js_sort (\<lambda>a b. rd_scorePerHour b - rd_scorePerHour a) allPosts)))"

definition fetchReddit ::
  "nat \<Rightarrow> int \<Rightarrow> (utf16 \<Rightarrow> reddit_post list response) \<Rightarrow> error + reddit_item list" where
  "fetchReddit limit now_ms fetch = catch_empty (fetchReddit_try limit now_ms fetch)"

section \<open>GitHub\<close>

text \<open>A row of the OSS Insight trend table. \<open>row_stars\<close> is the value of
  \<open>parseInt(repo.stars)\<close>, \<open>None\<close> when that is NaN.\<close>

record oss_row =
  row_repo_name :: opt_text
  row_description :: opt_text
  row_stars :: "int option"
  row_primary_language :: opt_text

text \<open>An item of a GitHub repository search.\<close>

record search_item =
  item_full_name :: utf16
  item_description :: opt_text
  item_stargazers_count :: int
  item_html_url :: utf16
  item_language :: opt_text

record gh_repo =
  gh_name :: opt_text
  gh_description :: utf16
  gh_stars :: int
  gh_starsToday :: int
  gh_url :: utf16
  gh_language :: utf16
  gh_isHot :: bool

definition oss_repo :: "oss_row \<Rightarrow> gh_repo" where
  "oss_repo repo =
     \<lparr> gh_name = row_repo_name repo,
       gh_description = or_else (substring0 120 (row_description repo)) no_description,
       gh_stars = (case row_stars repo of None \<Rightarrow> 0 | Some n \<Rightarrow> n),
       gh_starsToday = (case row_stars repo of None \<Rightarrow> 0 | Some n \<Rightarrow> n),
       gh_url = ascii ''https://github.com/'' @ template (row_repo_name repo),
       gh_language = or_else (row_primary_language repo) unknown,
       gh_isHot = (case row_stars repo of None \<Rightarrow> False | Some n \<Rightarrow> n > 500) \<rparr>"

definition search_repo :: "search_item \<Rightarrow> gh_repo" where
  "search_repo repo =
     \<lparr> gh_name = Txt (item_full_name repo),
       gh_description = or_else (substring0 120 (item_description repo)) no_description,
       gh_stars = item_stargazers_count repo,
       gh_starsToday = js_round (js_div (of_int (item_stargazers_count repo)) 30),
       gh_url = item_html_url repo,
       gh_language = or_else (item_language repo) unknown,
       gh_isHot = (item_stargazers_count repo > 10000) \<rparr>"

text \<open>Method 1: the OSS Insight trend table. \<open>descMatch\<close> and \<open>nameMatch\<close> stand for the
  two keyword regular expressions, tested on the lower-cased description and name. A
  request that throws is caught by the inner \<open>try\<close> and leaves \<open>results\<close> empty.\<close>

definition oss_results ::
  "(utf16 \<Rightarrow> bool) \<Rightarrow> (utf16 \<Rightarrow> bool) \<Rightarrow> nat \<Rightarrow> oss_row list response \<Rightarrow> gh_repo list" where
  "oss_results descMatch nameMatch limit trendingRes =
     (case trendingRes of
        Threw \<Rightarrow> []
      | NotOk \<Rightarrow> []
      | Ok repos \<Rightarrow>
          map oss_repo
            (slice0 limit
               (filter (\<lambda>r. descMatch (or_else (row_description r) [])
                            \<or> nameMatch (or_else (row_repo_name r) [])) repos)))"

definition queries :: "utf16 list" where
  "queries = [ascii ''topic:llm stars:>1000'',
              ascii ''topic:ai stars:>500 pushed:>2026-02-01'',
              ascii ''(AI OR LLM OR GPT OR Claude) stars:>100'']"

text \<open>Method 2, the inner loop: an item is added unless a result has its name already.\<close>

fun search_items :: "search_item list \<Rightarrow> gh_repo list \<Rightarrow> gh_repo list" where
  "search_items [] results = results"
| "search_items (repo # rest) results =
     search_items rest
       (if List.find (\<lambda>r. gh_name r = Txt (item_full_name repo)) results = None
        then results @ [search_repo repo] else results)"

text \<open>Method 2, the loop over the queries; \<open>fetch q\<close> is the answer to the search for
  \<open>q\<close>. A request that throws here is not caught before the outer \<open>catch\<close>.\<close>

fun search_loop ::
  "(utf16 \<Rightarrow> search_item list response) \<Rightarrow> nat \<Rightarrow> utf16 list \<Rightarrow> gh_repo list
     \<Rightarrow> error + gh_repo list" where
  "search_loop fetch limit [] results = Inr results"
| "search_loop fetch limit (q # qs) results =
     (if length results \<ge> limit then Inr results
      else case fetch q of
             Threw \<Rightarrow> Inl NetworkError
           | NotOk \<Rightarrow> search_loop fetch limit qs results
           | Ok items \<Rightarrow> search_loop fetch limit qs (search_items items results))"

definition fetchGitHubTrending_try ::
  "(utf16 \<Rightarrow> bool) \<Rightarrow> (utf16 \<Rightarrow> bool) \<Rightarrow> nat \<Rightarrow> oss_row list response
     \<Rightarrow> (utf16 \<Rightarrow> search_item list response) \<Rightarrow> error + gh_repo list" where
  "fetchGitHubTrending_try descMatch nameMatch limit trendingRes fetch =
     (let results = oss_results descMatch nameMatch limit trendingRes
      in case (if length results < limit then search_loop fetch limit queries results
               else Inr results) of
           Inl e \<Rightarrow> Inl e
         | Inr results' \<Rightarrow>
             Inr (slice0 limit
                    (js_sort (\<lambda>a b. of_int (gh_starsToday b) - of_int (gh_starsToday a))
                       results')))"

definition fetchGitHubTrending ::
  "(utf16 \<Rightarrow> bool) \<Rightarrow> (utf16 \<Rightarrow> bool) \<Rightarrow> nat \<Rightarrow> oss_row list response
     \<Rightarrow> (utf16 \<Rightarrow> search_item list response) \<Rightarrow> error + gh_repo list" where
  "fetchGitHubTrending descMatch nameMatch limit trendingRes fetch =
     catch_empty (fetchGitHubTrending_try descMatch nameMatch limit trendingRes fetch)"

section \<open>arXiv\<close>

text \<open>An \<open>entry\<close> element of the feed, after the regular expressions of the source have
  taken its parts: the title, summary and link (trimmed; \<open>NoText\<close> when the element has
  none), the time \<open>new Date(published)\<close> in milliseconds (\<open>None\<close> for an invalid date) and
  the author names.\<close>

record arxiv_entry =
  entry_title :: opt_text
  entry_summary :: opt_text
  entry_link :: opt_text
  entry_published :: "int option"
  entry_names :: "utf16 list"

record arxiv_paper =
  ax_title :: utf16
  ax_summary :: utf16
  ax_url :: utf16
  ax_authors :: utf16
  ax_hoursAgo :: int
  ax_isNew :: bool

text \<open>\<open>names.join(', ')\<close>.\<close>

fun join_with :: "utf16 \<Rightarrow> utf16 list \<Rightarrow> utf16" where
  "join_with sep [] = []"
| "join_with sep [x] = x"
| "join_with sep (x # y # ys) = x @ sep @ join_with sep (y # ys)"

text \<open>\<open>(now - pubDate) / (1000 * 60 * 60)\<close>; the difference of two dates is a whole number
  of milliseconds.\<close>

definition arxiv_hoursAgo :: "int \<Rightarrow> int \<Rightarrow> rat" where
  "arxiv_hoursAgo now_ms pub = js_div (of_int (now_ms - pub)) (1000 * 60 * 60)"

definition arxiv_paper_of :: "int \<Rightarrow> utf16 \<Rightarrow> utf16 \<Rightarrow> int \<Rightarrow> arxiv_entry \<Rightarrow> arxiv_paper" where
  "arxiv_paper_of now_ms title link pub entry =
     (let hoursAgo = arxiv_hoursAgo now_ms pub
      in \<lparr> ax_title = take 100 title,
           ax_summary = template (substring0 150 (entry_summary entry)) @ ascii ''...'',
           ax_url = link,
           ax_authors = or_else (if entry_names entry = [] then NoText
                                 else Txt (join_with (ascii '', '') (take 3 (entry_names entry))))
                          unknown,
           ax_hoursAgo = js_round hoursAgo,
           ax_isNew = (hoursAgo \<le> 24) \<rparr>)"

text \<open>What one round of the loop appends to \<open>papers\<close>: the paper of an entry with a title and
  a link that is at most 48 hours old, nothing otherwise.\<close>

definition arxiv_push :: "int \<Rightarrow> arxiv_entry \<Rightarrow> arxiv_paper list" where
  "arxiv_push now_ms entry =
     (case (entry_title entry, entry_link entry, entry_published entry) of
        (Txt title, Txt link, Some pub) \<Rightarrow>
          if title \<noteq> [] \<and> link \<noteq> [] \<and> arxiv_hoursAgo now_ms pub \<le> 48
          then [arxiv_paper_of now_ms title link pub entry] else []
      | _ \<Rightarrow> [])"

text \<open>The loop over the entries: the test \<open>papers.length >= limit\<close> stands at the end of
  each round, after the push.\<close>

fun arxiv_loop :: "nat \<Rightarrow> int \<Rightarrow> arxiv_entry list \<Rightarrow> arxiv_paper list \<Rightarrow> arxiv_paper list" where
  "arxiv_loop limit now_ms [] papers = papers"
| "arxiv_loop limit now_ms (entry # entries) papers =
     (let papers' = papers @ arxiv_push now_ms entry
      in if length papers' \<ge> limit then papers'
         else arxiv_loop limit now_ms entries papers')"

definition fetchArxiv_try ::
  "nat \<Rightarrow> int \<Rightarrow> arxiv_entry list response \<Rightarrow> error + arxiv_paper list" where
  "fetchArxiv_try limit now_ms resp =
     (case resp of
        Threw \<Rightarrow> Inl NetworkError
      | NotOk \<Rightarrow> Inr []
      | Ok entries \<Rightarrow> Inr (arxiv_loop limit now_ms entries []))"

definition fetchArxiv ::
  "nat \<Rightarrow> int \<Rightarrow> arxiv_entry list response \<Rightarrow> error + arxiv_paper list" where
  "fetchArxiv limit now_ms resp = catch_empty (fetchArxiv_try limit now_ms resp)"

section \<open>Hugging Face\<close>

record hf_model =
  m_tags :: "utf16 list"
  m_modelId :: opt_text
  m_id :: opt_text
  m_likes :: "int option"
  m_likes7d :: "int option"
  m_downloads :: "int option"

record hf_space =
  s_id :: opt_text
  s_likes :: "int option"
  s_likes7d :: "int option"

record hf_item =
  hf_type :: utf16
  hf_name :: opt_text
  hf_url :: utf16
  hf_likes :: int
  hf_likes7d :: int
  hf_downloads :: "int option"
  hf_isHot :: bool

text \<open>\<open>n || 0\<close> for a number that may be undefined or null.\<close>

definition or_zero :: "int option \<Rightarrow> int" where
  "or_zero n = (case n of None \<Rightarrow> 0 | Some k \<Rightarrow> k)"

definition model_tags :: "utf16 list" where
  "model_tags = [ascii ''text-generation'', ascii ''text2text-generation'',
                 ascii ''conversational'', ascii ''image-to-text'']"

definition hf_model_item :: "hf_model \<Rightarrow> hf_item" where
  "hf_model_item m =
     \<lparr> hf_type = [0xD83E, 0xDD16] @ ascii '' Model'',
       hf_name = or_text (m_modelId m) (m_id m),
       hf_url = ascii ''https://huggingface.co/'' @ template (or_text (m_modelId m) (m_id m)),
       hf_likes = or_zero (m_likes m),
       hf_likes7d = or_zero (m_likes7d m),
       hf_downloads = Some (or_zero (m_downloads m)),
       hf_isHot = (or_zero (m_likes7d m) > 100) \<rparr>"

definition hf_space_item :: "hf_space \<Rightarrow> hf_item" where
  "hf_space_item s =
     \<lparr> hf_type = [0xD83D, 0xDE80] @ ascii '' Space'',
       hf_name = s_id s,
       hf_url = ascii ''https://huggingface.co/spaces/'' @ template (s_id s),
       hf_likes = or_zero (s_likes s),
       hf_likes7d = or_zero (s_likes7d s),
       hf_downloads = None,
       hf_isHot = (or_zero (s_likes7d s) > 50) \<rparr>"

text \<open>The models kept: one of the four tags, or an id that the name regular expression
  (\<open>idMatch\<close>, on the lower-cased id) matches.\<close>

definition hf_ai_model :: "(utf16 \<Rightarrow> bool) \<Rightarrow> hf_model \<Rightarrow> bool" where
  "hf_ai_model idMatch m =
     (list_ex (\<lambda>t. t \<in> set model_tags) (m_tags m)
      \<or> idMatch (or_else (or_text (m_modelId m) (m_id m)) []))"

definition hf_models_part :: "(utf16 \<Rightarrow> bool) \<Rightarrow> hf_model list response \<Rightarrow> hf_item list" where
  "hf_models_part idMatch modelsRes =
     (case modelsRes of
        Ok models \<Rightarrow> map hf_model_item (take 4 (filter (hf_ai_model idMatch) models))
      | _ \<Rightarrow> [])"

definition hf_spaces_part :: "hf_space list response \<Rightarrow> hf_item list" where
  "hf_spaces_part spacesRes =
     (case spacesRes of Ok spaces \<Rightarrow> map hf_space_item (take 3 spaces) | _ \<Rightarrow> [])"

text \<open>Both requests are awaited together by \<open>Promise.all\<close>, which rejects when one does.\<close>

definition fetchHuggingFace_try ::
  "(utf16 \<Rightarrow> bool) \<Rightarrow> nat \<Rightarrow> hf_model list response \<Rightarrow> hf_space list response
     \<Rightarrow> error + hf_item list" where
  "fetchHuggingFace_try idMatch limit modelsRes spacesRes =
     (if modelsRes = Threw \<or> spacesRes = Threw then Inl NetworkError
      else Inr (slice0 limit
                  (js_sort (\<lambda>a b. of_int (hf_likes7d b) - of_int (hf_likes7d a))
                     (hf_models_part idMatch modelsRes @ hf_spaces_part spacesRes))))"

definition fetchHuggingFace ::
  "(utf16 \<Rightarrow> bool) \<Rightarrow> nat \<Rightarrow> hf_model list response \<Rightarrow> hf_space list response
     \<Rightarrow> error + hf_item list" where
  "fetchHuggingFace idMatch limit modelsRes spacesRes =
     catch_empty (fetchHuggingFace_try idMatch limit modelsRes spacesRes)"

section \<open>Product Hunt\<close>

text \<open>The \<open>pubDate\<close> of a feed item: absent, unparsable, or a time in milliseconds.\<close>

datatype pub_date = NoDate | InvalidDate | DateMs int

record ph_item =
  it_title :: opt_text
  it_link :: opt_text
  it_pubDate :: pub_date
  it_desc :: opt_text

text \<open>\<open>ph_hoursAgo\<close> is \<open>None\<close> where the source computes NaN.\<close>

record ph_product =
  ph_title :: utf16
  ph_description :: utf16
  ph_url :: utf16
  ph_hoursAgo :: "int option"
  ph_isNew :: bool

definition ph_hours :: "int \<Rightarrow> pub_date \<Rightarrow> int option" where
  "ph_hours now_ms d =
     (case d of
        NoDate \<Rightarrow> Some (js_round (js_div (of_int (now_ms - now_ms)) (1000 * 60 * 60)))
      | InvalidDate \<Rightarrow> None
      | DateMs pub \<Rightarrow> Some (js_round (js_div (of_int (now_ms - pub)) (1000 * 60 * 60))))"

text \<open>The callback of \<open>.map\<close>; \<open>stripTags\<close> stands for the removal of markup by the
  regular expression of the source.\<close>

definition ph_product_of :: "(utf16 \<Rightarrow> utf16) \<Rightarrow> int \<Rightarrow> ph_item \<Rightarrow> ph_product" where
  "ph_product_of stripTags now_ms item =
     (let hoursAgo = ph_hours now_ms (it_pubDate item)
      in \<lparr> ph_title = or_else (substring0 80 (it_title item)) unknown,
           ph_description =
             or_else (case it_desc item of Txt d \<Rightarrow> Txt (take 100 (stripTags d)) | _ \<Rightarrow> NoText) [],
           ph_url = or_else (it_link item) [],
           ph_hoursAgo = hoursAgo,
           ph_isNew = (case hoursAgo of None \<Rightarrow> False | Some h \<Rightarrow> h \<le> 24) \<rparr>)"

definition sources :: "utf16 list" where
  "sources = [ascii ''https://www.producthunt.com/feed?category=artificial-intelligence'',
              ascii ''https://www.producthunt.com/topics/artificial-intelligence/feed'']"

text \<open>The loop over the two feeds: the first feed with an item decides the result; a
  request that throws is caught inside the loop, which goes on.\<close>

fun ph_loop ::
  "(utf16 \<Rightarrow> utf16) \<Rightarrow> nat \<Rightarrow> int \<Rightarrow> (utf16 \<Rightarrow> ph_item list response) \<Rightarrow> utf16 list
     \<Rightarrow> ph_product list" where
  "ph_loop stripTags limit now_ms fetch [] = []"
| "ph_loop stripTags limit now_ms fetch (feedUrl # rest) =
     (case fetch feedUrl of
        Threw \<Rightarrow> ph_loop stripTags limit now_ms fetch rest
      | NotOk \<Rightarrow> ph_loop stripTags limit now_ms fetch rest
      | Ok items \<Rightarrow>
          if length items > 0
          then filter (\<lambda>p. ph_url p \<noteq> [])
                 (map (ph_product_of stripTags now_ms) (slice0 limit items))
          else ph_loop stripTags limit now_ms fetch rest)"

definition fetchProductHunt_try ::
  "(utf16 \<Rightarrow> utf16) \<Rightarrow> nat \<Rightarrow> int \<Rightarrow> (utf16 \<Rightarrow> ph_item list response)
     \<Rightarrow> error + ph_product list" where
  "fetchProductHunt_try stripTags limit now_ms fetch =
     Inr (ph_loop stripTags limit now_ms fetch sources)"

definition fetchProductHunt ::
  "(utf16 \<Rightarrow> utf16) \<Rightarrow> nat \<Rightarrow> int \<Rightarrow> (utf16 \<Rightarrow> ph_item list response)
     \<Rightarrow> error + ph_product list" where
  "fetchProductHunt stripTags limit now_ms fetch =
     catch_empty (fetchProductHunt_try stripTags limit now_ms fetch)"

section \<open>The report\<close>

text \<open>The regular expressions of the fetchers, as the tests they make.\<close>

record patterns =
  gh_descMatch :: "utf16 \<Rightarrow> bool"
  gh_nameMatch :: "utf16 \<Rightarrow> bool"
  hn_aiKeywords :: "utf16 \<Rightarrow> bool"
  hf_idMatch :: "utf16 \<Rightarrow> bool"
  ph_stripTags :: "utf16 \<Rightarrow> utf16"

text \<open>What one run of \<open>generateTrendReport\<close> meets outside the program: the formatted date
  and time, the clock of each fetcher and the answer to each of its requests.\<close>

record world =
  w_date :: utf16
  w_time :: utf16
  w_trending :: "oss_row list response"
  w_search :: "utf16 \<Rightarrow> search_item list response"
  w_hn_now :: int
  w_hn :: "hn_hit list response"
  w_reddit_now :: int
  w_reddit :: "utf16 \<Rightarrow> reddit_post list response"
  w_arxiv_now :: int
  w_arxiv :: "arxiv_entry list response"
  w_models :: "hf_model list response"
  w_spaces :: "hf_space list response"
  w_ph_now :: int
  w_ph :: "utf16 \<Rightarrow> ph_item list response"

record report =
  date :: utf16
  time :: utf16
  github :: "gh_repo list"
  hackerNews :: "hn_story list"
  reddit :: "reddit_item list"
  arxiv :: "arxiv_paper list"
  huggingface :: "hf_item list"
  productHunt :: "ph_product list"

text \<open>\<open>Promise.all\<close> of the six fetchers: rejected when one of them is.\<close>

definition promise_all6 ::
  "error + 'a \<Rightarrow> error + 'b \<Rightarrow> error + 'c \<Rightarrow> error + 'd \<Rightarrow> error + 'e \<Rightarrow> error + 'f
     \<Rightarrow> error + ('a \<times> 'b \<times> 'c \<times> 'd \<times> 'e \<times> 'f)" where
  "promise_all6 a b c d e f =
     (case (a, b, c, d, e, f) of
        (Inr u, Inr v, Inr w, Inr x, Inr y, Inr z) \<Rightarrow> Inr (u, v, w, x, y, z)
      | _ \<Rightarrow> Inl NetworkError)"

definition generateTrendReport :: "patterns \<Rightarrow> world \<Rightarrow> error + report" where
  "generateTrendReport pats w =
     (case promise_all6
             (fetchGitHubTrending (gh_descMatch pats) (gh_nameMatch pats) 6
                (w_trending w) (w_search w))
             (fetchHackerNews (hn_aiKeywords pats) 6 (w_hn_now w) (w_hn w))
             (fetchReddit 5 (w_reddit_now w) (w_reddit w))
             (fetchArxiv 4 (w_arxiv_now w) (w_arxiv w))
             (fetchHuggingFace (hf_idMatch pats) 5 (w_models w) (w_spaces w))
             (fetchProductHunt (ph_stripTags pats) 3 (w_ph_now w) (w_ph w)) of
        Inl e \<Rightarrow> Inl e
      | Inr (gh, hn, rd, ax, hf, ph) \<Rightarrow>
          Inr \<lparr> date = w_date w, time = w_time w, github = gh, hackerNews = hn,
                reddit = rd, arxiv = ax, huggingface = hf, productHunt = ph \<rparr>)"

section \<open>The embeds\<close>

text \<open>
  The two conversions of a number to text that depend on more than the program:
  \<open>numberToString\<close> is \<open>`${x}`\<close> for a double that need not be whole, \<open>toLocaleString\<close> is
  \<open>n.toLocaleString()\<close> in the locale of the process.
\<close>

record formats =
  numberToString :: "rat \<Rightarrow> utf16"
  toLocaleString :: "int \<Rightarrow> utf16"

text \<open>An embed as the chain of \<open>EmbedBuilder\<close> calls leaves it.\<close>

record embed =
  e_color :: nat
  e_title :: utf16
  e_description :: utf16
  e_footer :: "utf16 option"
  e_timestamp :: bool

text \<open>The lines that \<open>.map((x, i) => ...)\<close> renders for the records of each source, joined
  by \<open>.join('\n\n')\<close>. The trend records have no \<open>isNew\<close>, so the mark that the GitHub
  line would add for it never appears.\<close>

definition github_line :: "formats \<Rightarrow> nat \<times> gh_repo \<Rightarrow> utf16" where
  "github_line fm = (\<lambda>(i, repo).
     ascii ''**'' @ show_nat (i + 1) @ ascii ''. ['' @ template (gh_name repo) @ ascii ''](''
       @ gh_url repo @ ascii '')**''
       @ (if gh_isHot repo then ascii '' '' @ [0xD83D, 0xDD25] else []) @ [10]
     @ [0xD83D, 0xDCC8] @ ascii '' **+''
       @ (if gh_starsToday repo = 0 then ascii ''?'' else show_int (gh_starsToday repo))
       @ ascii '' today** | '' @ [0x2B50] @ ascii '' '' @ toLocaleString fm (gh_stars repo) @ ascii '' total | ''
       @ gh_language repo @ [10]
     @ gh_description repo)"

definition hn_line :: "formats \<Rightarrow> nat \<times> hn_story \<Rightarrow> utf16" where
  "hn_line fm = (\<lambda>(i, item).
     ascii ''**'' @ show_nat (i + 1) @ ascii ''. ['' @ template (hn_title item) @ ascii ''](''
       @ hn_url item @ ascii '')**''
       @ (if hn_isHot item then ascii '' '' @ [0xD83D, 0xDD25] else []) @ [10]
     @ [0xD83D, 0xDCC8] @ ascii '' **'' @ numberToString fm (hn_pointsPerHour item)
       @ ascii '' pts/hr** | '' @ [0xD83D, 0xDC4D] @ ascii '' '' @ show_int (hn_points item)
       @ ascii '' | '' @ [0xD83D, 0xDCAC] @ ascii '' '' @ show_int (hn_comments item)
       @ ascii '' | '' @ show_int (hn_ageHours item) @ ascii ''h ago'')"

definition reddit_line :: "formats \<Rightarrow> nat \<times> reddit_item \<Rightarrow> utf16" where
  "reddit_line fm = (\<lambda>(i, post).
     ascii ''**'' @ show_nat (i + 1) @ ascii ''. ['' @ rd_title post @ ascii ''](''
       @ rd_url post @ ascii '')**''
       @ (if rd_isHot post then ascii '' '' @ [0xD83D, 0xDD25] else []) @ [10]
     @ [0xD83D, 0xDCC8] @ ascii '' **'' @ numberToString fm (rd_scorePerHour post)
       @ ascii '' pts/hr** | '' @ [0x2B06, 0xFE0F] @ ascii '' '' @ show_int (rd_score post)
       @ ascii '' | '' @ [0xD83D, 0xDCAC] @ ascii '' '' @ show_int (rd_comments post)
       @ ascii '' | r/'' @ rd_subreddit post)"

definition arxiv_line :: "nat \<times> arxiv_paper \<Rightarrow> utf16" where
  "arxiv_line = (\<lambda>(i, paper).
     ascii ''**'' @ show_nat (i + 1) @ ascii ''. ['' @ ax_title paper @ ascii ''](''
       @ ax_url paper @ ascii '')**''
       @ (if ax_isNew paper then ascii '' '' @ [0xD83C, 0xDD95] else []) @ [10]
     @ [0x23F0] @ ascii '' '' @ show_int (ax_hoursAgo paper) @ ascii ''h ago | '' @ [0xD83D, 0xDC64] @ ascii '' '' @ ax_authors paper @ [10]
     @ ax_summary paper)"

definition hf_line :: "formats \<Rightarrow> nat \<times> hf_item \<Rightarrow> utf16" where
  "hf_line fm = (\<lambda>(i, item).
     ascii ''**'' @ show_nat (i + 1) @ ascii ''. '' @ hf_type item @ ascii '' [''
       @ template (hf_name item) @ ascii ''](''  @ hf_url item @ ascii '')**''
       @ (if hf_isHot item then ascii '' '' @ [0xD83D, 0xDD25] else []) @ [10]
     @ [0xD83D, 0xDCC8] @ ascii '' **+''
       @ (if hf_likes7d item = 0 then ascii ''?'' else show_int (hf_likes7d item))
       @ ascii '' likes/7d** | '' @ [0x2764, 0xFE0F] @ ascii '' '' @ show_int (hf_likes item) @ ascii '' total''
     @ (case hf_downloads item of
          None \<Rightarrow> []
        | Some n \<Rightarrow> if n = 0 then [] else ascii '' | '' @ [0x2B07, 0xFE0F] @ ascii '' '' @ toLocaleString fm n))"

definition ph_line :: "nat \<times> ph_product \<Rightarrow> utf16" where
  "ph_line = (\<lambda>(i, p).
     ascii ''**'' @ show_nat (i + 1) @ ascii ''. ['' @ ph_title p @ ascii ''](''
       @ ph_url p @ ascii '')**''
       @ (if ph_isNew p then ascii '' '' @ [0xD83C, 0xDD95] else []) @ [10]
     @ [0x23F0] @ ascii '' ''
       @ (case ph_hoursAgo p of None \<Rightarrow> ascii ''NaN'' | Some h \<Rightarrow> show_int h)
       @ ascii ''h ago''
       @ (if ph_description p = [] then [] else [10] @ ph_description p))"

definition heading_embed :: "report \<Rightarrow> embed" where
  "heading_embed r =
     \<lparr> e_color = 0x00AE86,
       e_title = [0xD83D, 0xDCF0] @ ascii '' AI '' @ [0x5168, 0x7403, 0x8DA8, 0x52E2, 0x5831, 0x544A] @ ascii '' (24hr '' @ [0x589E, 0x901F, 0x6392, 0x884C] @ ascii '')'',
       e_description = [0xD83D, 0xDCC5] @ ascii '' '' @ date r @ ascii '' '' @ time r
         @ [10, 10] @ ascii ''*'' @ [0x4EE5, 0x4E0B, 0x4F9D, 0x64DA, 0x300C, 0x589E, 0x901F, 0x300D, 0x6392, 0x5E8F, 0xFF0C, 0x512A, 0x5148, 0x986F, 0x793A, 0x6210, 0x9577, 0x6700, 0x5FEB, 0x7684, 0x5167, 0x5BB9] @ ascii ''*'',
       e_footer = None, e_timestamp = True \<rparr>"

definition github_embed :: "formats \<Rightarrow> report \<Rightarrow> embed" where
  "github_embed fm r =
     \<lparr> e_color = 0x24292e,
       e_title = [0x2B50] @ ascii '' GitHub '' @ [0x8DA8, 0x52E2] @ ascii '' ('' @ [0x4ECA, 0x65E5] @ ascii '' Stars '' @ [0x589E, 0x91CF] @ ascii '')'',
       e_description = join_with [10, 10] (map (github_line fm) (enumerate 0 (github r))),
       e_footer = Some ([0x6392, 0x5E8F, 0x4F9D, 0x64DA, 0xFF1A] @ ascii ''24hr '' @ [0x5167] @ ascii '' Stars '' @ [0x589E, 0x91CF]), e_timestamp = False \<rparr>"

definition hn_embed :: "formats \<Rightarrow> report \<Rightarrow> embed" where
  "hn_embed fm r =
     \<lparr> e_color = 0xFF6600,
       e_title = [0xD83D, 0xDD25] @ ascii '' Hacker News ('' @ [0x71B1, 0x5EA6, 0x589E, 0x901F] @ ascii '')'',
       e_description = join_with [10, 10] (map (hn_line fm) (enumerate 0 (hackerNews r))),
       e_footer = Some ([0x6392, 0x5E8F, 0x4F9D, 0x64DA, 0xFF1A] @ ascii ''Points per Hour''), e_timestamp = False \<rparr>"

definition reddit_embed :: "formats \<Rightarrow> report \<Rightarrow> embed" where
  "reddit_embed fm r =
     \<lparr> e_color = 0xFF4500,
       e_title = [0xD83D, 0xDCAC] @ ascii '' Reddit ('' @ [0x71B1, 0x5EA6, 0x589E, 0x901F] @ ascii '')'',
       e_description = join_with [10, 10] (map (reddit_line fm) (enumerate 0 (reddit r))),
       e_footer = Some ([0x6392, 0x5E8F, 0x4F9D, 0x64DA, 0xFF1A] @ ascii ''Score per Hour''), e_timestamp = False \<rparr>"

definition arxiv_embed :: "report \<Rightarrow> embed" where
  "arxiv_embed r =
     \<lparr> e_color = 0xB31B1B,
       e_title = [0xD83D, 0xDCC4] @ ascii '' arXiv '' @ [0x6700, 0x65B0, 0x8AD6, 0x6587],
       e_description = join_with [10, 10] (map arxiv_line (enumerate 0 (arxiv r))),
       e_footer = Some ([0x6392, 0x5E8F, 0x4F9D, 0x64DA, 0xFF1A, 0x6700, 0x65B0, 0x63D0, 0x4EA4, 0x6642, 0x9593]), e_timestamp = False \<rparr>"

definition hf_embed :: "formats \<Rightarrow> report \<Rightarrow> embed" where
  "hf_embed fm r =
     \<lparr> e_color = 0xFFD21E,
       e_title = [0xD83E, 0xDD17] @ ascii '' Hugging Face (7 '' @ [0x5929, 0x589E, 0x901F] @ ascii '')'',
       e_description = join_with [10, 10] (map (hf_line fm) (enumerate 0 (huggingface r))),
       e_footer = Some ([0x6392, 0x5E8F, 0x4F9D, 0x64DA, 0xFF1A] @ ascii ''7 '' @ [0x5929, 0x5167] @ ascii '' Likes '' @ [0x589E, 0x91CF]), e_timestamp = False \<rparr>"

definition ph_embed :: "report \<Rightarrow> embed" where
  "ph_embed r =
     \<lparr> e_color = 0xDA552F,
       e_title = [0xD83D, 0xDE80] @ ascii '' Product Hunt AI '' @ [0x65B0, 0x54C1],
       e_description = join_with [10, 10] (map ph_line (enumerate 0 (productHunt r))),
       e_footer = Some (ascii ''Product Hunt AI Category''), e_timestamp = False \<rparr>"

text \<open>
  \<open>EmbedBuilder.setDescription\<close> of discord.js validates its argument and throws unless it
  is a string of 1 to 4096 code units. The titles and footers are constants within the
  limits of their setters, so the description is the one call of a chain that can throw.
\<close>

definition description_ok :: "utf16 \<Rightarrow> bool" where
  "description_ok d = (1 \<le> length d \<and> length d \<le> 4096)"

definition build :: "embed \<Rightarrow> error + embed" where
  "build e = (if description_ok (e_description e) then Inr e else Inl ValidationError)"

text \<open>One \<open>if (list.length > 0) embeds.push(new EmbedBuilder()...)\<close> after what came
  before: nothing runs once a builder has thrown.\<close>

definition push_embed :: "error + embed list \<Rightarrow> bool \<Rightarrow> embed \<Rightarrow> error + embed list" where
  "push_embed embeds present e =
     (case embeds of
        Inl x \<Rightarrow> Inl x
      | Inr es \<Rightarrow>
          if present then (case build e of Inl x \<Rightarrow> Inl x | Inr b \<Rightarrow> Inr (es @ [b]))
          else Inr es)"

definition createReportEmbeds :: "formats \<Rightarrow> report \<Rightarrow> error + embed list" where
  "createReportEmbeds fm r =
     push_embed
       (push_embed
         (push_embed
           (push_embed
             (push_embed
               (push_embed
                 (push_embed (Inr []) True (heading_embed r))
                 (length (github r) > 0) (github_embed fm r))
               (length (hackerNews r) > 0) (hn_embed fm r))
             (length (reddit r) > 0) (reddit_embed fm r))
           (length (arxiv r) > 0) (arxiv_embed r))
         (length (huggingface r) > 0) (hf_embed fm r))
       (length (productHunt r) > 0) (ph_embed r)"

text \<open>The loop of \<open>pushReport\<close>: the slices \<open>embeds.slice(i, i + 10)\<close> for
  \<open>i = 0, 10, 20, ...\<close> below the length, one message each.\<close>

function send_loop :: "nat \<Rightarrow> 'a list \<Rightarrow> 'a list list" where
  "send_loop i embeds =
     (if i < length embeds then take 10 (drop i embeds) # send_loop (i + 10) embeds else [])"
  by pat_completeness auto
termination
  by (relation "measure (\<lambda>(i, embeds). length embeds - i)") auto

text \<open>\<open>pushReport\<close>: \<open>true\<close> when the report was generated, the embeds were built and
  every message was sent, \<open>false\<close> when one of these threw. \<open>send\<close> says of a message
  whether \<open>target.send\<close> accepts it; the loop stops at the first that it does not.\<close>

fun send_each :: "(embed list \<Rightarrow> bool) \<Rightarrow> embed list list \<Rightarrow> bool" where
  "send_each send [] = True"
| "send_each send (m # ms) = (if send m then send_each send ms else False)"

definition pushReport :: "formats \<Rightarrow> (embed list \<Rightarrow> bool) \<Rightarrow> patterns \<Rightarrow> world \<Rightarrow> bool" where
  "pushReport fm send pats w =
     (case generateTrendReport pats w of
        Inl e \<Rightarrow> False
      | Inr r \<Rightarrow>
          (case createReportEmbeds fm r of
             Inl e \<Rightarrow> False
           | Inr embeds \<Rightarrow> send_each send (send_loop 0 embeds)))"

section \<open>The scheduled push\<close>

text \<open>A JavaScript \<open>Set\<close>: its elements in the order of insertion, each once.\<close>

definition set_has :: "'a \<Rightarrow> 'a list \<Rightarrow> bool" where
  "set_has k s = (k \<in> set s)"

definition set_add :: "'a \<Rightarrow> 'a list \<Rightarrow> 'a list" where
  "set_add k s = (if k \<in> set s then s else s @ [k])"

definition set_delete :: "'a \<Rightarrow> 'a list \<Rightarrow> 'a list" where
  "set_delete k s = removeAll k s"

definition PUSH_SCHEDULE :: "(int \<times> int) list" where
  "PUSH_SCHEDULE = [(8, 0), (20, 0)]"

text \<open>
  The clock. \<open>w\<close> is the wall clock of the configured zone (Taipei) in whole minutes, as
  \<open>taipeiTime\<close> holds it in its local fields; \<open>getHours\<close> and \<open>getMinutes\<close> read those.
  \<open>toISOString\<close> gives the date in UTC, so the day in \<open>dateStr\<close> is the day of \<open>w\<close> moved
  by the offset \<open>tz\<close> (minutes east of UTC) of the zone the process runs in. The key
  \<open>`${dateStr}-${hour}`\<close> is the pair of that day and the hour.
\<close>

definition wall_hour :: "int \<Rightarrow> int" where
  "wall_hour w = (w div 60) mod 24"

definition wall_minute :: "int \<Rightarrow> int" where
  "wall_minute w = w mod 60"

definition dateStr_day :: "int \<Rightarrow> int \<Rightarrow> int" where
  "dateStr_day tz w = (w - tz) div 1440"

text \<open>The trim after an insertion.\<close>

definition trim_slots :: "'a list \<Rightarrow> 'a list" where
  "trim_slots pushedSlots =
     (if length pushedSlots > 10
      then fold set_delete (take (length pushedSlots - 10) pushedSlots) pushedSlots
      else pushedSlots)"

text \<open>The loop over the schedule. The result says whether this call went on to push,
  and gives \<open>pushedSlots\<close> after the call. The test, the insertion and the trim run
  before the first \<open>await\<close> of the function, so no other call comes between them; the
  sends that follow the trim are left out.\<close>

fun schedule_loop ::
  "(int \<times> int) list \<Rightarrow> int \<Rightarrow> int \<Rightarrow> int \<Rightarrow> (int \<times> int) list \<Rightarrow> bool \<times> (int \<times> int) list" where
  "schedule_loop [] day hour minute pushedSlots = (False, pushedSlots)"
| "schedule_loop (schedule # rest) day hour minute pushedSlots =
     (if hour = fst schedule \<and> minute = snd schedule
      then (let slotKey = (day, hour)
            in if set_has slotKey pushedSlots then (False, pushedSlots)
               else (True, trim_slots (set_add slotKey pushedSlots)))
      else schedule_loop rest day hour minute pushedSlots)"

definition checkScheduledPush ::
  "int \<Rightarrow> int \<Rightarrow> (int \<times> int) list \<Rightarrow> bool \<times> (int \<times> int) list" where
  "checkScheduledPush tz w pushedSlots =
     schedule_loop PUSH_SCHEDULE (dateStr_day tz w) (wall_hour w) (wall_minute w) pushedSlots"

text \<open>The calls that the interval timer makes, one per clock reading: the set after
  them, and for each call whether it pushed.\<close>

fun slots_after :: "int \<Rightarrow> (int \<times> int) list \<Rightarrow> int list \<Rightarrow> (int \<times> int) list" where
  "slots_after tz pushedSlots [] = pushedSlots"
| "slots_after tz pushedSlots (w # ws) =
     slots_after tz (snd (checkScheduledPush tz w pushedSlots)) ws"

fun pushes :: "int \<Rightarrow> (int \<times> int) list \<Rightarrow> int list \<Rightarrow> bool list" where
  "pushes tz pushedSlots [] = []"
| "pushes tz pushedSlots (w # ws) =
     fst (checkScheduledPush tz w pushedSlots)
       # pushes tz (snd (checkScheduledPush tz w pushedSlots)) ws"

section \<open>Messages\<close>

record message =
  msg_id :: utf16
  msg_author_id :: utf16
  msg_author_bot :: bool
  msg_channel_id :: utf16
  msg_isDM :: bool
  msg_isMention :: bool

text \<open>A \<open>MessageCreate\<close> event: the message, the time in milliseconds at which the handler
  runs, and by how much the timer that this run may set fires after its 10 seconds.\<close>

record delivery =
  dl_at :: int
  dl_late :: nat
  dl_message :: message

definition DEDUP_TIMEOUT :: int where
  "DEDUP_TIMEOUT = 10000"

text \<open>\<open>processedMessages\<close> and the pending timers, each with the time it fires at and the
  key it deletes.\<close>

record dedup =
  processedMessages :: "utf16 list"
  timers :: "(int \<times> utf16) list"

text \<open>The timers that have fired by the time \<open>t\<close>.\<close>

definition run_timers :: "int \<Rightarrow> dedup \<Rightarrow> dedup" where
  "run_timers t st =
     \<lparr> processedMessages =
         fold set_delete (map snd (filter (\<lambda>(d, k). d \<le> t) (timers st)))
           (processedMessages st),
       timers = filter (\<lambda>(d, k). \<not> d \<le> t) (timers st) \<rparr>"

text \<open>The handler of \<open>MessageCreate\<close>: whether it calls \<open>handleMessage\<close>, and the state it
  leaves. The test and the insertion run before the first \<open>await\<close> of the handler, so
  no other event comes between them.\<close>

definition onMessageCreate :: "delivery \<Rightarrow> dedup \<Rightarrow> bool \<times> dedup" where
  "onMessageCreate ev st0 =
     (let st = run_timers (dl_at ev) st0; message = dl_message ev; msgKey = msg_id message
      in if msg_author_bot message then (False, st)
         else if set_has msgKey (processedMessages st) then (False, st)
         else (msg_isDM message \<or> msg_isMention message,
               \<lparr> processedMessages = set_add msgKey (processedMessages st),
                 timers = timers st @ [(dl_at ev + DEDUP_TIMEOUT + int (dl_late ev), msgKey)] \<rparr>))"

fun handled :: "dedup \<Rightarrow> delivery list \<Rightarrow> bool list" where
  "handled st [] = []"
| "handled st (ev # evs) =
     fst (onMessageCreate ev st) # handled (snd (onMessageCreate ev st)) evs"

text \<open>The state that the events of a list leave, the state at the start of the process,
  and what holds of every state reached from it: a key is in \<open>processedMessages\<close> exactly
  while one timer for it is pending.\<close>

fun dedup_after :: "dedup \<Rightarrow> delivery list \<Rightarrow> dedup" where
  "dedup_after st [] = st"
| "dedup_after st (ev # evs) = dedup_after (snd (onMessageCreate ev st)) evs"

definition dedup_start :: dedup where
  "dedup_start = \<lparr> processedMessages = [], timers = [] \<rparr>"

definition dedup_inv :: "dedup \<Rightarrow> bool" where
  "dedup_inv st =
     (set (processedMessages st) = snd ` set (timers st) \<and> distinct (map snd (timers st)))"

section \<open>Commands\<close>

record subscription =
  channelId :: utf16
  enabled :: bool

text \<open>The Chinese spellings of the commands.\<close>

definition zh_help :: utf16 where
  "zh_help = [0x5E6B, 0x52A9]"

definition zh_report :: utf16 where
  "zh_report = [0x5831, 0x544A]"

definition zh_trend :: utf16 where
  "zh_trend = [0x8DA8, 0x52E2]"

definition zh_subscribe :: utf16 where
  "zh_subscribe = [0x8A02, 0x95B1]"

definition zh_unsubscribe :: utf16 where
  "zh_unsubscribe = [0x53D6, 0x6D88, 0x8A02, 0x95B1]"

definition zh_status :: utf16 where
  "zh_status = [0x72C0, 0x614B]"

text \<open>What \<open>handleMessage\<close> answers with.\<close>

datatype answer =
    Help | FullReport | GitHubList | HackerNewsList | RedditList | ArxivList
  | HuggingFaceList | Subscribed | Unsubscribed | Status bool nat | Introduction

text \<open>\<open>handleMessage\<close>, for \<open>cmd = content.toLowerCase().trim()\<close>: the answer and the
  subscriber map after it. The map is a JavaScript \<open>Map\<close>: \<open>set\<close> overwrites the entry of
  a key in place or appends a new one, \<open>delete\<close> removes it.\<close>

definition handleMessage ::
  "message \<Rightarrow> utf16 \<Rightarrow> (utf16 \<times> subscription) list
     \<Rightarrow> answer \<times> (utf16 \<times> subscription) list" where
  "handleMessage message cmd subscribers =
     (if cmd = ascii ''!help'' \<or> cmd = ascii ''help'' \<or> cmd = zh_help then (Help, subscribers)
      else if cmd = ascii ''!news'' \<or> cmd = ascii ''!today'' \<or> cmd = zh_report
              \<or> cmd = zh_trend
        then (FullReport, subscribers)
      else if cmd = ascii ''!github'' then (GitHubList, subscribers)
      else if cmd = ascii ''!hn'' \<or> cmd = ascii ''!hackernews''
        then (HackerNewsList, subscribers)
      else if cmd = ascii ''!reddit'' then (RedditList, subscribers)
      else if cmd = ascii ''!arxiv'' \<or> cmd = ascii ''!paper'' then (ArxivList, subscribers)
      else if cmd = ascii ''!hf'' \<or> cmd = ascii ''!huggingface''
        then (HuggingFaceList, subscribers)
      else if cmd = ascii ''!subscribe'' \<or> cmd = zh_subscribe
        then (Subscribed,
              AList.update (msg_author_id message)
                \<lparr> channelId = msg_channel_id message, enabled = True \<rparr> subscribers)
      else if cmd = ascii ''!unsubscribe'' \<or> cmd = zh_unsubscribe
        then (Unsubscribed, AList.delete (msg_author_id message) subscribers)
      else if cmd = ascii ''!status'' \<or> cmd = zh_status
        then (Status (case map_of subscribers (msg_author_id message) of
                        None \<Rightarrow> False | Some sub \<Rightarrow> enabled sub)
                (length subscribers), subscribers)
      else (Introduction, subscribers))"

section \<open>The records as JavaScript objects\<close>

text \<open>The object literal that each fetcher pushes or returns, property by property, and
  the reading of a property: one that the literal does not have reads as \<open>undefined\<close>.\<close>

datatype jsval = Undefined | Null | NaN | Bool bool | Num rat | Str utf16

definition get_prop :: "(utf16 \<times> jsval) list \<Rightarrow> utf16 \<Rightarrow> jsval" where
  "get_prop obj k = (case map_of obj k of None \<Rightarrow> Undefined | Some v \<Rightarrow> v)"

definition text_val :: "opt_text \<Rightarrow> jsval" where
  "text_val s = (case s of NoText \<Rightarrow> Undefined | NullText \<Rightarrow> Null | Txt t \<Rightarrow> Str t)"

definition gh_object :: "gh_repo \<Rightarrow> (utf16 \<times> jsval) list" where
  "gh_object r =
     [(ascii ''name'', text_val (gh_name r)), (ascii ''description'', Str (gh_description r)),
      (ascii ''stars'', Num (of_int (gh_stars r))),
      (ascii ''starsToday'', Num (of_int (gh_starsToday r))),
      (ascii ''url'', Str (gh_url r)), (ascii ''language'', Str (gh_language r)),
      (ascii ''isHot'', Bool (gh_isHot r))]"

definition hn_object :: "hn_story \<Rightarrow> (utf16 \<times> jsval) list" where
  "hn_object s =
     [(ascii ''title'', text_val (hn_title s)), (ascii ''url'', Str (hn_url s)),
      (ascii ''points'', Num (of_int (hn_points s))),
      (ascii ''pointsPerHour'', Num (hn_pointsPerHour s)),
      (ascii ''author'', Str (hn_author s)), (ascii ''comments'', Num (of_int (hn_comments s))),
      (ascii ''ageHours'', Num (of_int (hn_ageHours s))), (ascii ''isHot'', Bool (hn_isHot s))]"

definition reddit_object :: "reddit_item \<Rightarrow> (utf16 \<times> jsval) list" where
  "reddit_object r =
     [(ascii ''title'', Str (rd_title r)), (ascii ''url'', Str (rd_url r)),
      (ascii ''score'', Num (of_int (rd_score r))),
      (ascii ''scorePerHour'', Num (rd_scorePerHour r)),
      (ascii ''comments'', Num (of_int (rd_comments r))),
      (ascii ''subreddit'', Str (rd_subreddit r)),
      (ascii ''ageHours'', Num (of_int (rd_ageHours r))), (ascii ''isHot'', Bool (rd_isHot r))]"

definition arxiv_object :: "arxiv_paper \<Rightarrow> (utf16 \<times> jsval) list" where
  "arxiv_object p =
     [(ascii ''title'', Str (ax_title p)), (ascii ''summary'', Str (ax_summary p)),
      (ascii ''url'', Str (ax_url p)), (ascii ''authors'', Str (ax_authors p)),
      (ascii ''hoursAgo'', Num (of_int (ax_hoursAgo p))), (ascii ''isNew'', Bool (ax_isNew p))]"

definition hf_object :: "hf_item \<Rightarrow> (utf16 \<times> jsval) list" where
  "hf_object i =
     [(ascii ''type'', Str (hf_type i)), (ascii ''name'', text_val (hf_name i)),
      (ascii ''url'', Str (hf_url i)),
      (ascii ''likes'', Num (of_int (hf_likes i))),
      (ascii ''likes7d'', Num (of_int (hf_likes7d i))),
      (ascii ''downloads'', (case hf_downloads i of None \<Rightarrow> Null | Some n \<Rightarrow> Num (of_int n))),
      (ascii ''isHot'', Bool (hf_isHot i))]"

definition ph_object :: "ph_product \<Rightarrow> (utf16 \<times> jsval) list" where
  "ph_object p =
     [(ascii ''title'', Str (ph_title p)), (ascii ''description'', Str (ph_description p)),
      (ascii ''url'', Str (ph_url p)),
      (ascii ''hoursAgo'', (case ph_hoursAgo p of None \<Rightarrow> NaN | Some h \<Rightarrow> Num (of_int h))),
      (ascii ''isNew'', Bool (ph_isNew p))]"

section \<open>Failing sources\<close>

text \<open>A request fails when it throws or is answered with a status that is not ok. A
  fetcher's fetch fails when each request that it can make fails.\<close>

definition failed :: "'a response \<Rightarrow> bool" where
  "failed r = (case r of Ok body \<Rightarrow> False | _ \<Rightarrow> True)"

definition github_fails :: "oss_row list response \<Rightarrow> (utf16 \<Rightarrow> search_item list response) \<Rightarrow> bool" where
  "github_fails trendingRes search = (failed trendingRes \<and> list_all (\<lambda>q. failed (search q)) queries)"

definition reddit_fails :: "(utf16 \<Rightarrow> reddit_post list response) \<Rightarrow> bool" where
  "reddit_fails fetch = list_all (\<lambda>sub. failed (fetch sub)) subreddits"

definition huggingface_fails :: "hf_model list response \<Rightarrow> hf_space list response \<Rightarrow> bool" where
  "huggingface_fails modelsRes spacesRes = (failed modelsRes \<and> failed spacesRes)"

definition producthunt_fails :: "(utf16 \<Rightarrow> ph_item list response) \<Rightarrow> bool" where
  "producthunt_fails fetch = list_all (\<lambda>feedUrl. failed (fetch feedUrl)) sources"

section \<open>Example inputs\<close>

text \<open>Two conversions of numbers for the examples: the decimal text of a number that is
  a whole number of tenths, and the digits of an integer in groups of three.\<close>

definition tenths_text :: "rat \<Rightarrow> utf16" where
  "tenths_text v =
     (let k = js_round (v * 10); a = nat \<bar>k\<bar>
      in (if k < 0 then [45] else []) @ show_nat (a div 10)
         @ (if a mod 10 = 0 then [] else 46 # show_nat (a mod 10)))"

fun group_rev :: "utf16 \<Rightarrow> utf16" where
  "group_rev (a # b # c # d # rest) = a # b # c # 44 # group_rev (d # rest)"
| "group_rev ds = ds"

definition en_US :: "int \<Rightarrow> utf16" where
  "en_US n = (if n < 0 then [45] else []) @ rev (group_rev (rev (show_nat (nat \<bar>n\<bar>))))"

definition example_formats :: formats where
  "example_formats = \<lparr> numberToString = tenths_text, toLocaleString = en_US \<rparr>"

text \<open>A response of the Algolia search with one story, 100 points, two hours old at the
  time 7200 s, and the story that \<open>fetchHackerNews\<close> makes of it.\<close>

definition example_hit :: hn_hit where
  "example_hit = \<lparr> hit_title = Txt (ascii ''AI agent''), hit_story_text = NullText,
      hit_url = NullText, hit_objectID = ascii ''1'', hit_points = 100, hit_created_at_i = 0,
      hit_author = ascii ''pg'', hit_num_comments = 3 \<rparr>"

definition example_story :: hn_story where
  "example_story = \<lparr> hn_title = Txt (ascii ''AI agent''),
      hn_url = ascii ''https://news.ycombinator.com/item?id=1'', hn_points = 100,
      hn_pointsPerHour = 50, hn_author = ascii ''pg'', hn_comments = 3, hn_ageHours = 2,
      hn_isHot = True \<rparr>"

text \<open>A story with 21 points that is 4032 s old at the time 4032 s: its age is the double
  nearest to 1.12, its rate the double just below 18.75, and its \<open>pointsPerHour\<close> the
  double nearest to 18.7.\<close>

definition example_tie_hit :: hn_hit where
  "example_tie_hit = \<lparr> hit_title = Txt (ascii ''GPT notes''), hit_story_text = NullText,
      hit_url = Txt (ascii ''https://example.org/gpt''), hit_objectID = ascii ''3'',
      hit_points = 21, hit_created_at_i = 0, hit_author = ascii ''sama'',
      hit_num_comments = 0 \<rparr>"

definition example_tie_story :: hn_story where
  "example_tie_story = \<lparr> hn_title = Txt (ascii ''GPT notes''),
      hn_url = ascii ''https://example.org/gpt'', hn_points = 21,
      hn_pointsPerHour = 5263582064489267 / 281474976710656, hn_author = ascii ''sama'',
      hn_comments = 0, hn_ageHours = 1, hn_isHot = False \<rparr>"

text \<open>Answers for Reddit: one subreddit answers with a post one hour old and a post
  100000 s old at the time 100000 s, the others refuse.\<close>

definition example_post :: reddit_post where
  "example_post = \<lparr> post_title = ascii ''New model'',
      post_permalink = ascii ''/r/MachineLearning/1'', post_score = 120,
      post_created_utc = 96400, post_num_comments = 7,
      post_subreddit = ascii ''MachineLearning'' \<rparr>"

definition example_old_post :: reddit_post where
  "example_old_post = \<lparr> post_title = ascii ''Old model'',
      post_permalink = ascii ''/r/MachineLearning/0'', post_score = 9000,
      post_created_utc = 0, post_num_comments = 70,
      post_subreddit = ascii ''MachineLearning'' \<rparr>"

definition example_reddit :: "utf16 \<Rightarrow> reddit_post list response" where
  "example_reddit sub =
     (if sub = ascii ''MachineLearning'' then Ok [example_old_post, example_post] else NotOk)"

definition example_reddit_item :: reddit_item where
  "example_reddit_item = \<lparr> rd_title = ascii ''New model'',
      rd_url = ascii ''https://reddit.com/r/MachineLearning/1'', rd_score = 120,
      rd_scorePerHour = 120, rd_comments = 7, rd_subreddit = ascii ''MachineLearning'',
      rd_ageHours = 1, rd_isHot = True \<rparr>"

text \<open>A post with the score 57 that is 4104 s old at the time 4104 s: its rate is the
  double just above 50.\<close>

definition example_tie_post :: reddit_post where
  "example_tie_post = \<lparr> post_title = ascii ''Tie'', post_permalink = ascii ''/r/ChatGPT/2'',
      post_score = 57, post_created_utc = 0, post_num_comments = 1,
      post_subreddit = ascii ''ChatGPT'' \<rparr>"

definition example_tie_reddit :: "utf16 \<Rightarrow> reddit_post list response" where
  "example_tie_reddit sub = (if sub = ascii ''ChatGPT'' then Ok [example_tie_post] else NotOk)"

definition example_tie_item :: reddit_item where
  "example_tie_item = \<lparr> rd_title = ascii ''Tie'', rd_url = ascii ''https://reddit.com/r/ChatGPT/2'',
      rd_score = 57, rd_scorePerHour = 50, rd_comments = 1, rd_subreddit = ascii ''ChatGPT'',
      rd_ageHours = 1, rd_isHot = True \<rparr>"

text \<open>A second story, 20 points and two hours old at the time 7200 s.\<close>

definition example_slow_hit :: hn_hit where
  "example_slow_hit = \<lparr> hit_title = Txt (ascii ''LLM notes''), hit_story_text = NullText,
      hit_url = Txt (ascii ''https://example.org/notes''), hit_objectID = ascii ''2'',
      hit_points = 20, hit_created_at_i = 0, hit_author = ascii ''dang'',
      hit_num_comments = 1 \<rparr>"

definition example_slow_story :: hn_story where
  "example_slow_story = \<lparr> hn_title = Txt (ascii ''LLM notes''),
      hn_url = ascii ''https://example.org/notes'', hn_points = 20, hn_pointsPerHour = 10,
      hn_author = ascii ''dang'', hn_comments = 1, hn_ageHours = 2, hn_isHot = False \<rparr>"

text \<open>Entries of an arXiv feed read at the time 360000000 ms, published 10 hours, 5
  hours and 30 hours before, and the papers made of them.\<close>

definition example_entry_10h :: arxiv_entry where
  "example_entry_10h = \<lparr> entry_title = Txt (ascii ''Paper A''),
      entry_summary = Txt (ascii ''On A''), entry_link = Txt (ascii ''http://arxiv.org/abs/1''),
      entry_published = Some 324000000, entry_names = [ascii ''Ann'', ascii ''Bob''] \<rparr>"

definition example_entry_5h :: arxiv_entry where
  "example_entry_5h = \<lparr> entry_title = Txt (ascii ''Paper B''),
      entry_summary = Txt (ascii ''On B''), entry_link = Txt (ascii ''http://arxiv.org/abs/2''),
      entry_published = Some 342000000, entry_names = [ascii ''Cy''] \<rparr>"

definition example_entry_30h :: arxiv_entry where
  "example_entry_30h = \<lparr> entry_title = Txt (ascii ''Paper C''),
      entry_summary = NoText, entry_link = Txt (ascii ''http://arxiv.org/abs/3''),
      entry_published = Some 252000000, entry_names = [] \<rparr>"

definition example_paper_10h :: arxiv_paper where
  "example_paper_10h = \<lparr> ax_title = ascii ''Paper A'', ax_summary = ascii ''On A...'',
      ax_url = ascii ''http://arxiv.org/abs/1'', ax_authors = ascii ''Ann, Bob'',
      ax_hoursAgo = 10, ax_isNew = True \<rparr>"

definition example_paper_5h :: arxiv_paper where
  "example_paper_5h = \<lparr> ax_title = ascii ''Paper B'', ax_summary = ascii ''On B...'',
      ax_url = ascii ''http://arxiv.org/abs/2'', ax_authors = ascii ''Cy'', ax_hoursAgo = 5,
      ax_isNew = True \<rparr>"

definition example_paper_30h :: arxiv_paper where
  "example_paper_30h = \<lparr> ax_title = ascii ''Paper C'', ax_summary = ascii ''undefined...'',
      ax_url = ascii ''http://arxiv.org/abs/3'', ax_authors = unknown, ax_hoursAgo = 30,
      ax_isNew = False \<rparr>"

text \<open>A run of the report in which the Hacker News request throws, Reddit and arXiv
  answer as above and every other request fails.\<close>

definition example_patterns :: patterns where
  "example_patterns = \<lparr> gh_descMatch = (\<lambda>t. True), gh_nameMatch = (\<lambda>t. True),
      hn_aiKeywords = (\<lambda>t. True), hf_idMatch = (\<lambda>t. True), ph_stripTags = (\<lambda>t. t) \<rparr>"

definition example_world :: world where
  "example_world = \<lparr> w_date = ascii ''2026/02/01'', w_time = ascii ''08:00'',
      w_trending = Threw, w_search = (\<lambda>q. NotOk),
      w_hn_now = 7200000, w_hn = Threw,
      w_reddit_now = 100000000, w_reddit = example_reddit,
      w_arxiv_now = 360000000, w_arxiv = Ok [example_entry_10h, example_entry_5h],
      w_models = NotOk, w_spaces = Threw,
      w_ph_now = 0, w_ph = (\<lambda>feedUrl. Threw) \<rparr>"

definition example_report :: report where
  "example_report = \<lparr> date = ascii ''2026/02/01'', time = ascii ''08:00'', github = [],
      hackerNews = [], reddit = [example_reddit_item],
      arxiv = [example_paper_10h, example_paper_5h], huggingface = [], productHunt = [] \<rparr>"

text \<open>A report whose only story has a title of 5000 characters.\<close>

definition example_long_report :: report where
  "example_long_report = \<lparr> date = ascii ''2026/02/01'', time = ascii ''08:00'', github = [],
      hackerNews = [example_story \<lparr> hn_title := Txt (replicate 5000 97) \<rparr>], reddit = [],
      arxiv = [], huggingface = [], productHunt = [] \<rparr>"

text \<open>Answers of GitHub, Hugging Face and Product Hunt with one record each.\<close>

definition example_row :: oss_row where
  "example_row = \<lparr> row_repo_name = Txt (ascii ''acme/agent''),
      row_description = Txt (ascii ''An AI agent''), row_stars = Some 640,
      row_primary_language = Txt (ascii ''Python'') \<rparr>"

definition example_repo :: gh_repo where
  "example_repo = \<lparr> gh_name = Txt (ascii ''acme/agent''), gh_description = ascii ''An AI agent'',
      gh_stars = 640, gh_starsToday = 640, gh_url = ascii ''https://github.com/acme/agent'',
      gh_language = ascii ''Python'', gh_isHot = True \<rparr>"

definition example_search_item :: search_item where
  "example_search_item = \<lparr> item_full_name = ascii ''acme/llm'', item_description = NullText,
      item_stargazers_count = 9000, item_html_url = ascii ''https://github.com/acme/llm'',
      item_language = NullText \<rparr>"

definition example_search_repo :: gh_repo where
  "example_search_repo = \<lparr> gh_name = Txt (ascii ''acme/llm''), gh_description = no_description,
      gh_stars = 9000, gh_starsToday = 300, gh_url = ascii ''https://github.com/acme/llm'',
      gh_language = unknown, gh_isHot = False \<rparr>"

definition example_search :: "utf16 \<Rightarrow> search_item list response" where
  "example_search q =
     (if q = ascii ''topic:llm stars:>1000'' then Ok [example_search_item] else NotOk)"

definition example_model :: hf_model where
  "example_model = \<lparr> m_tags = [ascii ''text-generation''],
      m_modelId = Txt (ascii ''acme/llama-x''), m_id = Txt (ascii ''acme/llama-x''),
      m_likes = Some 900, m_likes7d = Some 80, m_downloads = Some 12000 \<rparr>"

definition example_space :: hf_space where
  "example_space = \<lparr> s_id = Txt (ascii ''acme/demo''), s_likes = Some 200,
      s_likes7d = Some 80 \<rparr>"

definition example_model_item :: hf_item where
  "example_model_item = \<lparr> hf_type = [0xD83E, 0xDD16] @ ascii '' Model'',
      hf_name = Txt (ascii ''acme/llama-x''),
      hf_url = ascii ''https://huggingface.co/acme/llama-x'', hf_likes = 900, hf_likes7d = 80,
      hf_downloads = Some 12000, hf_isHot = False \<rparr>"

definition example_space_item :: hf_item where
  "example_space_item = \<lparr> hf_type = [0xD83D, 0xDE80] @ ascii '' Space'',
      hf_name = Txt (ascii ''acme/demo''),
      hf_url = ascii ''https://huggingface.co/spaces/acme/demo'', hf_likes = 200,
      hf_likes7d = 80, hf_downloads = None, hf_isHot = True \<rparr>"

definition example_feed_item :: ph_item where
  "example_feed_item = \<lparr> it_title = Txt (ascii ''Agent Studio''),
      it_link = Txt (ascii ''https://www.producthunt.com/posts/agent-studio''),
      it_pubDate = DateMs 0, it_desc = Txt (ascii ''Build agents'') \<rparr>"

definition example_product :: ph_product where
  "example_product = \<lparr> ph_title = ascii ''Agent Studio'', ph_description = ascii ''Build agents'',
      ph_url = ascii ''https://www.producthunt.com/posts/agent-studio'', ph_hoursAgo = Some 3,
      ph_isNew = True \<rparr>"

text \<open>A message of the user \<open>u1\<close> in the channel \<open>c1\<close>, and a subscriber map that holds the
  entries of the users \<open>u2\<close> and \<open>u1\<close>.\<close>

definition example_message :: message where
  "example_message = \<lparr> msg_id = ascii ''m1'', msg_author_id = ascii ''u1'',
      msg_author_bot = False, msg_channel_id = ascii ''c1'', msg_isDM = True,
      msg_isMention = False \<rparr>"

definition example_subscribers :: "(utf16 \<times> subscription) list" where
  "example_subscribers = [(ascii ''u2'', \<lparr> channelId = ascii ''c2'', enabled = True \<rparr>),
                          (ascii ''u1'', \<lparr> channelId = ascii ''c0'', enabled = True \<rparr>)]"

text \<open>Clock readings in minutes: 08:00 on ten successive days, and one day with two calls
  at 08:00, one at 08:01 and one at 20:00.\<close>

definition example_mornings :: "int list" where
  "example_mornings = [480, 1920, 3360, 4800, 6240, 7680, 9120, 10560, 12000, 13440]"

definition example_day :: "int list" where
  "example_day = [480, 480, 481, 1200]"

text \<open>Four events: the message \<open>m1\<close> at 0 ms, again at 5000 ms, a message of a bot at 6000
  ms, and \<open>m1\<close> once more at 12000 ms, after its timer has fired.\<close>

definition example_bot_message :: message where
  "example_bot_message = \<lparr> msg_id = ascii ''m2'', msg_author_id = ascii ''b1'',
      msg_author_bot = True, msg_channel_id = ascii ''c1'', msg_isDM = True,
      msg_isMention = False \<rparr>"

definition example_deliveries :: "delivery list" where
  "example_deliveries =
     [\<lparr> dl_at = 0, dl_late = 0, dl_message = example_message \<rparr>,
      \<lparr> dl_at = 5000, dl_late = 3, dl_message = example_message \<rparr>,
      \<lparr> dl_at = 6000, dl_late = 0, dl_message = example_bot_message \<rparr>,
      \<lparr> dl_at = 12000, dl_late = 0, dl_message = example_message \<rparr>]"

section \<open>Properties of the helpers\<close>

lemma set_insert_by: "set (insert_by cmp x xs) = insert x (set xs)"
  by (induction xs) auto

lemma set_js_sort: "set (js_sort cmp xs) = set xs"
  by (induction xs) (simp_all add: js_sort_def set_insert_by)

lemma length_insert_by: "length (insert_by cmp x xs) = Suc (length xs)"
  by (induction xs) auto

lemma length_js_sort: "length (js_sort cmp xs) = length xs"
  by (induction xs) (simp_all add: js_sort_def length_insert_by)

lemma set_slice0: "set (slice0 n xs) \<subseteq> set xs"
  by (simp add: slice0_def set_take_subset)

lemma length_slice0: "length (slice0 n xs) \<le> n"
  by (simp add: slice0_def)

lemma sorted_desc_insert_by:
  "sorted_desc key xs \<Longrightarrow> sorted_desc key (insert_by (\<lambda>a b. key b - key a) x xs)"
  by (induction xs) (auto simp: sorted_desc_def set_insert_by)

lemma sorted_desc_js_sort: "sorted_desc key (js_sort (\<lambda>a b. key b - key a) xs)"
proof (induction xs)
  case Nil
  show ?case by (simp add: js_sort_def sorted_desc_def)
next
  case (Cons x xs)
  have "js_sort (\<lambda>a b. key b - key a) (x # xs)
        = insert_by (\<lambda>a b. key b - key a) x (js_sort (\<lambda>a b. key b - key a) xs)"
    by (simp add: js_sort_def)
  with Cons show ?case by (simp add: sorted_desc_insert_by)
qed

lemma sorted_desc_slice0: "sorted_desc key xs \<Longrightarrow> sorted_desc key (slice0 n xs)"
  by (simp add: sorted_desc_def slice0_def sorted_wrt_take)

lemma catch_empty_returns: "\<exists>xs. catch_empty body = Inr xs"
  by (cases body) (simp_all add: catch_empty_def)

section \<open>Rounding to a double\<close>

lemma floor_log2_le:
  assumes "0 < x"
  shows "2 powi (floor_log2 x) \<le> x"
proof -
  obtain p q where pq: "quotient_of x = (p, q)" by (cases "quotient_of x")
  then have q: "0 < q" by (rule quotient_of_denom_pos)
  from pq have x: "x = of_int p / of_int q" by (rule quotient_of_div)
  with assms q have p: "0 < p" by (simp add: zero_less_divide_iff)
  let ?k = "bitlen p - bitlen q"
  show ?thesis
  proof (cases "2 powi ?k \<le> x")
    case True
    then show ?thesis by (simp add: floor_log2_def pq)
  next
    case False
    then have fl: "floor_log2 x = ?k - 1" by (simp add: floor_log2_def pq Let_def)
    from bitlen_bounds [OF p] have lo: "2 ^ nat (bitlen p - 1) \<le> p" by simp
    from bitlen_bounds [OF q] have hi: "q < 2 ^ nat (bitlen q)" by simp
    have bp: "0 \<le> bitlen p - 1" using p by (simp add: bitlen_def floorlog_def)
    have bq: "0 \<le> bitlen q" by (rule bitlen_nonneg)
    have "(2::rat) powi (?k - 1) = 2 powi (bitlen p - 1) / 2 powi (bitlen q)"
      using power_int_diff [of "2::rat" "bitlen p - 1" "bitlen q"] by (simp add: algebra_simps)
    also have "\<dots> = 2 ^ nat (bitlen p - 1) / 2 ^ nat (bitlen q)"
      using bp bq by (simp add: power_int_def)
    also have "\<dots> \<le> of_int p / of_int q"
    proof (rule frac_le)
      show "(0::rat) \<le> of_int p" using p by simp
      have "(of_int (2 ^ nat (bitlen p - 1)) :: rat) \<le> of_int p" using lo by (simp only: of_int_le_iff)
      then show "(2::rat) ^ nat (bitlen p - 1) \<le> of_int p" by simp
      show "(0::rat) < of_int q" using q by simp
      have "(of_int q :: rat) \<le> of_int (2 ^ nat (bitlen q))" using hi by (simp only: of_int_le_iff)
      then show "(of_int q :: rat) \<le> 2 ^ nat (bitlen q)" by simp
    qed
    finally show ?thesis using fl x by simp
  qed
qed

lemma round_half_even_ge: "of_int n \<le> y \<Longrightarrow> n \<le> round_half_even y"
proof -
  assume "of_int n \<le> y"
  then have "n \<le> \<lfloor>y\<rfloor>" by (simp add: le_floor_iff)
  moreover have "\<lfloor>y\<rfloor> \<le> round_half_even y" by (simp add: round_half_even_def Let_def)
  ultimately show ?thesis by simp
qed

lemma round_double_ge:
  assumes "of_int n \<le> x" and "0 < n" and "n < 2 ^ 53"
  shows "of_int n \<le> round_double x"
proof -
  have "(0::rat) < of_int n" using assms(2) by simp
  with assms(1) have x: "0 < x" by linarith
  let ?e = "max (- 1074) (floor_log2 \<bar>x\<bar> - 52)"
  have rd: "round_double x = of_int (round_half_even (x / 2 powi ?e)) * 2 powi ?e"
    using x by (simp add: round_double_def Let_def)
  have pos: "(0::rat) < 2 powi ?e" by simp
  show ?thesis
  proof (cases "?e \<le> 0")
    case True
    let ?m = "nat (- ?e)"
    have pe: "(2::rat) powi ?e = 1 / 2 ^ ?m" using True by (simp add: power_int_def field_simps)
    have "(of_int (n * 2 ^ ?m) :: rat) \<le> x * 2 ^ ?m" using assms(1) by simp
    then have "n * 2 ^ ?m \<le> round_half_even (x / 2 powi ?e)"
      unfolding pe by (intro round_half_even_ge) simp
    then have "(of_int (n * 2 ^ ?m) :: rat) \<le> of_int (round_half_even (x / 2 powi ?e))"
      by (simp only: of_int_le_iff)
    then have "(of_int (n * 2 ^ ?m) :: rat) * (1 / 2 ^ ?m)
        \<le> of_int (round_half_even (x / 2 powi ?e)) * (1 / 2 ^ ?m)"
      by (intro mult_right_mono) simp_all
    then show ?thesis unfolding rd pe by simp
  next
    case False
    then have e: "?e = floor_log2 x - 52" "0 < ?e" using x by simp_all
    have "(2::rat) powi 52 = 2 powi (floor_log2 x) / 2 powi ?e"
      unfolding e(1) using power_int_diff [of "2::rat" "floor_log2 x" "floor_log2 x - 52"] by simp
    also have "\<dots> \<le> x / 2 powi ?e"
      using floor_log2_le [OF x] pos by (intro divide_right_mono) simp_all
    finally have "(of_int (2 ^ 52) :: rat) \<le> x / 2 powi ?e" by simp
    then have "2 ^ 52 \<le> round_half_even (x / 2 powi ?e)" by (rule round_half_even_ge)
    then have a: "(2 ^ 52 :: rat) \<le> of_int (round_half_even (x / 2 powi ?e))"
      by (metis of_int_le_iff of_int_numeral of_int_power)
    have "(2::rat) powi 1 \<le> 2 powi ?e" using e(2) by (intro power_int_increasing) simp_all
    then have b: "(2::rat) \<le> 2 powi ?e" by simp
    have "(of_int n :: rat) \<le> 2 ^ 53" using assms(3)
      by (metis less_imp_le of_int_le_iff of_int_numeral of_int_power)
    also have "\<dots> = 2 ^ 52 * 2" by simp
    also have "\<dots> \<le> of_int (round_half_even (x / 2 powi ?e)) * 2 powi ?e"
      using a b by (intro mult_mono) simp_all
    finally show ?thesis unfolding rd .
  qed
qed

lemma js_sub_less_86400: "js_sub a b < 86400 \<Longrightarrow> a - b < 86400"
proof (rule ccontr)
  assume l: "js_sub a b < 86400" and "\<not> a - b < 86400"
  then have "of_int 86400 \<le> a - b" by simp
  then have "of_int 86400 \<le> round_double (a - b)" by (rule round_double_ge) simp_all
  with l show False by (simp add: js_sub_def)
qed

section \<open>Hacker News: rate and hot flag\<close>

lemma hn_story_of_fields:
  "hn_points (hn_story_of now item) = hit_points item"
  "hn_pointsPerHour (hn_story_of now item)
     = js_div (of_int (js_round (js_mul (hn_rate now item) 10))) 10"
  "hn_isHot (hn_story_of now item) = (hn_rate now item > 20)"
  by (simp_all add: hn_story_of_def hn_rate_def hn_age_def Let_def)

lemma fetchHackerNews_returns: "\<exists>stories. fetchHackerNews aiKeywords limit now_ms resp = Inr stories"
  by (simp add: fetchHackerNews_def catch_empty_returns)

lemma fetchHackerNews_from_hits:
  assumes "fetchHackerNews aiKeywords limit now_ms resp = Inr stories" and "s \<in> set stories"
  shows "\<exists>hits item. resp = Ok hits \<and> item \<in> set hits \<and> aiKeywords (hn_text item)
           \<and> s = hn_story_of (js_div (of_int now_ms) 1000) item"
proof (cases resp)
  case Threw
  with assms show ?thesis
    by (simp add: fetchHackerNews_def fetchHackerNews_try_def catch_empty_def)
next
  case NotOk
  with assms show ?thesis
    by (auto simp: fetchHackerNews_def fetchHackerNews_try_def catch_empty_def)
next
  case (Ok hits)
  with assms have "s \<in> set (slice0 limit
      (js_sort (\<lambda>a b. hn_pointsPerHour b - hn_pointsPerHour a)
        (map (hn_story_of (js_div (of_int now_ms) 1000))
          (filter (\<lambda>item. aiKeywords (hn_text item)) hits))))"
    by (auto simp: fetchHackerNews_def fetchHackerNews_try_def catch_empty_def Let_def)
  then have "s \<in> set (map (hn_story_of (js_div (of_int now_ms) 1000))
          (filter (\<lambda>item. aiKeywords (hn_text item)) hits))"
    using set_slice0 set_js_sort by fastforce
  with Ok show ?thesis by auto
qed

lemma js_round_close: "\<bar>of_int (js_round y) - y\<bar> \<le> 1 / 2"
proof -
  have lo: "of_int (js_round y) \<le> y + 1 / 2"
    unfolding js_round_def by (rule of_int_floor_le)
  have hi: "y + 1 / 2 < of_int (js_round y) + 1"
    unfolding js_round_def by linarith
  from lo hi show ?thesis by linarith
qed

text \<open>
  C4. Every story that \<open>fetchHackerNews\<close> returns is made from a hit of the response, with
  the hit's points. Its \<open>pointsPerHour\<close> is the hit's rate rounded to one decimal place:
  the rate is the quotient of the points by the age in hours, the age at least 1, as
  the division of doubles gives it; ten times the rate is rounded to the nearest whole
  number \<open>k\<close> by \<open>Math.round\<close>, which is at most one half away, and the field is the
  double of \<open>k / 10\<close>. Its \<open>isHot\<close> holds exactly when the rate, before that rounding, is
  above 20. The fetcher always returns.
\<close>

theorem fetchHackerNews_rate_hot:
  "(\<exists>stories. fetchHackerNews aiKeywords limit now_ms resp = Inr stories)
   \<and> (\<forall>stories s. fetchHackerNews aiKeywords limit now_ms resp = Inr stories \<longrightarrow> s \<in> set stories \<longrightarrow>
        (\<exists>hits item. resp = Ok hits \<and> item \<in> set hits
           \<and> hn_age (js_div (of_int now_ms) 1000) item
               = max 1 (js_div (js_sub (js_div (of_int now_ms) 1000)
                                  (of_int (hit_created_at_i item))) 3600)
           \<and> hn_rate (js_div (of_int now_ms) 1000) item
               = js_div (of_int (hit_points item)) (hn_age (js_div (of_int now_ms) 1000) item)
           \<and> hn_points s = hit_points item
           \<and> hn_pointsPerHour s
               = js_div (of_int \<lfloor>js_mul (hn_rate (js_div (of_int now_ms) 1000) item) 10
                                  + 1 / 2\<rfloor>) 10
           \<and> (\<exists>k. hn_pointsPerHour s = round_double (of_int k / 10)
                 \<and> \<bar>of_int k - js_mul (hn_rate (js_div (of_int now_ms) 1000) item) 10\<bar> \<le> 1 / 2)
           \<and> (hn_isHot s \<longleftrightarrow> hn_rate (js_div (of_int now_ms) 1000) item > 20)))"
proof (intro conjI allI impI)
  show "\<exists>stories. fetchHackerNews aiKeywords limit now_ms resp = Inr stories"
    by (rule fetchHackerNews_returns)
next
  fix stories s
  let ?now = "js_div (of_int now_ms) 1000"
  assume "fetchHackerNews aiKeywords limit now_ms resp = Inr stories" and "s \<in> set stories"
  then obtain hits item where h: "resp = Ok hits" "item \<in> set hits"
      "s = hn_story_of ?now item"
    using fetchHackerNews_from_hits by blast
  let ?k = "js_round (js_mul (hn_rate ?now item) 10)"
  have "hn_pointsPerHour s = round_double (of_int ?k / 10)"
    by (simp add: h(3) hn_story_of_fields js_div_def)
  moreover have "\<bar>of_int ?k - js_mul (hn_rate ?now item) 10\<bar> \<le> 1 / 2"
    by (rule js_round_close)
  ultimately have k: "\<exists>k. hn_pointsPerHour s = round_double (of_int k / 10)
      \<and> \<bar>of_int k - js_mul (hn_rate ?now item) 10\<bar> \<le> 1 / 2"
    by blast
  have "hn_pointsPerHour s = js_div (of_int \<lfloor>js_mul (hn_rate ?now item) 10 + 1 / 2\<rfloor>) 10"
    by (simp add: h(3) hn_story_of_fields js_round_def)
  with k show "\<exists>hits item. resp = Ok hits \<and> item \<in> set hits
           \<and> hn_age ?now item
               = max 1 (js_div (js_sub ?now (of_int (hit_created_at_i item))) 3600)
           \<and> hn_rate ?now item = js_div (of_int (hit_points item)) (hn_age ?now item)
           \<and> hn_points s = hit_points item
           \<and> hn_pointsPerHour s
               = js_div (of_int \<lfloor>js_mul (hn_rate ?now item) 10 + 1 / 2\<rfloor>) 10
           \<and> (\<exists>k. hn_pointsPerHour s = round_double (of_int k / 10)
                 \<and> \<bar>of_int k - js_mul (hn_rate ?now item) 10\<bar> \<le> 1 / 2)
           \<and> (hn_isHot s \<longleftrightarrow> hn_rate ?now item > 20)"
    using h by (auto simp: hn_story_of_fields hn_age_def hn_rate_def)
qed

theorem fetchHackerNews_rate_hot_witness:
  "fetchHackerNews (\<lambda>t. True) 6 4032000 (Ok [example_tie_hit]) = Inr [example_tie_story]
   \<and> example_tie_story \<in> set [example_tie_story]
   \<and> hn_rate (js_div (of_int 4032000) 1000) example_tie_hit
       = 5277655813324799 / 281474976710656
   \<and> hn_pointsPerHour example_tie_story = round_double (187 / 10)
   \<and> \<not> hn_isHot example_tie_story"
proof -
  have run: "fetchHackerNews (\<lambda>t. True) 6 4032000 (Ok [example_tie_hit])
      = Inr [example_tie_story]"
    by code_simp
  have mem: "example_tie_story \<in> set [example_tie_story]" by simp
  have rate: "hn_rate (js_div (of_int 4032000) 1000) example_tie_hit
      = 5277655813324799 / 281474976710656"
    by code_simp
  have tenth: "js_div (of_int \<lfloor>js_mul (5277655813324799 / 281474976710656) 10 + 1 / 2\<rfloor>) 10
      = round_double (187 / 10)"
    by code_simp
  from fetchHackerNews_rate_hot [of "\<lambda>t. True" 6 4032000 "Ok [example_tie_hit]"] run mem
  obtain hits item where item: "Ok [example_tie_hit] = Ok hits" "item \<in> set hits"
    and pph: "hn_pointsPerHour example_tie_story
                = js_div (of_int \<lfloor>js_mul (hn_rate (js_div (of_int 4032000) 1000) item) 10
                                   + 1 / 2\<rfloor>) 10"
    and hot: "hn_isHot example_tie_story \<longleftrightarrow> hn_rate (js_div (of_int 4032000) 1000) item > 20"
    by blast
  from item have i: "item = example_tie_hit" by auto
  have "hn_pointsPerHour example_tie_story = round_double (187 / 10)"
    using pph unfolding i rate tenth .
  moreover have "\<not> hn_isHot example_tie_story"
    using hot unfolding i rate by simp
  ultimately show ?thesis using run mem rate by blast
qed

section \<open>Reddit: the 24 hour window\<close>

lemma reddit_loop_from_posts:
  assumes "reddit_loop fetch now subs allPosts = Inr items" and "r \<in> set items"
  shows "r \<in> set allPosts
         \<or> (\<exists>sub posts p. sub \<in> set subs \<and> fetch sub = Ok posts \<and> p \<in> set posts
               \<and> reddit_recent now p \<and> r = reddit_item_of now p)"
  using assms
proof (induction subs arbitrary: allPosts)
  case Nil
  then show ?case by simp
next
  case (Cons sub subs)
  show ?case
  proof (cases "fetch sub")
    case Threw
    with Cons.prems show ?thesis by simp
  next
    case NotOk
    with Cons.prems have "reddit_loop fetch now subs allPosts = Inr items" by simp
    from Cons.IH [OF this Cons.prems(2)] show ?thesis by auto
  next
    case (Ok children)
    with Cons.prems have "reddit_loop fetch now subs
        (allPosts @ map (reddit_item_of now) (filter (reddit_recent now) children)) = Inr items"
      by simp
    from Cons.IH [OF this Cons.prems(2)] Ok show ?thesis by auto
  qed
qed

lemma fetchReddit_returns: "\<exists>items. fetchReddit limit now_ms fetch = Inr items"
  by (simp add: fetchReddit_def catch_empty_returns)

lemma fetchReddit_from_posts:
  assumes "fetchReddit limit now_ms fetch = Inr items" and "r \<in> set items"
  shows "\<exists>sub posts p. sub \<in> set subreddits \<and> fetch sub = Ok posts \<and> p \<in> set posts
           \<and> reddit_recent (js_div (of_int now_ms) 1000) p
           \<and> r = reddit_item_of (js_div (of_int now_ms) 1000) p"
proof (cases "reddit_loop fetch (js_div (of_int now_ms) 1000) subreddits []")
  case (Inl e)
  with assms show ?thesis
    by (simp add: fetchReddit_def fetchReddit_try_def catch_empty_def)
next
  case (Inr allPosts)
  with assms have "r \<in> set (slice0 limit
      (js_sort (\<lambda>a b. rd_scorePerHour b - rd_scorePerHour a) allPosts))"
    by (auto simp: fetchReddit_def fetchReddit_try_def catch_empty_def)
  then have "r \<in> set allPosts"
    using set_slice0 set_js_sort by fastforce
  from reddit_loop_from_posts [OF Inr this] show ?thesis by simp
qed

text \<open>
  C6. \<open>fetchReddit\<close> always returns, and every record it returns is made from a post of an
  answered subreddit that passed the test of the filter, \<open>(now - created) < 86400\<close> in
  doubles, with \<open>now\<close> read once at the start of the fetch; for such a post the exact
  difference of \<open>now\<close> and its creation time is below 86400 seconds too. The posts that
  are older never reach the computation of the rate.
\<close>

theorem fetchReddit_within_24h:
  "(\<exists>items. fetchReddit limit now_ms fetch = Inr items)
   \<and> (\<forall>items r. fetchReddit limit now_ms fetch = Inr items \<longrightarrow> r \<in> set items \<longrightarrow>
        (\<exists>sub posts p. sub \<in> set subreddits \<and> fetch sub = Ok posts \<and> p \<in> set posts
           \<and> js_sub (js_div (of_int now_ms) 1000) (post_created_utc p) < 86400
           \<and> js_div (of_int now_ms) 1000 - post_created_utc p < 86400
           \<and> r = reddit_item_of (js_div (of_int now_ms) 1000) p))"
proof (intro conjI allI impI)
  show "\<exists>items. fetchReddit limit now_ms fetch = Inr items"
    by (rule fetchReddit_returns)
next
  fix items r
  assume "fetchReddit limit now_ms fetch = Inr items" and "r \<in> set items"
  then obtain sub posts p where p: "sub \<in> set subreddits" "fetch sub = Ok posts"
      "p \<in> set posts" "reddit_recent (js_div (of_int now_ms) 1000) p"
      "r = reddit_item_of (js_div (of_int now_ms) 1000) p"
    using fetchReddit_from_posts by blast
  from p(4) have t: "js_sub (js_div (of_int now_ms) 1000) (post_created_utc p) < 86400"
    by (simp add: reddit_recent_def)
  from js_sub_less_86400 [OF t] t p
  show "\<exists>sub posts p. sub \<in> set subreddits \<and> fetch sub = Ok posts \<and> p \<in> set posts
           \<and> js_sub (js_div (of_int now_ms) 1000) (post_created_utc p) < 86400
           \<and> js_div (of_int now_ms) 1000 - post_created_utc p < 86400
           \<and> r = reddit_item_of (js_div (of_int now_ms) 1000) p"
    by blast
qed

theorem fetchReddit_within_24h_witness:
  "fetchReddit 5 100000000 example_reddit = Inr [example_reddit_item]
   \<and> example_reddit_item \<in> set [example_reddit_item]
   \<and> (\<exists>sub posts p. sub \<in> set subreddits \<and> example_reddit sub = Ok posts \<and> p \<in> set posts
           \<and> js_sub (js_div (of_int 100000000) 1000) (post_created_utc p) < 86400
           \<and> js_div (of_int 100000000) 1000 - post_created_utc p < 86400
           \<and> example_reddit_item = reddit_item_of (js_div (of_int 100000000) 1000) p)
   \<and> \<not> js_sub (js_div (of_int 100000000) 1000) (post_created_utc example_old_post) < 86400"
proof -
  have run: "fetchReddit 5 100000000 example_reddit = Inr [example_reddit_item]"
    by code_simp
  have mem: "example_reddit_item \<in> set [example_reddit_item]" by simp
  have old: "\<not> js_sub (js_div (of_int 100000000) 1000) (post_created_utc example_old_post)
      < 86400"
    by code_simp
  from fetchReddit_within_24h [of 5 100000000 example_reddit] run mem old
  show ?thesis by blast
qed

section \<open>Size and order of what the fetchers return\<close>

lemma sorted_desc_Nil: "sorted_desc key []"
  by (simp add: sorted_desc_def)

lemma sorted_slice_catch:
  "\<exists>rs. catch_empty (case b of Inl e \<Rightarrow> Inl e
                       | Inr xs \<Rightarrow> Inr (slice0 limit (js_sort (\<lambda>a b. key b - key a) xs)))
          = Inr rs \<and> length rs \<le> limit \<and> sorted_desc key rs"
  by (cases b)
     (simp_all add: catch_empty_def sorted_desc_Nil length_slice0 sorted_desc_slice0
        sorted_desc_js_sort)

lemma fetchGitHubTrending_bounded_sorted:
  "\<exists>rs. fetchGitHubTrending descMatch nameMatch limit trendingRes fetch = Inr rs
        \<and> length rs \<le> limit \<and> sorted_desc (\<lambda>r. of_int (gh_starsToday r)) rs"
  unfolding fetchGitHubTrending_def fetchGitHubTrending_try_def Let_def
  by (rule sorted_slice_catch [where key = "\<lambda>r. of_int (gh_starsToday r)"])

lemma fetchHackerNews_bounded_sorted:
  "\<exists>rs. fetchHackerNews aiKeywords limit now_ms resp = Inr rs
        \<and> length rs \<le> limit \<and> sorted_desc hn_pointsPerHour rs"
  by (cases resp)
     (simp_all add: fetchHackerNews_def fetchHackerNews_try_def catch_empty_def Let_def
        sorted_desc_Nil length_slice0 sorted_desc_slice0 sorted_desc_js_sort)

lemma fetchReddit_bounded_sorted:
  "\<exists>rs. fetchReddit limit now_ms fetch = Inr rs
        \<and> length rs \<le> limit \<and> sorted_desc rd_scorePerHour rs"
  unfolding fetchReddit_def fetchReddit_try_def
  by (rule sorted_slice_catch)

lemma fetchHuggingFace_bounded_sorted:
  "\<exists>rs. fetchHuggingFace idMatch limit modelsRes spacesRes = Inr rs
        \<and> length rs \<le> limit \<and> sorted_desc (\<lambda>r. of_int (hf_likes7d r)) rs"
  by (simp add: fetchHuggingFace_def fetchHuggingFace_try_def catch_empty_def
        sorted_desc_Nil length_slice0 sorted_desc_slice0
        sorted_desc_js_sort [where key = "\<lambda>r. of_int (hf_likes7d r)"])

lemma length_arxiv_push: "length (arxiv_push now_ms entry) \<le> 1"
  by (simp add: arxiv_push_def split: option.splits opt_text.splits)

lemma arxiv_loop_bounded:
  "length papers < limit \<Longrightarrow> length (arxiv_loop limit now_ms entries papers) \<le> limit"
proof (induction entries arbitrary: papers)
  case Nil
  then show ?case by simp
next
  case (Cons entry entries)
  have "length (papers @ arxiv_push now_ms entry) \<le> limit"
    using Cons.prems length_arxiv_push [of now_ms entry] by simp
  with Cons.IH [of "papers @ arxiv_push now_ms entry"] show ?case
    by (simp add: Let_def)
qed

lemma arxiv_loop_order:
  "\<exists>n. arxiv_loop limit now_ms entries papers
         = papers @ concat (map (arxiv_push now_ms) (take n entries))"
proof (induction entries arbitrary: papers)
  case Nil
  then show ?case by simp
next
  case (Cons entry entries)
  show ?case
  proof (cases "length (papers @ arxiv_push now_ms entry) \<ge> limit")
    case True
    then have "arxiv_loop limit now_ms (entry # entries) papers
        = papers @ concat (map (arxiv_push now_ms) (take 1 (entry # entries)))"
      by (simp add: Let_def)
    then show ?thesis by blast
  next
    case False
    from Cons.IH [of "papers @ arxiv_push now_ms entry"] obtain n where
      "arxiv_loop limit now_ms entries (papers @ arxiv_push now_ms entry)
        = (papers @ arxiv_push now_ms entry) @ concat (map (arxiv_push now_ms) (take n entries))"
      by blast
    with False have "arxiv_loop limit now_ms (entry # entries) papers
        = papers @ concat (map (arxiv_push now_ms) (take (Suc n) (entry # entries)))"
      by (simp add: Let_def)
    then show ?thesis by blast
  qed
qed

lemma fetchArxiv_bounded:
  "\<exists>rs. fetchArxiv limit now_ms resp = Inr rs \<and> (1 \<le> limit \<longrightarrow> length rs \<le> limit)
     \<and> (rs = [] \<or> (\<exists>entries n. resp = Ok entries
                       \<and> rs = concat (map (arxiv_push now_ms) (take n entries))))"
proof (cases resp)
  case (Ok entries)
  have "1 \<le> limit \<longrightarrow> length (arxiv_loop limit now_ms entries []) \<le> limit"
    using arxiv_loop_bounded [of "[]" limit now_ms entries] by simp
  moreover obtain n where "arxiv_loop limit now_ms entries []
      = concat (map (arxiv_push now_ms) (take n entries))"
    using arxiv_loop_order [of limit now_ms entries "[]"] by auto
  ultimately show ?thesis using Ok
    by (auto simp: fetchArxiv_def fetchArxiv_try_def catch_empty_def)
qed (simp_all add: fetchArxiv_def fetchArxiv_try_def catch_empty_def)

lemma ph_loop_bounded:
  "length (ph_loop stripTags limit now_ms fetch urls) \<le> limit"
proof (induction urls)
  case Nil
  show ?case by simp
next
  case (Cons feedUrl rest)
  have "length (filter (\<lambda>p. ph_url p \<noteq> [])
          (map (ph_product_of stripTags now_ms) (slice0 limit items))) \<le> limit" for items
  proof -
    have "length (filter (\<lambda>p. ph_url p \<noteq> [])
          (map (ph_product_of stripTags now_ms) (slice0 limit items)))
        \<le> length (map (ph_product_of stripTags now_ms) (slice0 limit items))"
      by (rule length_filter_le)
    also have "\<dots> \<le> limit" by (simp add: length_slice0)
    finally show ?thesis .
  qed
  with Cons show ?case by (cases "fetch feedUrl") simp_all
qed

lemma ph_loop_order:
  "ph_loop stripTags limit now_ms fetch urls = []
   \<or> (\<exists>feedUrl items. feedUrl \<in> set urls \<and> fetch feedUrl = Ok items
        \<and> ph_loop stripTags limit now_ms fetch urls
            = filter (\<lambda>p. ph_url p \<noteq> [])
                (map (ph_product_of stripTags now_ms) (slice0 limit items)))"
proof (induction urls)
  case Nil
  show ?case by simp
next
  case (Cons feedUrl rest)
  then show ?case by (cases "fetch feedUrl") auto
qed

lemma fetchProductHunt_bounded:
  "\<exists>rs. fetchProductHunt stripTags limit now_ms fetch = Inr rs \<and> length rs \<le> limit
     \<and> (rs = [] \<or> (\<exists>feedUrl items. feedUrl \<in> set sources \<and> fetch feedUrl = Ok items
          \<and> rs = filter (\<lambda>p. ph_url p \<noteq> [])
                   (map (ph_product_of stripTags now_ms) (slice0 limit items))))"
  using ph_loop_bounded [of stripTags limit now_ms fetch sources]
    ph_loop_order [of stripTags limit now_ms fetch sources]
  by (simp add: fetchProductHunt_def fetchProductHunt_try_def catch_empty_def)

text \<open>
  C1, as the code has it. \<open>fetchGitHubTrending\<close>, \<open>fetchHackerNews\<close>, \<open>fetchReddit\<close> and
  \<open>fetchHuggingFace\<close> return, for every answer of their APIs, at most \<open>limit\<close> records in
  descending order of \<open>starsToday\<close>, \<open>pointsPerHour\<close>, \<open>scorePerHour\<close> and \<open>likes7d\<close>.
  \<open>fetchArxiv\<close> and \<open>fetchProductHunt\<close> do not sort: \<open>fetchArxiv\<close> returns the papers of
  the first entries of the feed in the order of the feed, at most \<open>limit\<close> of them when
  \<open>limit\<close> is at least 1; \<open>fetchProductHunt\<close> returns the products of the first \<open>limit\<close>
  items of one feed that have a link, in the order of the feed.
\<close>

theorem fetchers_bounded_sorted:
  "(\<exists>rs. fetchGitHubTrending descMatch nameMatch limit trendingRes search = Inr rs
        \<and> length rs \<le> limit \<and> sorted_desc (\<lambda>r. of_int (gh_starsToday r)) rs)
   \<and> (\<exists>rs. fetchHackerNews aiKeywords limit hn_now hnRes = Inr rs
        \<and> length rs \<le> limit \<and> sorted_desc hn_pointsPerHour rs)
   \<and> (\<exists>rs. fetchReddit limit reddit_now redditFetch = Inr rs
        \<and> length rs \<le> limit \<and> sorted_desc rd_scorePerHour rs)
   \<and> (\<exists>rs. fetchHuggingFace idMatch limit modelsRes spacesRes = Inr rs
        \<and> length rs \<le> limit \<and> sorted_desc (\<lambda>r. of_int (hf_likes7d r)) rs)
   \<and> (\<exists>rs. fetchArxiv limit arxiv_now arxivRes = Inr rs
        \<and> (1 \<le> limit \<longrightarrow> length rs \<le> limit)
        \<and> (rs = [] \<or> (\<exists>entries n. arxivRes = Ok entries
              \<and> rs = concat (map (arxiv_push arxiv_now) (take n entries)))))
   \<and> (\<exists>rs. fetchProductHunt stripTags limit ph_now phFetch = Inr rs \<and> length rs \<le> limit
        \<and> (rs = [] \<or> (\<exists>feedUrl items. feedUrl \<in> set sources \<and> phFetch feedUrl = Ok items
              \<and> rs = filter (\<lambda>p. ph_url p \<noteq> [])
                       (map (ph_product_of stripTags ph_now) (slice0 limit items)))))"
  by (intro conjI fetchGitHubTrending_bounded_sorted fetchHackerNews_bounded_sorted
        fetchReddit_bounded_sorted fetchHuggingFace_bounded_sorted fetchArxiv_bounded
        fetchProductHunt_bounded)

theorem fetchers_bounded_sorted_witness:
  "(1::nat) \<le> 2
   \<and> fetchArxiv 2 360000000 (Ok [example_entry_10h, example_entry_5h])
       = Inr [example_paper_10h, example_paper_5h]
   \<and> length [example_paper_10h, example_paper_5h] \<le> 2
   \<and> fetchHackerNews (\<lambda>t. True) 2 7200000 (Ok [example_slow_hit, example_hit])
       = Inr [example_story, example_slow_story]
   \<and> sorted_desc hn_pointsPerHour [example_story, example_slow_story]"
proof -
  have ax: "fetchArxiv 2 360000000 (Ok [example_entry_10h, example_entry_5h])
       = Inr [example_paper_10h, example_paper_5h]"
    by code_simp
  have hn: "fetchHackerNews (\<lambda>t. True) 2 7200000 (Ok [example_slow_hit, example_hit])
       = Inr [example_story, example_slow_story]"
    by code_simp
  from fetchers_bounded_sorted
    [of _ _ 2 _ _ "\<lambda>t. True" 7200000 "Ok [example_slow_hit, example_hit]" _ _ _ _ _
        360000000 "Ok [example_entry_10h, example_entry_5h]"]
  have "\<exists>rs. fetchHackerNews (\<lambda>t. True) 2 7200000 (Ok [example_slow_hit, example_hit]) = Inr rs
          \<and> length rs \<le> 2 \<and> sorted_desc hn_pointsPerHour rs"
    and "\<exists>rs. fetchArxiv 2 360000000 (Ok [example_entry_10h, example_entry_5h]) = Inr rs
          \<and> ((1::nat) \<le> 2 \<longrightarrow> length rs \<le> 2)"
    by blast+
  with ax hn show ?thesis by simp
qed

theorem fetchers_sorted_counterexample:
  "fetchArxiv 5 360000000 (Ok [example_entry_10h, example_entry_5h])
     = Inr [example_paper_10h, example_paper_5h]
   \<and> \<not> sorted_desc (\<lambda>p. - of_int (ax_hoursAgo p)) [example_paper_10h, example_paper_5h]
   \<and> fetchArxiv 0 360000000 (Ok [example_entry_10h, example_entry_5h])
       = Inr [example_paper_10h]
   \<and> \<not> length [example_paper_10h] \<le> 0"
proof -
  have "fetchArxiv 5 360000000 (Ok [example_entry_10h, example_entry_5h])
     = Inr [example_paper_10h, example_paper_5h]"
    by code_simp
  moreover have "\<not> sorted_desc (\<lambda>p. - of_int (ax_hoursAgo p))
      [example_paper_10h, example_paper_5h]"
    by code_simp
  moreover have "fetchArxiv 0 360000000 (Ok [example_entry_10h, example_entry_5h])
       = Inr [example_paper_10h]"
    by code_simp
  ultimately show ?thesis by simp
qed


section \<open>Failing sources and the report\<close>

lemma js_sort_Nil: "js_sort cmp [] = []"
  by (simp add: js_sort_def)

lemma slice0_Nil: "slice0 n [] = []"
  by (simp add: slice0_def)

lemma failed_cases: "failed r \<longleftrightarrow> r = Threw \<or> r = NotOk"
  by (cases r) (simp_all add: failed_def)

lemma search_loop_failed:
  "list_all (\<lambda>q. failed (fetch q)) qs \<Longrightarrow>
     search_loop fetch limit qs results = Inl NetworkError
     \<or> search_loop fetch limit qs results = Inr results"
proof (induction qs)
  case Nil
  show ?case by simp
next
  case (Cons q qs)
  then show ?case by (cases "fetch q") (auto simp: failed_def)
qed

lemma fetchGitHubTrending_fails:
  assumes "github_fails trendingRes search"
  shows "fetchGitHubTrending descMatch nameMatch limit trendingRes search = Inr []"
proof -
  from assms have oss: "oss_results descMatch nameMatch limit trendingRes = []"
    by (auto simp: github_fails_def failed_cases oss_results_def)
  from assms have "search_loop search limit queries [] = Inl NetworkError
      \<or> search_loop search limit queries [] = Inr []"
    using search_loop_failed [of search queries limit "[]"] by (simp add: github_fails_def)
  then show ?thesis
    by (auto simp: fetchGitHubTrending_def fetchGitHubTrending_try_def oss catch_empty_def
          js_sort_Nil slice0_Nil)
qed

lemma fetchHackerNews_fails:
  "failed resp \<Longrightarrow> fetchHackerNews aiKeywords limit now_ms resp = Inr []"
  by (auto simp: failed_cases fetchHackerNews_def fetchHackerNews_try_def catch_empty_def)

lemma reddit_loop_failed:
  "list_all (\<lambda>sub. failed (fetch sub)) subs \<Longrightarrow>
     reddit_loop fetch now subs allPosts = Inl NetworkError
     \<or> reddit_loop fetch now subs allPosts = Inr allPosts"
proof (induction subs)
  case Nil
  show ?case by simp
next
  case (Cons sub subs)
  then show ?case by (cases "fetch sub") (auto simp: failed_def)
qed

lemma fetchReddit_fails:
  assumes "reddit_fails fetch"
  shows "fetchReddit limit now_ms fetch = Inr []"
proof -
  from assms have "reddit_loop fetch (js_div (of_int now_ms) 1000) subreddits [] = Inl NetworkError
      \<or> reddit_loop fetch (js_div (of_int now_ms) 1000) subreddits [] = Inr []"
    using reddit_loop_failed [of fetch subreddits "js_div (of_int now_ms) 1000" "[]"]
    by (simp add: reddit_fails_def)
  then show ?thesis
    by (auto simp: fetchReddit_def fetchReddit_try_def catch_empty_def js_sort_Nil slice0_Nil)
qed

lemma fetchArxiv_fails:
  "failed resp \<Longrightarrow> fetchArxiv limit now_ms resp = Inr []"
  by (auto simp: failed_cases fetchArxiv_def fetchArxiv_try_def catch_empty_def)

lemma fetchHuggingFace_fails:
  "huggingface_fails modelsRes spacesRes \<Longrightarrow>
     fetchHuggingFace idMatch limit modelsRes spacesRes = Inr []"
  by (auto simp: huggingface_fails_def failed_cases fetchHuggingFace_def
        fetchHuggingFace_try_def catch_empty_def hf_models_part_def hf_spaces_part_def
        js_sort_Nil slice0_Nil)

lemma ph_loop_failed:
  "list_all (\<lambda>feedUrl. failed (fetch feedUrl)) urls \<Longrightarrow>
     ph_loop stripTags limit now_ms fetch urls = []"
proof (induction urls)
  case Nil
  show ?case by simp
next
  case (Cons feedUrl rest)
  then show ?case by (cases "fetch feedUrl") (auto simp: failed_def)
qed

lemma fetchProductHunt_fails:
  "producthunt_fails fetch \<Longrightarrow> fetchProductHunt stripTags limit now_ms fetch = Inr []"
  by (simp add: producthunt_fails_def fetchProductHunt_def fetchProductHunt_try_def
        catch_empty_def ph_loop_failed)

lemma fetchGitHubTrending_returns:
  "\<exists>rs. fetchGitHubTrending descMatch nameMatch limit trendingRes search = Inr rs"
  by (simp add: fetchGitHubTrending_def catch_empty_returns)

lemma fetchArxiv_returns: "\<exists>rs. fetchArxiv limit now_ms resp = Inr rs"
  by (simp add: fetchArxiv_def catch_empty_returns)

lemma fetchHuggingFace_returns:
  "\<exists>rs. fetchHuggingFace idMatch limit modelsRes spacesRes = Inr rs"
  by (simp add: fetchHuggingFace_def catch_empty_returns)

lemma fetchProductHunt_returns:
  "\<exists>rs. fetchProductHunt stripTags limit now_ms fetch = Inr rs"
  by (simp add: fetchProductHunt_def catch_empty_returns)

lemma generateTrendReport_sections:
  "\<exists>r. generateTrendReport pats w = Inr r
     \<and> fetchGitHubTrending (gh_descMatch pats) (gh_nameMatch pats) 6 (w_trending w) (w_search w)
         = Inr (github r)
     \<and> fetchHackerNews (hn_aiKeywords pats) 6 (w_hn_now w) (w_hn w) = Inr (hackerNews r)
     \<and> fetchReddit 5 (w_reddit_now w) (w_reddit w) = Inr (reddit r)
     \<and> fetchArxiv 4 (w_arxiv_now w) (w_arxiv w) = Inr (arxiv r)
     \<and> fetchHuggingFace (hf_idMatch pats) 5 (w_models w) (w_spaces w) = Inr (huggingface r)
     \<and> fetchProductHunt (ph_stripTags pats) 3 (w_ph_now w) (w_ph w) = Inr (productHunt r)"
proof -
  obtain gh where gh: "fetchGitHubTrending (gh_descMatch pats) (gh_nameMatch pats) 6
      (w_trending w) (w_search w) = Inr gh"
    using fetchGitHubTrending_returns by blast
  obtain hn where hn: "fetchHackerNews (hn_aiKeywords pats) 6 (w_hn_now w) (w_hn w) = Inr hn"
    using fetchHackerNews_returns by blast
  obtain rd where rd: "fetchReddit 5 (w_reddit_now w) (w_reddit w) = Inr rd"
    using fetchReddit_returns by blast
  obtain ax where ax: "fetchArxiv 4 (w_arxiv_now w) (w_arxiv w) = Inr ax"
    using fetchArxiv_returns by blast
  obtain hf where hf: "fetchHuggingFace (hf_idMatch pats) 5 (w_models w) (w_spaces w) = Inr hf"
    using fetchHuggingFace_returns by blast
  obtain ph where ph: "fetchProductHunt (ph_stripTags pats) 3 (w_ph_now w) (w_ph w) = Inr ph"
    using fetchProductHunt_returns by blast
  show ?thesis
    by (simp add: generateTrendReport_def promise_all6_def gh hn rd ax hf ph)
qed


text \<open>
  C2. A fetcher whose fetch fails (each of its requests throws or is answered with a
  status that is not ok) returns the empty sequence and does not throw. For every state
  of the world \<open>generateTrendReport\<close> returns a report; each section of the report is what
  the fetcher of that source returned, so the section of a source whose fetch fails is
  empty whatever the other sources do.
\<close>

theorem failing_fetch_empty_section:
  "(github_fails trendingRes search \<longrightarrow>
      fetchGitHubTrending descMatch nameMatch limit trendingRes search = Inr [])
   \<and> (failed hnRes \<longrightarrow> fetchHackerNews aiKeywords limit hn_now hnRes = Inr [])
   \<and> (reddit_fails redditFetch \<longrightarrow> fetchReddit limit reddit_now redditFetch = Inr [])
   \<and> (failed arxivRes \<longrightarrow> fetchArxiv limit arxiv_now arxivRes = Inr [])
   \<and> (huggingface_fails modelsRes spacesRes \<longrightarrow>
        fetchHuggingFace idMatch limit modelsRes spacesRes = Inr [])
   \<and> (producthunt_fails phFetch \<longrightarrow> fetchProductHunt stripTags limit ph_now phFetch = Inr [])
   \<and> (\<exists>r. generateTrendReport pats w = Inr r
        \<and> fetchGitHubTrending (gh_descMatch pats) (gh_nameMatch pats) 6 (w_trending w)
             (w_search w) = Inr (github r)
        \<and> fetchHackerNews (hn_aiKeywords pats) 6 (w_hn_now w) (w_hn w) = Inr (hackerNews r)
        \<and> fetchReddit 5 (w_reddit_now w) (w_reddit w) = Inr (reddit r)
        \<and> fetchArxiv 4 (w_arxiv_now w) (w_arxiv w) = Inr (arxiv r)
        \<and> fetchHuggingFace (hf_idMatch pats) 5 (w_models w) (w_spaces w)
             = Inr (huggingface r)
        \<and> fetchProductHunt (ph_stripTags pats) 3 (w_ph_now w) (w_ph w) = Inr (productHunt r)
        \<and> (github_fails (w_trending w) (w_search w) \<longrightarrow> github r = [])
        \<and> (failed (w_hn w) \<longrightarrow> hackerNews r = [])
        \<and> (reddit_fails (w_reddit w) \<longrightarrow> reddit r = [])
        \<and> (failed (w_arxiv w) \<longrightarrow> arxiv r = [])
        \<and> (huggingface_fails (w_models w) (w_spaces w) \<longrightarrow> huggingface r = [])
        \<and> (producthunt_fails (w_ph w) \<longrightarrow> productHunt r = []))"
proof -
  obtain r where r: "generateTrendReport pats w = Inr r"
      "fetchGitHubTrending (gh_descMatch pats) (gh_nameMatch pats) 6 (w_trending w)
         (w_search w) = Inr (github r)"
      "fetchHackerNews (hn_aiKeywords pats) 6 (w_hn_now w) (w_hn w) = Inr (hackerNews r)"
      "fetchReddit 5 (w_reddit_now w) (w_reddit w) = Inr (reddit r)"
      "fetchArxiv 4 (w_arxiv_now w) (w_arxiv w) = Inr (arxiv r)"
      "fetchHuggingFace (hf_idMatch pats) 5 (w_models w) (w_spaces w) = Inr (huggingface r)"
      "fetchProductHunt (ph_stripTags pats) 3 (w_ph_now w) (w_ph w) = Inr (productHunt r)"
    using generateTrendReport_sections [of pats w] by blast
  have "github_fails (w_trending w) (w_search w) \<longrightarrow> github r = []"
    using r(2) fetchGitHubTrending_fails [of "w_trending w" "w_search w"] by auto
  moreover have "failed (w_hn w) \<longrightarrow> hackerNews r = []"
    using r(3) fetchHackerNews_fails [of "w_hn w"] by auto
  moreover have "reddit_fails (w_reddit w) \<longrightarrow> reddit r = []"
    using r(4) fetchReddit_fails [of "w_reddit w"] by auto
  moreover have "failed (w_arxiv w) \<longrightarrow> arxiv r = []"
    using r(5) fetchArxiv_fails [of "w_arxiv w"] by auto
  moreover have "huggingface_fails (w_models w) (w_spaces w) \<longrightarrow> huggingface r = []"
    using r(6) fetchHuggingFace_fails [of "w_models w" "w_spaces w"] by auto
  moreover have "producthunt_fails (w_ph w) \<longrightarrow> productHunt r = []"
    using r(7) fetchProductHunt_fails [of "w_ph w"] by auto
  ultimately have "\<exists>r. generateTrendReport pats w = Inr r
        \<and> fetchGitHubTrending (gh_descMatch pats) (gh_nameMatch pats) 6 (w_trending w)
             (w_search w) = Inr (github r)
        \<and> fetchHackerNews (hn_aiKeywords pats) 6 (w_hn_now w) (w_hn w) = Inr (hackerNews r)
        \<and> fetchReddit 5 (w_reddit_now w) (w_reddit w) = Inr (reddit r)
        \<and> fetchArxiv 4 (w_arxiv_now w) (w_arxiv w) = Inr (arxiv r)
        \<and> fetchHuggingFace (hf_idMatch pats) 5 (w_models w) (w_spaces w)
             = Inr (huggingface r)
        \<and> fetchProductHunt (ph_stripTags pats) 3 (w_ph_now w) (w_ph w) = Inr (productHunt r)
        \<and> (github_fails (w_trending w) (w_search w) \<longrightarrow> github r = [])
        \<and> (failed (w_hn w) \<longrightarrow> hackerNews r = [])
        \<and> (reddit_fails (w_reddit w) \<longrightarrow> reddit r = [])
        \<and> (failed (w_arxiv w) \<longrightarrow> arxiv r = [])
        \<and> (huggingface_fails (w_models w) (w_spaces w) \<longrightarrow> huggingface r = [])
        \<and> (producthunt_fails (w_ph w) \<longrightarrow> productHunt r = [])"
    using r by blast
  then show ?thesis
    using fetchGitHubTrending_fails fetchHackerNews_fails fetchReddit_fails fetchArxiv_fails
      fetchHuggingFace_fails fetchProductHunt_fails
    by (intro conjI impI) assumption+
qed

theorem failing_fetch_empty_section_witness:
  "github_fails Threw (\<lambda>q. NotOk)
   \<and> fetchGitHubTrending (\<lambda>t. True) (\<lambda>t. True) 6 Threw (\<lambda>q. NotOk) = Inr []
   \<and> failed (NotOk :: hn_hit list response)
   \<and> fetchHackerNews (\<lambda>t. True) 6 0 NotOk = Inr []
   \<and> reddit_fails (\<lambda>sub. Threw)
   \<and> fetchReddit 6 0 (\<lambda>sub. Threw) = Inr []
   \<and> failed (Threw :: arxiv_entry list response)
   \<and> fetchArxiv 6 0 Threw = Inr []
   \<and> huggingface_fails NotOk Threw
   \<and> fetchHuggingFace (\<lambda>t. True) 6 NotOk Threw = Inr []
   \<and> producthunt_fails (\<lambda>feedUrl. NotOk)
   \<and> fetchProductHunt (\<lambda>t. t) 6 0 (\<lambda>feedUrl. NotOk) = Inr []
   \<and> generateTrendReport example_patterns example_world = Inr example_report
   \<and> failed (w_hn example_world)
   \<and> hackerNews example_report = []
   \<and> fetchReddit 5 (w_reddit_now example_world) (w_reddit example_world)
       = Inr (reddit example_report)
   \<and> reddit example_report = [example_reddit_item]"
proof -
  have hyps: "github_fails Threw (\<lambda>q. NotOk)" "failed (NotOk :: hn_hit list response)"
      "reddit_fails (\<lambda>sub. Threw)" "failed (Threw :: arxiv_entry list response)"
      "huggingface_fails NotOk Threw" "producthunt_fails (\<lambda>feedUrl. NotOk)"
      "failed (w_hn example_world)"
    by code_simp+
  have run: "generateTrendReport example_patterns example_world = Inr example_report"
    by code_simp
  have rd: "reddit example_report = [example_reddit_item]"
    by (simp add: example_report_def)
  note inst = failing_fetch_empty_section
    [of Threw "\<lambda>q. NotOk" "\<lambda>t. True" "\<lambda>t. True" 6
        "NotOk :: hn_hit list response" "\<lambda>t. True" 0
        "\<lambda>sub. Threw" 0 "Threw :: arxiv_entry list response" 0
        NotOk Threw "\<lambda>t. True" "\<lambda>feedUrl. NotOk" "\<lambda>t. t" 0
        example_patterns example_world]
  from inst hyps have fetchers:
      "fetchGitHubTrending (\<lambda>t. True) (\<lambda>t. True) 6 Threw (\<lambda>q. NotOk) = Inr []"
      "fetchHackerNews (\<lambda>t. True) 6 0 NotOk = Inr []"
      "fetchReddit 6 0 (\<lambda>sub. Threw) = Inr []"
      "fetchArxiv 6 0 Threw = Inr []"
      "fetchHuggingFace (\<lambda>t. True) 6 NotOk Threw = Inr []"
      "fetchProductHunt (\<lambda>t. t) 6 0 (\<lambda>feedUrl. NotOk) = Inr []"
    by blast+
  from inst obtain r where r: "generateTrendReport example_patterns example_world = Inr r"
      "fetchReddit 5 (w_reddit_now example_world) (w_reddit example_world) = Inr (reddit r)"
      "failed (w_hn example_world) \<longrightarrow> hackerNews r = []"
    by blast
  from r(1) run have "r = example_report" by simp
  with r hyps have "hackerNews example_report = []"
      "fetchReddit 5 (w_reddit_now example_world) (w_reddit example_world)
         = Inr (reddit example_report)"
    by simp_all
  with hyps fetchers run rd show ?thesis by simp
qed


section \<open>The flags of the records\<close>

lemma search_items_from:
  "r \<in> set (search_items items results) \<Longrightarrow>
     r \<in> set results \<or> (\<exists>item. item \<in> set items \<and> r = search_repo item)"
proof (induction items arbitrary: results)
  case Nil
  then show ?case by simp
next
  case (Cons repo rest)
  from Cons.IH [OF Cons.prems [simplified]] show ?case
    by (auto split: if_splits)
qed

lemma search_loop_from:
  assumes "search_loop fetch limit qs results = Inr rs" and "r \<in> set rs"
  shows "r \<in> set results
         \<or> (\<exists>q items item. q \<in> set qs \<and> fetch q = Ok items \<and> item \<in> set items
               \<and> r = search_repo item)"
  using assms
proof (induction qs arbitrary: results)
  case Nil
  then show ?case by simp
next
  case (Cons q qs)
  show ?case
  proof (cases "length results \<ge> limit")
    case True
    with Cons.prems show ?thesis by simp
  next
    case False
    show ?thesis
    proof (cases "fetch q")
      case Threw
      with False Cons.prems show ?thesis by simp
    next
      case NotOk
      with False Cons.prems have "search_loop fetch limit qs results = Inr rs" by simp
      from Cons.IH [OF this Cons.prems(2)] show ?thesis by auto
    next
      case (Ok items)
      with False Cons.prems have "search_loop fetch limit qs (search_items items results) = Inr rs"
        by simp
      from Cons.IH [OF this Cons.prems(2)] Ok search_items_from [of r items results]
      show ?thesis by auto
    qed
  qed
qed

lemma oss_results_from:
  "r \<in> set (oss_results descMatch nameMatch limit trendingRes) \<Longrightarrow>
     \<exists>rows row. trendingRes = Ok rows \<and> row \<in> set rows \<and> r = oss_repo row"
proof (cases trendingRes)
  case (Ok rows)
  assume "r \<in> set (oss_results descMatch nameMatch limit trendingRes)"
  with Ok obtain row where "row \<in> set (slice0 limit
      (filter (\<lambda>r. descMatch (or_else (row_description r) [])
                   \<or> nameMatch (or_else (row_repo_name r) [])) rows))" "r = oss_repo row"
    by (auto simp: oss_results_def)
  then have "row \<in> set rows" using set_slice0 by fastforce
  with Ok \<open>r = oss_repo row\<close> show ?thesis by blast
qed (simp_all add: oss_results_def)

lemma fetchGitHubTrending_from:
  assumes "fetchGitHubTrending descMatch nameMatch limit trendingRes search = Inr rs"
    and "r \<in> set rs"
  shows "(\<exists>rows row. trendingRes = Ok rows \<and> row \<in> set rows \<and> r = oss_repo row)
         \<or> (\<exists>q items item. q \<in> set queries \<and> search q = Ok items \<and> item \<in> set items
               \<and> r = search_repo item)"
proof -
  let ?results = "oss_results descMatch nameMatch limit trendingRes"
  let ?b = "if length ?results < limit then search_loop search limit queries ?results
            else Inr ?results"
  show ?thesis
  proof (cases ?b)
    case (Inl e)
    with assms show ?thesis
      by (simp add: fetchGitHubTrending_def fetchGitHubTrending_try_def catch_empty_def Let_def)
  next
    case (Inr results')
    with assms have "r \<in> set (slice0 limit
        (js_sort (\<lambda>a b. of_int (gh_starsToday b) - of_int (gh_starsToday a)) results'))"
      by (auto simp: fetchGitHubTrending_def fetchGitHubTrending_try_def catch_empty_def Let_def)
    then have mem: "r \<in> set results'" using set_slice0 set_js_sort by fastforce
    have "r \<in> set ?results
          \<or> (\<exists>q items item. q \<in> set queries \<and> search q = Ok items \<and> item \<in> set items
                \<and> r = search_repo item)"
    proof (cases "length ?results < limit")
      case True
      with Inr have "search_loop search limit queries ?results = Inr results'" by simp
      from search_loop_from [OF this mem] show ?thesis .
    next
      case False
      with Inr mem show ?thesis by simp
    qed
    with oss_results_from [of r descMatch nameMatch limit trendingRes] show ?thesis by blast
  qed
qed

lemma gh_hot_thresholds:
  "gh_isHot (oss_repo row) \<longleftrightarrow> gh_stars (oss_repo row) > 500"
  "gh_isHot (search_repo item) \<longleftrightarrow> gh_stars (search_repo item) > 10000"
  by (simp_all add: oss_repo_def search_repo_def split: option.splits)

lemma fetchHuggingFace_from:
  assumes "fetchHuggingFace idMatch limit modelsRes spacesRes = Inr rs" and "r \<in> set rs"
  shows "(\<exists>models m. modelsRes = Ok models \<and> m \<in> set models \<and> r = hf_model_item m)
         \<or> (\<exists>spaces s. spacesRes = Ok spaces \<and> s \<in> set spaces \<and> r = hf_space_item s)"
proof (cases "modelsRes = Threw \<or> spacesRes = Threw")
  case True
  with assms show ?thesis
    by (simp add: fetchHuggingFace_def fetchHuggingFace_try_def catch_empty_def)
next
  case False
  with assms have "r \<in> set (slice0 limit
      (js_sort (\<lambda>a b. of_int (hf_likes7d b) - of_int (hf_likes7d a))
         (hf_models_part idMatch modelsRes @ hf_spaces_part spacesRes)))"
    by (auto simp: fetchHuggingFace_def fetchHuggingFace_try_def catch_empty_def)
  then have "r \<in> set (hf_models_part idMatch modelsRes @ hf_spaces_part spacesRes)"
    using set_slice0 set_js_sort by fastforce
  then have "r \<in> set (hf_models_part idMatch modelsRes) \<or> r \<in> set (hf_spaces_part spacesRes)"
    by simp
  then show ?thesis
  proof
    assume "r \<in> set (hf_models_part idMatch modelsRes)"
    then have "\<exists>models m. modelsRes = Ok models \<and> m \<in> set models \<and> r = hf_model_item m"
      by (cases modelsRes) (auto simp: hf_models_part_def dest!: in_set_takeD)
    then show ?thesis ..
  next
    assume "r \<in> set (hf_spaces_part spacesRes)"
    then have "\<exists>spaces s. spacesRes = Ok spaces \<and> s \<in> set spaces \<and> r = hf_space_item s"
      by (cases spacesRes) (auto simp: hf_spaces_part_def dest!: in_set_takeD)
    then show ?thesis ..
  qed
qed

lemma hf_hot_thresholds:
  "hf_isHot (hf_model_item m) \<longleftrightarrow> hf_likes7d (hf_model_item m) > 100"
  "hf_isHot (hf_space_item s) \<longleftrightarrow> hf_likes7d (hf_space_item s) > 50"
  by (simp_all add: hf_model_item_def hf_space_item_def)

lemma arxiv_push_from:
  "p \<in> set (arxiv_push now_ms entry) \<Longrightarrow>
     \<exists>title link pub. entry_title entry = Txt title \<and> entry_link entry = Txt link
        \<and> entry_published entry = Some pub \<and> arxiv_hoursAgo now_ms pub \<le> 48
        \<and> p = arxiv_paper_of now_ms title link pub entry"
  by (simp add: arxiv_push_def split: opt_text.splits option.splits if_splits) metis

lemma fetchArxiv_from:
  assumes "fetchArxiv limit now_ms resp = Inr rs" and "p \<in> set rs"
  shows "\<exists>entries entry title link pub. resp = Ok entries \<and> entry \<in> set entries
           \<and> entry_title entry = Txt title \<and> entry_link entry = Txt link
           \<and> entry_published entry = Some pub \<and> arxiv_hoursAgo now_ms pub \<le> 48
           \<and> p = arxiv_paper_of now_ms title link pub entry"
proof -
  from fetchArxiv_bounded [of limit now_ms resp] assms obtain entries n where
    e: "resp = Ok entries" "rs = concat (map (arxiv_push now_ms) (take n entries))"
    by auto
  with assms(2) obtain entry where "entry \<in> set (take n entries)"
      "p \<in> set (arxiv_push now_ms entry)"
    by auto
  then have "entry \<in> set entries" by (auto dest: in_set_takeD)
  with e(1) arxiv_push_from [OF \<open>p \<in> set (arxiv_push now_ms entry)\<close>] show ?thesis
    by blast
qed

lemma fetchProductHunt_from:
  assumes "fetchProductHunt stripTags limit now_ms fetch = Inr rs" and "p \<in> set rs"
  shows "\<exists>feedUrl items item. feedUrl \<in> set sources \<and> fetch feedUrl = Ok items
           \<and> item \<in> set items \<and> p = ph_product_of stripTags now_ms item"
proof -
  from fetchProductHunt_bounded [of stripTags limit now_ms fetch] assms obtain feedUrl items
    where f: "feedUrl \<in> set sources" "fetch feedUrl = Ok items"
      "rs = filter (\<lambda>p. ph_url p \<noteq> [])
              (map (ph_product_of stripTags now_ms) (slice0 limit items))"
    by auto
  with assms(2) obtain item where "item \<in> set (slice0 limit items)"
      "p = ph_product_of stripTags now_ms item"
    by auto
  moreover then have "item \<in> set items" using set_slice0 by fastforce
  ultimately show ?thesis using f by blast
qed

lemma reddit_item_of_hot:
  "rd_isHot (reddit_item_of now p)
     \<longleftrightarrow> js_div (of_int (post_score p))
                (max 1 (js_div (js_sub now (post_created_utc p)) 3600)) > 50"
  by (simp add: reddit_item_of_def Let_def)

lemma hn_story_of_hot:
  "hn_isHot (hn_story_of now item)
     \<longleftrightarrow> js_div (of_int (hit_points item))
                (max 1 (js_div (js_sub now (of_int (hit_created_at_i item))) 3600)) > 20"
  by (simp add: hn_story_of_fields hn_rate_def hn_age_def)

lemma arxiv_paper_of_new:
  "ax_isNew (arxiv_paper_of now_ms title link pub entry) \<longleftrightarrow> arxiv_hoursAgo now_ms pub \<le> 24"
  by (simp add: arxiv_paper_of_def Let_def)

lemma ph_product_of_new:
  "ph_isNew (ph_product_of stripTags now_ms item)
     \<longleftrightarrow> (case ph_hours now_ms (it_pubDate item) of None \<Rightarrow> False | Some h \<Rightarrow> h \<le> 24)"
  by (simp add: ph_product_of_def Let_def)

lemma object_flags:
  "get_prop (gh_object r) (ascii ''isHot'') = Bool (gh_isHot r)"
  "get_prop (hn_object s) (ascii ''isHot'') = Bool (hn_isHot s)"
  "get_prop (reddit_object i) (ascii ''isHot'') = Bool (rd_isHot i)"
  "get_prop (hf_object h) (ascii ''isHot'') = Bool (hf_isHot h)"
  "get_prop (arxiv_object a) (ascii ''isNew'') = Bool (ax_isNew a)"
  "get_prop (ph_object p) (ascii ''isNew'') = Bool (ph_isNew p)"
  by (simp_all add: get_prop_def gh_object_def hn_object_def reddit_object_def hf_object_def
        arxiv_object_def ph_object_def ascii_def)

lemma github_flag:
  assumes "fetchGitHubTrending descMatch nameMatch limit trendingRes search = Inr rs"
    and "r \<in> set rs"
  shows "get_prop (gh_object r) (ascii ''isHot'') = Bool (gh_isHot r)
     \<and> ((\<exists>rows row. trendingRes = Ok rows \<and> row \<in> set rows \<and> r = oss_repo row
            \<and> (gh_isHot r \<longleftrightarrow> gh_stars r > 500))
        \<or> (\<exists>q items item. q \<in> set queries \<and> search q = Ok items \<and> item \<in> set items
            \<and> r = search_repo item \<and> (gh_isHot r \<longleftrightarrow> gh_stars r > 10000)))"
proof -
  from fetchGitHubTrending_from [OF assms]
  have "(\<exists>rows row. trendingRes = Ok rows \<and> row \<in> set rows \<and> r = oss_repo row
            \<and> (gh_isHot r \<longleftrightarrow> gh_stars r > 500))
        \<or> (\<exists>q items item. q \<in> set queries \<and> search q = Ok items \<and> item \<in> set items
            \<and> r = search_repo item \<and> (gh_isHot r \<longleftrightarrow> gh_stars r > 10000))"
    using gh_hot_thresholds by blast
  with object_flags(1) show ?thesis by blast
qed

lemma hackernews_flag:
  assumes "fetchHackerNews aiKeywords limit now_ms resp = Inr rs" and "s \<in> set rs"
  shows "get_prop (hn_object s) (ascii ''isHot'') = Bool (hn_isHot s)
     \<and> (\<exists>hits item. resp = Ok hits \<and> item \<in> set hits
          \<and> s = hn_story_of (js_div (of_int now_ms) 1000) item
          \<and> (hn_isHot s \<longleftrightarrow>
               js_div (of_int (hit_points item))
                 (max 1 (js_div (js_sub (js_div (of_int now_ms) 1000)
                                   (of_int (hit_created_at_i item))) 3600)) > 20))"
proof -
  from fetchHackerNews_from_hits [OF assms] obtain hits item where
    h: "resp = Ok hits" "item \<in> set hits" "s = hn_story_of (js_div (of_int now_ms) 1000) item"
    by blast
  have "hn_isHot s \<longleftrightarrow>
      js_div (of_int (hit_points item))
        (max 1 (js_div (js_sub (js_div (of_int now_ms) 1000)
                          (of_int (hit_created_at_i item))) 3600)) > 20"
    unfolding h(3) by (rule hn_story_of_hot)
  with h object_flags(2) show ?thesis by blast
qed

lemma reddit_flag:
  assumes "fetchReddit limit now_ms fetch = Inr rs" and "r \<in> set rs"
  shows "get_prop (reddit_object r) (ascii ''isHot'') = Bool (rd_isHot r)
     \<and> (\<exists>sub posts p. sub \<in> set subreddits \<and> fetch sub = Ok posts \<and> p \<in> set posts
          \<and> r = reddit_item_of (js_div (of_int now_ms) 1000) p
          \<and> (rd_isHot r \<longleftrightarrow>
               js_div (of_int (post_score p))
                 (max 1 (js_div (js_sub (js_div (of_int now_ms) 1000)
                                   (post_created_utc p)) 3600)) > 50))"
proof -
  from fetchReddit_from_posts [OF assms] obtain sub posts p where
    h: "sub \<in> set subreddits" "fetch sub = Ok posts" "p \<in> set posts"
       "r = reddit_item_of (js_div (of_int now_ms) 1000) p"
    by blast
  have "rd_isHot r \<longleftrightarrow>
      js_div (of_int (post_score p))
        (max 1 (js_div (js_sub (js_div (of_int now_ms) 1000) (post_created_utc p)) 3600)) > 50"
    unfolding h(4) by (rule reddit_item_of_hot)
  with h object_flags(3) show ?thesis by blast
qed

lemma huggingface_flag:
  assumes "fetchHuggingFace idMatch limit modelsRes spacesRes = Inr rs" and "r \<in> set rs"
  shows "get_prop (hf_object r) (ascii ''isHot'') = Bool (hf_isHot r)
     \<and> ((\<exists>models m. modelsRes = Ok models \<and> m \<in> set models \<and> r = hf_model_item m
            \<and> (hf_isHot r \<longleftrightarrow> hf_likes7d r > 100))
        \<or> (\<exists>spaces s. spacesRes = Ok spaces \<and> s \<in> set spaces \<and> r = hf_space_item s
            \<and> (hf_isHot r \<longleftrightarrow> hf_likes7d r > 50)))"
proof -
  from fetchHuggingFace_from [OF assms]
  have "(\<exists>models m. modelsRes = Ok models \<and> m \<in> set models \<and> r = hf_model_item m
            \<and> (hf_isHot r \<longleftrightarrow> hf_likes7d r > 100))
        \<or> (\<exists>spaces s. spacesRes = Ok spaces \<and> s \<in> set spaces \<and> r = hf_space_item s
            \<and> (hf_isHot r \<longleftrightarrow> hf_likes7d r > 50))"
    using hf_hot_thresholds by blast
  with object_flags(4) show ?thesis by blast
qed

lemma arxiv_flag:
  assumes "fetchArxiv limit now_ms resp = Inr rs" and "p \<in> set rs"
  shows "get_prop (arxiv_object p) (ascii ''isNew'') = Bool (ax_isNew p)
     \<and> (\<exists>entries entry title link pub. resp = Ok entries \<and> entry \<in> set entries
          \<and> entry_title entry = Txt title \<and> entry_link entry = Txt link
          \<and> entry_published entry = Some pub
          \<and> p = arxiv_paper_of now_ms title link pub entry
          \<and> (ax_isNew p \<longleftrightarrow> arxiv_hoursAgo now_ms pub \<le> 24))"
proof -
  from fetchArxiv_from [OF assms] obtain entries entry title link pub where
    h: "resp = Ok entries" "entry \<in> set entries" "entry_title entry = Txt title"
       "entry_link entry = Txt link" "entry_published entry = Some pub"
       "p = arxiv_paper_of now_ms title link pub entry"
    by blast
  have "ax_isNew p \<longleftrightarrow> arxiv_hoursAgo now_ms pub \<le> 24"
    unfolding h(6) by (rule arxiv_paper_of_new)
  with h object_flags(5) show ?thesis by blast
qed

lemma producthunt_flag:
  assumes "fetchProductHunt stripTags limit now_ms fetch = Inr rs" and "p \<in> set rs"
  shows "get_prop (ph_object p) (ascii ''isNew'') = Bool (ph_isNew p)
     \<and> (\<exists>feedUrl items item. feedUrl \<in> set sources \<and> fetch feedUrl = Ok items
          \<and> item \<in> set items \<and> p = ph_product_of stripTags now_ms item
          \<and> (ph_isNew p \<longleftrightarrow>
               (case ph_hours now_ms (it_pubDate item) of None \<Rightarrow> False | Some h \<Rightarrow> h \<le> 24)))"
proof -
  from fetchProductHunt_from [OF assms] obtain feedUrl items item where
    h: "feedUrl \<in> set sources" "fetch feedUrl = Ok items" "item \<in> set items"
       "p = ph_product_of stripTags now_ms item"
    by blast
  have "ph_isNew p \<longleftrightarrow>
      (case ph_hours now_ms (it_pubDate item) of None \<Rightarrow> False | Some h \<Rightarrow> h \<le> 24)"
    unfolding h(4) by (rule ph_product_of_new)
  with h object_flags(6) show ?thesis by blast
qed

text \<open>
  C3. Every record that a fetcher returns is made from one item of an answer to that
  fetcher's requests and carries a boolean flag, which compares a metric of that very
  item with a fixed threshold. For \<open>fetchGitHubTrending\<close>, \<open>fetchHackerNews\<close>,
  \<open>fetchReddit\<close> and \<open>fetchHuggingFace\<close> the flag is \<open>isHot\<close>: the stars above 500 (a
  row of the trend table) or above 10000 (an item of a search), the points per hour
  above 20 and the score per hour above 50, both as the division of doubles gives them
  and before they are rounded for display, \<open>likes7d\<close> above 100 (a model) or above 50 (a
  space). For \<open>fetchArxiv\<close> and \<open>fetchProductHunt\<close> the flag is \<open>isNew\<close>: the age in
  hours at most 24, for Product Hunt the age rounded to whole hours, and false when the
  date of the item cannot be read.
\<close>

theorem hot_flags:
  "(\<forall>rs r. fetchGitHubTrending descMatch nameMatch limit trendingRes search = Inr rs \<longrightarrow>
      r \<in> set rs \<longrightarrow>
        get_prop (gh_object r) (ascii ''isHot'') = Bool (gh_isHot r)
        \<and> ((\<exists>rows row. trendingRes = Ok rows \<and> row \<in> set rows \<and> r = oss_repo row
               \<and> (gh_isHot r \<longleftrightarrow> gh_stars r > 500))
           \<or> (\<exists>q items item. q \<in> set queries \<and> search q = Ok items \<and> item \<in> set items
               \<and> r = search_repo item \<and> (gh_isHot r \<longleftrightarrow> gh_stars r > 10000))))
   \<and> (\<forall>rs s. fetchHackerNews aiKeywords limit hn_now hnRes = Inr rs \<longrightarrow> s \<in> set rs \<longrightarrow>
        get_prop (hn_object s) (ascii ''isHot'') = Bool (hn_isHot s)
        \<and> (\<exists>hits item. hnRes = Ok hits \<and> item \<in> set hits
             \<and> s = hn_story_of (js_div (of_int hn_now) 1000) item
             \<and> (hn_isHot s \<longleftrightarrow>
                  js_div (of_int (hit_points item))
                    (max 1 (js_div (js_sub (js_div (of_int hn_now) 1000)
                                      (of_int (hit_created_at_i item))) 3600)) > 20)))
   \<and> (\<forall>rs r. fetchReddit limit reddit_now redditFetch = Inr rs \<longrightarrow> r \<in> set rs \<longrightarrow>
        get_prop (reddit_object r) (ascii ''isHot'') = Bool (rd_isHot r)
        \<and> (\<exists>sub posts p. sub \<in> set subreddits \<and> redditFetch sub = Ok posts \<and> p \<in> set posts
             \<and> r = reddit_item_of (js_div (of_int reddit_now) 1000) p
             \<and> (rd_isHot r \<longleftrightarrow>
                  js_div (of_int (post_score p))
                    (max 1 (js_div (js_sub (js_div (of_int reddit_now) 1000)
                                      (post_created_utc p)) 3600)) > 50)))
   \<and> (\<forall>rs r. fetchHuggingFace idMatch limit modelsRes spacesRes = Inr rs \<longrightarrow> r \<in> set rs \<longrightarrow>
        get_prop (hf_object r) (ascii ''isHot'') = Bool (hf_isHot r)
        \<and> ((\<exists>models m. modelsRes = Ok models \<and> m \<in> set models \<and> r = hf_model_item m
               \<and> (hf_isHot r \<longleftrightarrow> hf_likes7d r > 100))
           \<or> (\<exists>spaces s. spacesRes = Ok spaces \<and> s \<in> set spaces \<and> r = hf_space_item s
               \<and> (hf_isHot r \<longleftrightarrow> hf_likes7d r > 50))))
   \<and> (\<forall>rs p. fetchArxiv limit arxiv_now arxivRes = Inr rs \<longrightarrow> p \<in> set rs \<longrightarrow>
        get_prop (arxiv_object p) (ascii ''isNew'') = Bool (ax_isNew p)
        \<and> (\<exists>entries entry title link pub. arxivRes = Ok entries \<and> entry \<in> set entries
             \<and> entry_title entry = Txt title \<and> entry_link entry = Txt link
             \<and> entry_published entry = Some pub
             \<and> p = arxiv_paper_of arxiv_now title link pub entry
             \<and> (ax_isNew p \<longleftrightarrow> arxiv_hoursAgo arxiv_now pub \<le> 24)))
   \<and> (\<forall>rs p. fetchProductHunt stripTags limit ph_now phFetch = Inr rs \<longrightarrow> p \<in> set rs \<longrightarrow>
        get_prop (ph_object p) (ascii ''isNew'') = Bool (ph_isNew p)
        \<and> (\<exists>feedUrl items item. feedUrl \<in> set sources \<and> phFetch feedUrl = Ok items
             \<and> item \<in> set items \<and> p = ph_product_of stripTags ph_now item
             \<and> (ph_isNew p \<longleftrightarrow>
                  (case ph_hours ph_now (it_pubDate item) of
                     None \<Rightarrow> False | Some h \<Rightarrow> h \<le> 24))))"
proof (intro conjI allI impI)
  fix rs r
  assume "fetchGitHubTrending descMatch nameMatch limit trendingRes search = Inr rs" "r \<in> set rs"
  from github_flag [OF this] show "get_prop (gh_object r) (ascii ''isHot'') = Bool (gh_isHot r)"
    and "(\<exists>rows row. trendingRes = Ok rows \<and> row \<in> set rows \<and> r = oss_repo row
               \<and> (gh_isHot r \<longleftrightarrow> gh_stars r > 500))
           \<or> (\<exists>q items item. q \<in> set queries \<and> search q = Ok items \<and> item \<in> set items
               \<and> r = search_repo item \<and> (gh_isHot r \<longleftrightarrow> gh_stars r > 10000))"
    by (rule conjunct1, rule conjunct2)
next
  fix rs s
  assume "fetchHackerNews aiKeywords limit hn_now hnRes = Inr rs" "s \<in> set rs"
  from hackernews_flag [OF this] show "get_prop (hn_object s) (ascii ''isHot'') = Bool (hn_isHot s)"
    and "\<exists>hits item. hnRes = Ok hits \<and> item \<in> set hits
             \<and> s = hn_story_of (js_div (of_int hn_now) 1000) item
             \<and> (hn_isHot s \<longleftrightarrow>
                  js_div (of_int (hit_points item))
                    (max 1 (js_div (js_sub (js_div (of_int hn_now) 1000)
                                      (of_int (hit_created_at_i item))) 3600)) > 20)"
    by (rule conjunct1, rule conjunct2)
next
  fix rs r
  assume "fetchReddit limit reddit_now redditFetch = Inr rs" "r \<in> set rs"
  from reddit_flag [OF this] show "get_prop (reddit_object r) (ascii ''isHot'') = Bool (rd_isHot r)"
    and "\<exists>sub posts p. sub \<in> set subreddits \<and> redditFetch sub = Ok posts \<and> p \<in> set posts
             \<and> r = reddit_item_of (js_div (of_int reddit_now) 1000) p
             \<and> (rd_isHot r \<longleftrightarrow>
                  js_div (of_int (post_score p))
                    (max 1 (js_div (js_sub (js_div (of_int reddit_now) 1000)
                                      (post_created_utc p)) 3600)) > 50)"
    by (rule conjunct1, rule conjunct2)
next
  fix rs r
  assume "fetchHuggingFace idMatch limit modelsRes spacesRes = Inr rs" "r \<in> set rs"
  from huggingface_flag [OF this] show "get_prop (hf_object r) (ascii ''isHot'') = Bool (hf_isHot r)"
    and "(\<exists>models m. modelsRes = Ok models \<and> m \<in> set models \<and> r = hf_model_item m
               \<and> (hf_isHot r \<longleftrightarrow> hf_likes7d r > 100))
           \<or> (\<exists>spaces s. spacesRes = Ok spaces \<and> s \<in> set spaces \<and> r = hf_space_item s
               \<and> (hf_isHot r \<longleftrightarrow> hf_likes7d r > 50))"
    by (rule conjunct1, rule conjunct2)
next
  fix rs p
  assume "fetchArxiv limit arxiv_now arxivRes = Inr rs" "p \<in> set rs"
  from arxiv_flag [OF this] show "get_prop (arxiv_object p) (ascii ''isNew'') = Bool (ax_isNew p)"
    and "\<exists>entries entry title link pub. arxivRes = Ok entries \<and> entry \<in> set entries
             \<and> entry_title entry = Txt title \<and> entry_link entry = Txt link
             \<and> entry_published entry = Some pub
             \<and> p = arxiv_paper_of arxiv_now title link pub entry
             \<and> (ax_isNew p \<longleftrightarrow> arxiv_hoursAgo arxiv_now pub \<le> 24)"
    by (rule conjunct1, rule conjunct2)
next
  fix rs p
  assume "fetchProductHunt stripTags limit ph_now phFetch = Inr rs" "p \<in> set rs"
  from producthunt_flag [OF this] show "get_prop (ph_object p) (ascii ''isNew'') = Bool (ph_isNew p)"
    and "\<exists>feedUrl items item. feedUrl \<in> set sources \<and> phFetch feedUrl = Ok items
             \<and> item \<in> set items \<and> p = ph_product_of stripTags ph_now item
             \<and> (ph_isNew p \<longleftrightarrow>
                  (case ph_hours ph_now (it_pubDate item) of
                     None \<Rightarrow> False | Some h \<Rightarrow> h \<le> 24))"
    by (rule conjunct1, rule conjunct2)
qed

theorem hot_flags_witness:
  "fetchGitHubTrending (\<lambda>t. True) (\<lambda>t. True) 6 (Ok [example_row]) example_search
     = Inr [example_repo, example_search_repo]
   \<and> get_prop (gh_object example_repo) (ascii ''isHot'') = Bool (gh_isHot example_repo)
   \<and> fetchHackerNews (\<lambda>t. True) 6 7200000 (Ok [example_slow_hit, example_hit])
       = Inr [example_story, example_slow_story]
   \<and> get_prop (hn_object example_slow_story) (ascii ''isHot'') = Bool (hn_isHot example_slow_story)
   \<and> fetchReddit 6 4104000 example_tie_reddit = Inr [example_tie_item]
   \<and> get_prop (reddit_object example_tie_item) (ascii ''isHot'') = Bool (rd_isHot example_tie_item)
   \<and> rd_isHot example_tie_item
   \<and> fetchHuggingFace (\<lambda>t. False) 6 (Ok [example_model]) (Ok [example_space])
       = Inr [example_model_item, example_space_item]
   \<and> get_prop (hf_object example_space_item) (ascii ''isHot'') = Bool (hf_isHot example_space_item)
   \<and> fetchArxiv 6 360000000 (Ok [example_entry_10h, example_entry_30h])
       = Inr [example_paper_10h, example_paper_30h]
   \<and> get_prop (arxiv_object example_paper_30h) (ascii ''isNew'') = Bool (ax_isNew example_paper_30h)
   \<and> ax_isNew example_paper_10h \<and> \<not> ax_isNew example_paper_30h
   \<and> fetchProductHunt (\<lambda>t. t) 6 10800000 (\<lambda>feedUrl. Ok [example_feed_item])
       = Inr [example_product]
   \<and> get_prop (ph_object example_product) (ascii ''isNew'') = Bool (ph_isNew example_product)"
proof -
  have gh: "fetchGitHubTrending (\<lambda>t. True) (\<lambda>t. True) 6 (Ok [example_row]) example_search
     = Inr [example_repo, example_search_repo]"
    by code_simp
  have hn: "fetchHackerNews (\<lambda>t. True) 6 7200000 (Ok [example_slow_hit, example_hit])
       = Inr [example_story, example_slow_story]"
    by code_simp
  have rd: "fetchReddit 6 4104000 example_tie_reddit = Inr [example_tie_item]"
    by code_simp
  have hf: "fetchHuggingFace (\<lambda>t. False) 6 (Ok [example_model]) (Ok [example_space])
       = Inr [example_model_item, example_space_item]"
    by code_simp
  have ax: "fetchArxiv 6 360000000 (Ok [example_entry_10h, example_entry_30h])
       = Inr [example_paper_10h, example_paper_30h]"
    by code_simp
  have ph: "fetchProductHunt (\<lambda>t. t) 6 10800000 (\<lambda>feedUrl. Ok [example_feed_item])
       = Inr [example_product]"
    by code_simp
  have flags: "rd_isHot example_tie_item" "ax_isNew example_paper_10h"
      "\<not> ax_isNew example_paper_30h"
    by (simp_all add: example_tie_item_def example_paper_10h_def example_paper_30h_def)
  note inst = hot_flags
    [where descMatch = "\<lambda>t. True" and nameMatch = "\<lambda>t. True" and limit = 6
       and trendingRes = "Ok [example_row]" and search = example_search
       and aiKeywords = "\<lambda>t. True" and hn_now = 7200000
       and hnRes = "Ok [example_slow_hit, example_hit]"
       and reddit_now = 4104000 and redditFetch = example_tie_reddit
       and idMatch = "\<lambda>t. False" and modelsRes = "Ok [example_model]"
       and spacesRes = "Ok [example_space]"
       and arxiv_now = 360000000 and arxivRes = "Ok [example_entry_10h, example_entry_30h]"
       and stripTags = "\<lambda>t. t" and ph_now = 10800000
       and phFetch = "\<lambda>feedUrl. Ok [example_feed_item]"]
  have "get_prop (gh_object example_repo) (ascii ''isHot'') = Bool (gh_isHot example_repo)"
    using inst [THEN conjunct1, rule_format, OF gh, of example_repo] by simp
  moreover have "get_prop (hn_object example_slow_story) (ascii ''isHot'')
      = Bool (hn_isHot example_slow_story)"
    using inst [THEN conjunct2, THEN conjunct1, rule_format, OF hn, of example_slow_story]
    by simp
  moreover have "get_prop (reddit_object example_tie_item) (ascii ''isHot'')
      = Bool (rd_isHot example_tie_item)"
    using inst [THEN conjunct2, THEN conjunct2, THEN conjunct1, rule_format, OF rd,
        of example_tie_item]
    by simp
  moreover have "get_prop (hf_object example_space_item) (ascii ''isHot'')
      = Bool (hf_isHot example_space_item)"
    using inst [THEN conjunct2, THEN conjunct2, THEN conjunct2, THEN conjunct1, rule_format,
        OF hf, of example_space_item]
    by simp
  moreover have "get_prop (arxiv_object example_paper_30h) (ascii ''isNew'')
      = Bool (ax_isNew example_paper_30h)"
    using inst [THEN conjunct2, THEN conjunct2, THEN conjunct2, THEN conjunct2,
        THEN conjunct1, rule_format, OF ax, of example_paper_30h]
    by simp
  moreover have "get_prop (ph_object example_product) (ascii ''isNew'') = Bool (ph_isNew example_product)"
    using inst [THEN conjunct2, THEN conjunct2, THEN conjunct2, THEN conjunct2,
        THEN conjunct2, rule_format, OF ph, of example_product]
    by simp
  ultimately show ?thesis using gh hn rd hf ax ph flags by simp
qed

section \<open>The embeds of a report\<close>

lemma subseq_optional:
  "subseq xs ys \<Longrightarrow> subseq ((if b then [x] else []) @ xs) (x # ys)"
  by (simp add: list_emb_Cons)

lemma send_loop_single:
  assumes "0 < length xs" and "length xs \<le> 10"
  shows "send_loop 0 xs = [xs]"
proof -
  have "send_loop 10 xs = []"
    using assms(2) by (subst send_loop.simps) simp
  then show ?thesis
    using assms by (subst send_loop.simps) simp
qed

lemma subseq_options:
  "subseq ([h] @ (if a then [x1] else []) @ (if b then [x2] else []) @ (if c then [x3] else [])
            @ (if d then [x4] else []) @ (if e then [x5] else []) @ (if f then [x6] else []))
     [h, x1, x2, x3, x4, x5, x6]"
proof -
  have 6: "subseq ((if f then [x6] else []) @ []) [x6]"
    by (rule subseq_optional) simp
  have 5: "subseq ((if e then [x5] else []) @ (if f then [x6] else []) @ []) [x5, x6]"
    by (rule subseq_optional) (rule 6)
  have 4: "subseq ((if d then [x4] else []) @ (if e then [x5] else [])
      @ (if f then [x6] else []) @ []) [x4, x5, x6]"
    by (rule subseq_optional) (rule 5)
  have 3: "subseq ((if c then [x3] else []) @ (if d then [x4] else [])
      @ (if e then [x5] else []) @ (if f then [x6] else []) @ []) [x3, x4, x5, x6]"
    by (rule subseq_optional) (rule 4)
  have 2: "subseq ((if b then [x2] else []) @ (if c then [x3] else [])
      @ (if d then [x4] else []) @ (if e then [x5] else []) @ (if f then [x6] else []) @ [])
      [x2, x3, x4, x5, x6]"
    by (rule subseq_optional) (rule 3)
  have 1: "subseq ((if a then [x1] else []) @ (if b then [x2] else [])
      @ (if c then [x3] else []) @ (if d then [x4] else []) @ (if e then [x5] else [])
      @ (if f then [x6] else []) @ []) [x1, x2, x3, x4, x5, x6]"
    by (rule subseq_optional) (rule 2)
  have "subseq (h # (if a then [x1] else []) @ (if b then [x2] else [])
      @ (if c then [x3] else []) @ (if d then [x4] else []) @ (if e then [x5] else [])
      @ (if f then [x6] else []) @ []) [h, x1, x2, x3, x4, x5, x6]"
    by (rule subseq_Cons2) (rule 1)
  then show ?thesis by (simp only: append_Cons append_Nil append_Nil2)
qed

lemma push_embed_Inl: "push_embed (Inl x) present e = Inl x"
  by (simp add: push_embed_def)

lemma push_embed_Inr:
  "push_embed (Inr es) present e =
     (if present \<longrightarrow> description_ok (e_description e)
      then Inr (es @ (if present then [e] else [])) else Inl ValidationError)"
  by (simp add: push_embed_def build_def)

lemma createReportEmbeds_eq:
  "createReportEmbeds fm r =
     (if description_ok (e_description (heading_embed r))
      \<and> (github r \<noteq> [] \<longrightarrow> description_ok (e_description (github_embed fm r)))
      \<and> (hackerNews r \<noteq> [] \<longrightarrow> description_ok (e_description (hn_embed fm r)))
      \<and> (reddit r \<noteq> [] \<longrightarrow> description_ok (e_description (reddit_embed fm r)))
      \<and> (arxiv r \<noteq> [] \<longrightarrow> description_ok (e_description (arxiv_embed r)))
      \<and> (huggingface r \<noteq> [] \<longrightarrow> description_ok (e_description (hf_embed fm r)))
      \<and> (productHunt r \<noteq> [] \<longrightarrow> description_ok (e_description (ph_embed r)))
      then Inr ([heading_embed r]
            @ (if github r \<noteq> [] then [github_embed fm r] else [])
            @ (if hackerNews r \<noteq> [] then [hn_embed fm r] else [])
            @ (if reddit r \<noteq> [] then [reddit_embed fm r] else [])
            @ (if arxiv r \<noteq> [] then [arxiv_embed r] else [])
            @ (if huggingface r \<noteq> [] then [hf_embed fm r] else [])
            @ (if productHunt r \<noteq> [] then [ph_embed r] else []))
      else Inl ValidationError)"
  by (simp add: createReportEmbeds_def push_embed_Inr push_embed_Inl)

lemma embeds_differ:
  "heading_embed r \<noteq> github_embed fm r" "heading_embed r \<noteq> hn_embed fm r"
  "heading_embed r \<noteq> reddit_embed fm r" "heading_embed r \<noteq> arxiv_embed r"
  "heading_embed r \<noteq> hf_embed fm r" "heading_embed r \<noteq> ph_embed r"
  "github_embed fm r \<noteq> hn_embed fm r" "github_embed fm r \<noteq> reddit_embed fm r"
  "github_embed fm r \<noteq> arxiv_embed r" "github_embed fm r \<noteq> hf_embed fm r"
  "github_embed fm r \<noteq> ph_embed r" "hn_embed fm r \<noteq> reddit_embed fm r"
  "hn_embed fm r \<noteq> arxiv_embed r" "hn_embed fm r \<noteq> hf_embed fm r"
  "hn_embed fm r \<noteq> ph_embed r" "reddit_embed fm r \<noteq> arxiv_embed r"
  "reddit_embed fm r \<noteq> hf_embed fm r" "reddit_embed fm r \<noteq> ph_embed r"
  "arxiv_embed r \<noteq> hf_embed fm r" "arxiv_embed r \<noteq> ph_embed r"
  "hf_embed fm r \<noteq> ph_embed r"
  by (simp_all add: heading_embed_def github_embed_def hn_embed_def reddit_embed_def
        arxiv_embed_def hf_embed_def ph_embed_def)

lemma embeds_shape:
  assumes "es = [heading_embed r]
            @ (if github r \<noteq> [] then [github_embed fm r] else [])
            @ (if hackerNews r \<noteq> [] then [hn_embed fm r] else [])
            @ (if reddit r \<noteq> [] then [reddit_embed fm r] else [])
            @ (if arxiv r \<noteq> [] then [arxiv_embed r] else [])
            @ (if huggingface r \<noteq> [] then [hf_embed fm r] else [])
            @ (if productHunt r \<noteq> [] then [ph_embed r] else [])"
  shows "1 \<le> length es \<and> length es \<le> 7
        \<and> (\<exists>rest. es = heading_embed r # rest)
        \<and> (github_embed fm r \<in> set es \<longleftrightarrow> github r \<noteq> [])
        \<and> (hn_embed fm r \<in> set es \<longleftrightarrow> hackerNews r \<noteq> [])
        \<and> (reddit_embed fm r \<in> set es \<longleftrightarrow> reddit r \<noteq> [])
        \<and> (arxiv_embed r \<in> set es \<longleftrightarrow> arxiv r \<noteq> [])
        \<and> (hf_embed fm r \<in> set es \<longleftrightarrow> huggingface r \<noteq> [])
        \<and> (ph_embed r \<in> set es \<longleftrightarrow> productHunt r \<noteq> [])
        \<and> subseq es
             [heading_embed r, github_embed fm r, hn_embed fm r, reddit_embed fm r,
              arxiv_embed r, hf_embed fm r, ph_embed r]
        \<and> send_loop 0 es = [es]"
proof -
  have len: "1 \<le> length es" "length es \<le> 7"
    unfolding assms by simp_all
  have first: "\<exists>rest. es = heading_embed r # rest"
    unfolding assms by simp
  have one: "send_loop 0 es = [es]"
    using len by (intro send_loop_single) auto
  have order: "subseq es
             [heading_embed r, github_embed fm r, hn_embed fm r, reddit_embed fm r,
              arxiv_embed r, hf_embed fm r, ph_embed r]"
    unfolding assms by (rule subseq_options)
  have present:
    "github_embed fm r \<in> set es \<longleftrightarrow> github r \<noteq> []"
    "hn_embed fm r \<in> set es \<longleftrightarrow> hackerNews r \<noteq> []"
    "reddit_embed fm r \<in> set es \<longleftrightarrow> reddit r \<noteq> []"
    "arxiv_embed r \<in> set es \<longleftrightarrow> arxiv r \<noteq> []"
    "hf_embed fm r \<in> set es \<longleftrightarrow> huggingface r \<noteq> []"
    "ph_embed r \<in> set es \<longleftrightarrow> productHunt r \<noteq> []"
    unfolding assms by (simp_all add: embeds_differ embeds_differ [symmetric])
  show ?thesis
    using len first present order one by (intro conjI) assumption+
qed

lemma pushReport_eq:
  assumes "generateTrendReport pats w = Inr r"
  shows "pushReport fm send pats w =
     (case createReportEmbeds fm r of
        Inl e \<Rightarrow> False | Inr es \<Rightarrow> send_each send (send_loop 0 es))"
  by (simp add: pushReport_def assms)

lemma long_description:
  "\<not> description_ok (e_description (hn_embed example_formats example_long_report))"
  by (simp add: description_ok_def hn_embed_def example_long_report_def hn_line_def
        template_def enumerate_eq_zip)

text \<open>
  C9, as the code has it. \<open>createReportEmbeds\<close> returns exactly when each description
  that it hands to \<open>setDescription\<close>, the heading's and that of every source with a
  non-empty list, has between 1 and 4096 code units; otherwise the builder throws.
  Whenever it returns, it returns between 1 and 7 embeds: the first is the heading, the
  embed of a source is among them exactly when the list of that source is not empty,
  and they stand in the order heading, GitHub, Hacker News, Reddit, arXiv, Hugging Face,
  Product Hunt. The loop of \<open>pushReport\<close> then makes one message of all of them, and
  \<open>pushReport\<close> sends that one message; when the builder throws, \<open>pushReport\<close> sends
  nothing and returns \<open>false\<close>.
\<close>

theorem createReportEmbeds_shape:
  "((\<exists>es. createReportEmbeds fm r = Inr es) \<longleftrightarrow>
      description_ok (e_description (heading_embed r))
      \<and> (github r \<noteq> [] \<longrightarrow> description_ok (e_description (github_embed fm r)))
      \<and> (hackerNews r \<noteq> [] \<longrightarrow> description_ok (e_description (hn_embed fm r)))
      \<and> (reddit r \<noteq> [] \<longrightarrow> description_ok (e_description (reddit_embed fm r)))
      \<and> (arxiv r \<noteq> [] \<longrightarrow> description_ok (e_description (arxiv_embed r)))
      \<and> (huggingface r \<noteq> [] \<longrightarrow> description_ok (e_description (hf_embed fm r)))
      \<and> (productHunt r \<noteq> [] \<longrightarrow> description_ok (e_description (ph_embed r))))
   \<and> ((\<nexists>es. createReportEmbeds fm r = Inr es) \<longrightarrow>
        createReportEmbeds fm r = Inl ValidationError)
   \<and> (\<forall>es. createReportEmbeds fm r = Inr es \<longrightarrow>
        1 \<le> length es \<and> length es \<le> 7
        \<and> (\<exists>rest. es = heading_embed r # rest)
        \<and> (github_embed fm r \<in> set es \<longleftrightarrow> github r \<noteq> [])
        \<and> (hn_embed fm r \<in> set es \<longleftrightarrow> hackerNews r \<noteq> [])
        \<and> (reddit_embed fm r \<in> set es \<longleftrightarrow> reddit r \<noteq> [])
        \<and> (arxiv_embed r \<in> set es \<longleftrightarrow> arxiv r \<noteq> [])
        \<and> (hf_embed fm r \<in> set es \<longleftrightarrow> huggingface r \<noteq> [])
        \<and> (ph_embed r \<in> set es \<longleftrightarrow> productHunt r \<noteq> [])
        \<and> subseq es
             [heading_embed r, github_embed fm r, hn_embed fm r, reddit_embed fm r,
              arxiv_embed r, hf_embed fm r, ph_embed r]
        \<and> send_loop 0 es = [es])
   \<and> (\<forall>send pats w es. generateTrendReport pats w = Inr r \<longrightarrow>
        createReportEmbeds fm r = Inr es \<longrightarrow> pushReport fm send pats w = send es)
   \<and> (\<forall>send pats w. generateTrendReport pats w = Inr r \<longrightarrow>
        createReportEmbeds fm r = Inl ValidationError \<longrightarrow> \<not> pushReport fm send pats w)"
proof (intro conjI allI impI)
  show "(\<exists>es. createReportEmbeds fm r = Inr es) \<longleftrightarrow>
      description_ok (e_description (heading_embed r))
      \<and> (github r \<noteq> [] \<longrightarrow> description_ok (e_description (github_embed fm r)))
      \<and> (hackerNews r \<noteq> [] \<longrightarrow> description_ok (e_description (hn_embed fm r)))
      \<and> (reddit r \<noteq> [] \<longrightarrow> description_ok (e_description (reddit_embed fm r)))
      \<and> (arxiv r \<noteq> [] \<longrightarrow> description_ok (e_description (arxiv_embed r)))
      \<and> (huggingface r \<noteq> [] \<longrightarrow> description_ok (e_description (hf_embed fm r)))
      \<and> (productHunt r \<noteq> [] \<longrightarrow> description_ok (e_description (ph_embed r)))"
    by (subst createReportEmbeds_eq) (simp only: if_split_eq1 sum.simps ex_simps simp_thms)
next
  assume "\<nexists>es. createReportEmbeds fm r = Inr es"
  then show "createReportEmbeds fm r = Inl ValidationError"
    by (subst (asm) createReportEmbeds_eq, subst createReportEmbeds_eq)
       (simp split: if_splits)
next
  fix es
  assume es: "createReportEmbeds fm r = Inr es"
  then have "es = [heading_embed r]
            @ (if github r \<noteq> [] then [github_embed fm r] else [])
            @ (if hackerNews r \<noteq> [] then [hn_embed fm r] else [])
            @ (if reddit r \<noteq> [] then [reddit_embed fm r] else [])
            @ (if arxiv r \<noteq> [] then [arxiv_embed r] else [])
            @ (if huggingface r \<noteq> [] then [hf_embed fm r] else [])
            @ (if productHunt r \<noteq> [] then [ph_embed r] else [])"
    by (subst (asm) createReportEmbeds_eq) (simp split: if_splits)
  from embeds_shape [OF this] show "1 \<le> length es" "length es \<le> 7"
    "\<exists>rest. es = heading_embed r # rest"
    "github_embed fm r \<in> set es \<longleftrightarrow> github r \<noteq> []"
    "hn_embed fm r \<in> set es \<longleftrightarrow> hackerNews r \<noteq> []"
    "reddit_embed fm r \<in> set es \<longleftrightarrow> reddit r \<noteq> []"
    "arxiv_embed r \<in> set es \<longleftrightarrow> arxiv r \<noteq> []"
    "hf_embed fm r \<in> set es \<longleftrightarrow> huggingface r \<noteq> []"
    "ph_embed r \<in> set es \<longleftrightarrow> productHunt r \<noteq> []"
    "subseq es
             [heading_embed r, github_embed fm r, hn_embed fm r, reddit_embed fm r,
              arxiv_embed r, hf_embed fm r, ph_embed r]"
    "send_loop 0 es = [es]"
    by blast+
next
  fix send :: "embed list \<Rightarrow> bool" and pats w es
  assume g: "generateTrendReport pats w = Inr r" and es: "createReportEmbeds fm r = Inr es"
  from es have "es = [heading_embed r]
            @ (if github r \<noteq> [] then [github_embed fm r] else [])
            @ (if hackerNews r \<noteq> [] then [hn_embed fm r] else [])
            @ (if reddit r \<noteq> [] then [reddit_embed fm r] else [])
            @ (if arxiv r \<noteq> [] then [arxiv_embed r] else [])
            @ (if huggingface r \<noteq> [] then [hf_embed fm r] else [])
            @ (if productHunt r \<noteq> [] then [ph_embed r] else [])"
    by (subst (asm) createReportEmbeds_eq) (simp split: if_splits)
  from embeds_shape [OF this] have "send_loop 0 es = [es]" by blast
  then show "pushReport fm send pats w = send es"
    by (simp add: pushReport_eq [OF g] es)
next
  fix send :: "embed list \<Rightarrow> bool" and pats w
  assume g: "generateTrendReport pats w = Inr r"
    and "createReportEmbeds fm r = Inl ValidationError"
  then show "\<not> pushReport fm send pats w"
    by (simp add: pushReport_eq [OF g])
qed

theorem createReportEmbeds_shape_witness:
  "createReportEmbeds example_formats example_report
     = Inr [heading_embed example_report, reddit_embed example_formats example_report,
            arxiv_embed example_report]
   \<and> length [heading_embed example_report, reddit_embed example_formats example_report,
            arxiv_embed example_report] \<le> 7
   \<and> reddit_embed example_formats example_report
       \<in> set [heading_embed example_report, reddit_embed example_formats example_report,
            arxiv_embed example_report]
   \<and> hn_embed example_formats example_report
       \<notin> set [heading_embed example_report, reddit_embed example_formats example_report,
            arxiv_embed example_report]
   \<and> send_loop 0 [heading_embed example_report, reddit_embed example_formats example_report,
            arxiv_embed example_report]
       = [[heading_embed example_report, reddit_embed example_formats example_report,
            arxiv_embed example_report]]
   \<and> generateTrendReport example_patterns example_world = Inr example_report
   \<and> pushReport example_formats (\<lambda>m. length m = 3) example_patterns example_world"
proof -
  let ?es = "[heading_embed example_report, reddit_embed example_formats example_report,
            arxiv_embed example_report]"
  have run: "createReportEmbeds example_formats example_report = Inr ?es"
    by code_simp
  have gen: "generateTrendReport example_patterns example_world = Inr example_report"
    by code_simp
  have lists: "reddit example_report \<noteq> []" "hackerNews example_report = []"
    by (simp_all add: example_report_def)
  note inst = createReportEmbeds_shape [of example_formats example_report]
  note shape = inst [THEN conjunct2, THEN conjunct2, THEN conjunct1, rule_format, OF run]
  note push = inst [THEN conjunct2, THEN conjunct2, THEN conjunct2, THEN conjunct1,
                    rule_format, OF gen run, of "\<lambda>m. length m = 3"]
  have "pushReport example_formats (\<lambda>m. length m = 3) example_patterns example_world"
    unfolding push by simp
  with shape lists run gen show ?thesis
    by simp
qed

theorem createReportEmbeds_counterexample:
  "createReportEmbeds example_formats example_long_report = Inl ValidationError"
proof -
  have "hackerNews example_long_report \<noteq> []"
    by (simp add: example_long_report_def)
  with long_description show ?thesis
    by (subst createReportEmbeds_eq) simp
qed

section \<open>Subscribing and unsubscribing\<close>

lemma handleMessage_subscribe:
  "cmd = (ascii ''!subscribe'') \<or> cmd = zh_subscribe \<Longrightarrow>
     handleMessage message cmd subscribers
       = (Subscribed,
          AList.update (msg_author_id message)
            \<lparr> channelId = msg_channel_id message, enabled = True \<rparr> subscribers)"
proof (erule disjE)
  assume "cmd = (ascii ''!subscribe'')"
  then show ?thesis
    by (simp add: handleMessage_def zh_help_def zh_report_def zh_trend_def ascii_def)
next
  assume "cmd = zh_subscribe"
  then show ?thesis
    by (simp add: handleMessage_def zh_subscribe_def zh_help_def zh_report_def zh_trend_def
          ascii_def)
qed

lemma handleMessage_unsubscribe:
  "cmd = (ascii ''!unsubscribe'') \<or> cmd = zh_unsubscribe \<Longrightarrow>
     handleMessage message cmd subscribers
       = (Unsubscribed, AList.delete (msg_author_id message) subscribers)"
proof (erule disjE)
  assume "cmd = (ascii ''!unsubscribe'')"
  then show ?thesis
    by (simp add: handleMessage_def zh_subscribe_def zh_help_def zh_report_def zh_trend_def
          ascii_def)
next
  assume "cmd = zh_unsubscribe"
  then show ?thesis
    by (simp add: handleMessage_def zh_unsubscribe_def zh_subscribe_def zh_help_def
          zh_report_def zh_trend_def ascii_def)
qed

text \<open>
  C10. The subscribe command leaves the subscriber map with the entry of the author of
  the message set to the channel of the message and \<open>enabled = true\<close>, whether the author
  had an entry or not, and with the entry of every other user as it was; the unsubscribe
  command leaves it without an entry of the author and with the entry of every other
  user as it was.
\<close>

theorem subscribe_unsubscribe_frame:
  "(cmd = (ascii ''!subscribe'') \<or> cmd = zh_subscribe \<longrightarrow>
      map_of (snd (handleMessage message cmd subscribers)) (msg_author_id message)
        = Some \<lparr> channelId = msg_channel_id message, enabled = True \<rparr>
      \<and> (\<forall>u. u \<noteq> msg_author_id message \<longrightarrow>
            map_of (snd (handleMessage message cmd subscribers)) u = map_of subscribers u))
   \<and> (cmd = (ascii ''!unsubscribe'') \<or> cmd = zh_unsubscribe \<longrightarrow>
      map_of (snd (handleMessage message cmd subscribers)) (msg_author_id message) = None
      \<and> (\<forall>u. u \<noteq> msg_author_id message \<longrightarrow>
            map_of (snd (handleMessage message cmd subscribers)) u = map_of subscribers u))"
proof (intro conjI impI allI)
  assume c: "cmd = (ascii ''!subscribe'') \<or> cmd = zh_subscribe"
  show "map_of (snd (handleMessage message cmd subscribers)) (msg_author_id message)
        = Some \<lparr> channelId = msg_channel_id message, enabled = True \<rparr>"
    by (simp add: handleMessage_subscribe [OF c] update_conv')
  fix u
  assume "u \<noteq> msg_author_id message"
  then show "map_of (snd (handleMessage message cmd subscribers)) u = map_of subscribers u"
    by (simp add: handleMessage_subscribe [OF c] update_conv')
next
  assume c: "cmd = (ascii ''!unsubscribe'') \<or> cmd = zh_unsubscribe"
  show "map_of (snd (handleMessage message cmd subscribers)) (msg_author_id message) = None"
    by (simp add: handleMessage_unsubscribe [OF c] delete_conv')
  fix u
  assume "u \<noteq> msg_author_id message"
  then show "map_of (snd (handleMessage message cmd subscribers)) u = map_of subscribers u"
    by (simp add: handleMessage_unsubscribe [OF c] delete_conv')
qed

theorem subscribe_unsubscribe_frame_witness:
  "map_of (snd (handleMessage example_message (ascii ''!subscribe'') example_subscribers))
       (msg_author_id example_message)
     = Some \<lparr> channelId = msg_channel_id example_message, enabled = True \<rparr>
   \<and> map_of (snd (handleMessage example_message (ascii ''!subscribe'') example_subscribers)) (ascii ''u2'')
       = map_of example_subscribers (ascii ''u2'')
   \<and> map_of (snd (handleMessage example_message (ascii ''!unsubscribe'') example_subscribers))
       (msg_author_id example_message)
       = None
   \<and> map_of (snd (handleMessage example_message (ascii ''!unsubscribe'') example_subscribers)) (ascii ''u2'')
       = map_of example_subscribers (ascii ''u2'')
   \<and> msg_author_id example_message = (ascii ''u1'')
   \<and> map_of example_subscribers (ascii ''u1'') = Some \<lparr> channelId = (ascii ''c0''), enabled = True \<rparr>
   \<and> map_of example_subscribers (ascii ''u2'') = Some \<lparr> channelId = (ascii ''c2''), enabled = True \<rparr>"
proof -
  have a: "msg_author_id example_message = (ascii ''u1'')"
    by (simp add: example_message_def ascii_def)
  have other: "(ascii ''u2'') \<noteq> msg_author_id example_message"
    by (simp add: example_message_def ascii_def)
  have subs: "map_of example_subscribers (ascii ''u1'') = Some \<lparr> channelId = (ascii ''c0''), enabled = True \<rparr>"
      "map_of example_subscribers (ascii ''u2'') = Some \<lparr> channelId = (ascii ''c2''), enabled = True \<rparr>"
    by (simp_all add: example_subscribers_def ascii_def)
  have c1: "(ascii ''!subscribe'') = (ascii ''!subscribe'') \<or> (ascii ''!subscribe'') = zh_subscribe" by simp
  have c2: "(ascii ''!unsubscribe'') = (ascii ''!unsubscribe'') \<or> (ascii ''!unsubscribe'') = zh_unsubscribe" by simp
  note s = subscribe_unsubscribe_frame
    [of "ascii ''!subscribe''" example_message example_subscribers, THEN conjunct1, rule_format, OF c1]
  note u = subscribe_unsubscribe_frame
    [of "ascii ''!unsubscribe''" example_message example_subscribers, THEN conjunct2, rule_format, OF c2]
  from s [THEN conjunct1] s [THEN conjunct2, rule_format, OF other]
    u [THEN conjunct1] u [THEN conjunct2, rule_format, OF other] a subs
  show ?thesis by (intro conjI) assumption+
qed


section \<open>The set of pushed slots\<close>

lemma fold_set_delete: "fold set_delete ks s = filter (\<lambda>x. x \<notin> set ks) s"
proof (induction ks arbitrary: s)
  case Nil
  show ?case by simp
next
  case (Cons k ks)
  have "removeAll k s = filter (\<lambda>x. x \<noteq> k) s"
    by (induction s) auto
  with Cons show ?case by (auto simp: set_delete_def intro: filter_cong)
qed

lemma filter_not_in_take:
  "distinct s \<Longrightarrow> filter (\<lambda>x. x \<notin> set (take n s)) s = drop n s"
proof -
  assume d: "distinct s"
  have s: "s = take n s @ drop n s" by simp
  from d have "distinct (take n s @ drop n s)" by simp
  then have disj: "set (take n s) \<inter> set (drop n s) = {}" by (simp only: distinct_append)
  have "filter (\<lambda>x. x \<notin> set (take n s)) (take n s) = []" by simp
  moreover have "filter (\<lambda>x. x \<notin> set (take n s)) (drop n s) = drop n s"
    using disj by (auto simp: filter_id_conv)
  ultimately have "filter (\<lambda>x. x \<notin> set (take n s)) (take n s @ drop n s) = drop n s"
    by (simp only: filter_append append_Nil)
  then show ?thesis by simp
qed

lemma trim_slots_keeps_last:
  "distinct s \<Longrightarrow> trim_slots s = drop (length s - 10) s"
  by (simp add: trim_slots_def fold_set_delete filter_not_in_take)

lemma schedule_loop_cases:
  "schedule_loop sched day hour minute s = (False, s)
   \<or> ((day, hour) \<notin> set s \<and> (hour, minute) \<in> set sched
       \<and> schedule_loop sched day hour minute s = (True, trim_slots (s @ [(day, hour)])))"
  by (induction sched) (auto simp: set_has_def set_add_def Let_def)

lemma checkScheduledPush_cases:
  "checkScheduledPush tz w s = (False, s)
   \<or> ((dateStr_day tz w, wall_hour w) \<notin> set s
       \<and> (wall_hour w, wall_minute w) \<in> set PUSH_SCHEDULE
       \<and> checkScheduledPush tz w s = (True, trim_slots (s @ [(dateStr_day tz w, wall_hour w)])))"
  unfolding checkScheduledPush_def by (rule schedule_loop_cases)

lemma checkScheduledPush_bounded:
  assumes "distinct s" and "length s \<le> 10"
  shows "distinct (snd (checkScheduledPush tz w s)) \<and> length (snd (checkScheduledPush tz w s)) \<le> 10"
proof -
  from checkScheduledPush_cases [of tz w s] show ?thesis
  proof
    assume "checkScheduledPush tz w s = (False, s)"
    with assms show ?thesis by simp
  next
    assume a: "(dateStr_day tz w, wall_hour w) \<notin> set s
       \<and> (wall_hour w, wall_minute w) \<in> set PUSH_SCHEDULE
       \<and> checkScheduledPush tz w s = (True, trim_slots (s @ [(dateStr_day tz w, wall_hour w)]))"
    with assms have "distinct (s @ [(dateStr_day tz w, wall_hour w)])" by simp
    then have "trim_slots (s @ [(dateStr_day tz w, wall_hour w)])
        = drop (length (s @ [(dateStr_day tz w, wall_hour w)]) - 10)
            (s @ [(dateStr_day tz w, wall_hour w)])"
      and "distinct (drop (length (s @ [(dateStr_day tz w, wall_hour w)]) - 10)
            (s @ [(dateStr_day tz w, wall_hour w)]))"
      by (rule trim_slots_keeps_last, rule distinct_drop)
    with a show ?thesis by simp
  qed
qed

lemma slots_after_bounded:
  "distinct s \<Longrightarrow> length s \<le> 10 \<Longrightarrow>
     distinct (slots_after tz s ws) \<and> length (slots_after tz s ws) \<le> 10"
proof (induction ws arbitrary: s)
  case Nil
  then show ?case by simp
next
  case (Cons w ws)
  from checkScheduledPush_bounded [OF Cons.prems, of tz w] Cons.IH show ?case by simp
qed

lemma checkScheduledPush_trim:
  assumes "distinct s" and "fst (checkScheduledPush tz w s)"
  shows "snd (checkScheduledPush tz w s)
         = drop (length (s @ [(dateStr_day tz w, wall_hour w)]) - 10)
             (s @ [(dateStr_day tz w, wall_hour w)])"
proof -
  from checkScheduledPush_cases [of tz w s] assms(2)
  have a: "(dateStr_day tz w, wall_hour w) \<notin> set s"
    "checkScheduledPush tz w s = (True, trim_slots (s @ [(dateStr_day tz w, wall_hour w)]))"
    by auto
  with assms(1) have "distinct (s @ [(dateStr_day tz w, wall_hour w)])" by simp
  from trim_slots_keeps_last [OF this] a(2) show ?thesis by simp
qed

text \<open>
  C8. Starting from the empty set, after any number of calls of \<open>checkScheduledPush\<close>,
  whatever the clock reads at each, \<open>pushedSlots\<close> holds at most 10 keys, each once; and a
  call that pushes leaves the last 10 of the keys it had with the new key added at the
  end, in the order of their insertion.
\<close>

theorem pushedSlots_bounded:
  "length (slots_after tz [] ws) \<le> 10 \<and> distinct (slots_after tz [] ws)
   \<and> (fst (checkScheduledPush tz w (slots_after tz [] ws)) \<longrightarrow>
        snd (checkScheduledPush tz w (slots_after tz [] ws))
          = drop (length (slots_after tz [] ws @ [(dateStr_day tz w, wall_hour w)]) - 10)
              (slots_after tz [] ws @ [(dateStr_day tz w, wall_hour w)]))"
proof -
  have inv: "distinct (slots_after tz [] ws)" "length (slots_after tz [] ws) \<le> 10"
    using slots_after_bounded [of "[]" tz ws] by simp_all
  with checkScheduledPush_trim [OF inv(1), of tz w] show ?thesis
    by (intro conjI impI) assumption+
qed

theorem pushedSlots_bounded_witness:
  "slots_after 0 [] example_mornings
     = [(0, 8), (1, 8), (2, 8), (3, 8), (4, 8), (5, 8), (6, 8), (7, 8), (8, 8), (9, 8)]
   \<and> fst (checkScheduledPush 0 14880 (slots_after 0 [] example_mornings))
   \<and> snd (checkScheduledPush 0 14880 (slots_after 0 [] example_mornings))
       = [(1, 8), (2, 8), (3, 8), (4, 8), (5, 8), (6, 8), (7, 8), (8, 8), (9, 8), (10, 8)]
   \<and> length (slots_after 0 [] example_mornings) \<le> 10"
proof -
  have before: "slots_after 0 [] example_mornings
     = [(0, 8), (1, 8), (2, 8), (3, 8), (4, 8), (5, 8), (6, 8), (7, 8), (8, 8), (9, 8)]"
    by code_simp
  have push: "fst (checkScheduledPush 0 14880 (slots_after 0 [] example_mornings))"
    by code_simp
  have last10: "drop (length (slots_after 0 [] example_mornings
                    @ [(dateStr_day 0 14880, wall_hour 14880)]) - 10)
              (slots_after 0 [] example_mornings @ [(dateStr_day 0 14880, wall_hour 14880)])
     = [(1, 8), (2, 8), (3, 8), (4, 8), (5, 8), (6, 8), (7, 8), (8, 8), (9, 8), (10, 8)]"
    by code_simp
  note inst = pushedSlots_bounded [of 0 example_mornings 14880]
  from inst [THEN conjunct2, THEN conjunct2, rule_format, OF push] last10
  have after: "snd (checkScheduledPush 0 14880 (slots_after 0 [] example_mornings))
       = [(1, 8), (2, 8), (3, 8), (4, 8), (5, 8), (6, 8), (7, 8), (8, 8), (9, 8), (10, 8)]"
    by (rule trans)
  from before push after inst [THEN conjunct1] show ?thesis
    by (intro conjI) assumption+
qed

section \<open>One push for each slot\<close>

lemma slots_after_append:
  "slots_after tz s (xs @ ys) = slots_after tz (slots_after tz s xs) ys"
  by (induction xs arbitrary: s) simp_all

lemma length_pushes: "length (pushes tz s ws) = length ws"
  by (induction ws arbitrary: s) simp_all

lemma pushes_nth:
  "k < length ws \<Longrightarrow>
     pushes tz s ws ! k = fst (checkScheduledPush tz (ws ! k) (slots_after tz s (take k ws)))"
proof (induction ws arbitrary: s k)
  case Nil
  then show ?case by simp
next
  case (Cons w ws)
  then show ?case by (cases k) simp_all
qed

lemma push_at_schedule:
  "fst (checkScheduledPush tz w s) \<Longrightarrow>
     wall_minute w = 0 \<and> (wall_hour w = 8 \<or> wall_hour w = 20)"
  using checkScheduledPush_cases [of tz w s] by (auto simp: PUSH_SCHEDULE_def)

lemma push_records_key:
  assumes "distinct s" and "fst (checkScheduledPush tz w s)"
  shows "(dateStr_day tz w, wall_hour w) \<in> set (snd (checkScheduledPush tz w s))"
proof -
  have "drop (length (s @ [(dateStr_day tz w, wall_hour w)]) - 10)
          (s @ [(dateStr_day tz w, wall_hour w)])
        = drop (length s + 1 - 10) s @ [(dateStr_day tz w, wall_hour w)]"
    by simp
  with checkScheduledPush_trim [OF assms] show ?thesis by simp
qed

lemma known_key_no_push:
  "(dateStr_day tz w, wall_hour w) \<in> set s \<Longrightarrow> checkScheduledPush tz w s = (False, s)"
  using checkScheduledPush_cases [of tz w s] by auto

lemma same_time_no_change:
  "(dateStr_day tz w, wall_hour w) \<in> set s \<Longrightarrow> \<forall>m \<in> set ms. m = w \<Longrightarrow>
     slots_after tz s ms = s"
  by (induction ms) (simp_all add: known_key_no_push)

lemma same_minute:
  assumes "wall_minute a = 0" and "wall_minute b = 0" and "a div 60 = b div 60"
  shows "a = b"
proof -
  from assms have m: "a mod 60 = b mod 60" by (simp only: wall_minute_def)
  have "a = a div 60 * 60 + a mod 60" by (rule div_mult_mod_eq [symmetric])
  also have "\<dots> = b div 60 * 60 + b mod 60" by (simp only: m assms(3))
  also have "\<dots> = b" by (rule div_mult_mod_eq)
  finally show ?thesis .
qed

lemma no_second_push:
  assumes "sorted ws" and "i < j" and "j < length ws"
    and "pushes tz [] ws ! i" and "ws ! i div 60 = ws ! j div 60"
  shows "\<not> pushes tz [] ws ! j"
proof
  assume pj: "pushes tz [] ws ! j"
  let ?Si = "slots_after tz [] (take i ws)"
  let ?key = "(dateStr_day tz (ws ! i), wall_hour (ws ! i))"
  from assms have i: "i < length ws" by simp
  from assms(4) i have pi: "fst (checkScheduledPush tz (ws ! i) ?Si)"
    by (simp add: pushes_nth)
  from pj assms(3) have pj': "fst (checkScheduledPush tz (ws ! j) (slots_after tz [] (take j ws)))"
    by (simp add: pushes_nth)
  have mi: "wall_minute (ws ! i) = 0" using push_at_schedule [OF pi] by (rule conjunct1)
  have mj: "wall_minute (ws ! j) = 0" using push_at_schedule [OF pj'] by (rule conjunct1)
  have eq: "ws ! i = ws ! j" by (rule same_minute [OF mi mj assms(5)])
  have dist: "distinct ?Si"
    using slots_after_bounded [of "[]" tz "take i ws"] by simp
  have key: "?key \<in> set (snd (checkScheduledPush tz (ws ! i) ?Si))"
    by (rule push_records_key [OF dist pi])
  have split: "take j ws = take i ws @ ws ! i # drop (Suc i) (take j ws)"
  proof -
    have "i < length (take j ws)" using assms(2,3) by simp
    then have a: "take j ws = take i (take j ws) @ take j ws ! i # drop (Suc i) (take j ws)"
      by (rule id_take_nth_drop)
    have b: "take i (take j ws) = take i ws" using assms(2) by (simp add: min_def)
    have c: "take j ws ! i = ws ! i" using assms(2) by simp
    from a show ?thesis unfolding b c .
  qed
  have mid: "\<forall>m \<in> set (drop (Suc i) (take j ws)). m = ws ! i"
  proof
    fix m
    assume "m \<in> set (drop (Suc i) (take j ws))"
    then obtain k where k: "k < length (drop (Suc i) (take j ws))"
        "m = drop (Suc i) (take j ws) ! k"
      by (auto simp: in_set_conv_nth)
    then have kj: "Suc i + k < j" using assms(3) by simp
    with k have m: "m = ws ! (Suc i + k)" using assms(3) by simp
    have "ws ! i \<le> ws ! (Suc i + k)"
      using assms(1,3) kj by (intro sorted_nth_mono) simp_all
    moreover have "ws ! (Suc i + k) \<le> ws ! j"
      using assms(1,3) kj by (intro sorted_nth_mono) simp_all
    ultimately show "m = ws ! i" using m eq by simp
  qed
  have "slots_after tz [] (take i ws @ ws ! i # drop (Suc i) (take j ws))
        = slots_after tz (snd (checkScheduledPush tz (ws ! i) ?Si)) (drop (Suc i) (take j ws))"
    by (simp add: slots_after_append)
  with split have "slots_after tz [] (take j ws)
        = slots_after tz (snd (checkScheduledPush tz (ws ! i) ?Si)) (drop (Suc i) (take j ws))"
    by (rule ssubst)
  also have "\<dots> = snd (checkScheduledPush tz (ws ! i) ?Si)"
    by (rule same_time_no_change [OF key mid])
  finally have "?key \<in> set (slots_after tz [] (take j ws))" using key by simp
  then have "checkScheduledPush tz (ws ! j) (slots_after tz [] (take j ws))
      = (False, slots_after tz [] (take j ws))"
    using eq by (intro known_key_no_push) simp
  with pj' show False by simp
qed

text \<open>
  C5. Let the calls of \<open>checkScheduledPush\<close> read the clock values \<open>ws\<close> (the wall clock of
  Taipei in whole minutes) in the order of the calls, the clock never running backwards,
  starting from the empty set. Once a call has pushed, no later call in the same date
  and hour pushes; and every call that pushes reads the minute 0 of the hour 8 or of the
  hour 20.
\<close>

theorem scheduled_push_once:
  "(sorted ws \<longrightarrow>
      (\<forall>i j. i < j \<longrightarrow> j < length ws \<longrightarrow> pushes tz [] ws ! i \<longrightarrow>
         ws ! i div 60 = ws ! j div 60 \<longrightarrow> \<not> pushes tz [] ws ! j))
   \<and> (\<forall>k. k < length ws \<longrightarrow> pushes tz [] ws ! k \<longrightarrow>
         wall_minute (ws ! k) = 0 \<and> (wall_hour (ws ! k) = 8 \<or> wall_hour (ws ! k) = 20))"
proof (intro conjI impI allI)
  fix i j
  assume "sorted ws" "i < j" "j < length ws" "pushes tz [] ws ! i"
    "ws ! i div 60 = ws ! j div 60"
  then show "\<not> pushes tz [] ws ! j" by (rule no_second_push)
next
  fix k
  assume "k < length ws" "pushes tz [] ws ! k"
  then have "fst (checkScheduledPush tz (ws ! k) (slots_after tz [] (take k ws)))"
    by (simp add: pushes_nth)
  from push_at_schedule [OF this]
  show "wall_minute (ws ! k) = 0" and "wall_hour (ws ! k) = 8 \<or> wall_hour (ws ! k) = 20"
    by (rule conjunct1, rule conjunct2)
qed

theorem scheduled_push_once_witness:
  "sorted example_day
   \<and> pushes 480 [] example_day = [True, False, False, True]
   \<and> pushes 480 [] example_day ! 0
   \<and> example_day ! 0 div 60 = example_day ! 1 div 60
   \<and> \<not> pushes 480 [] example_day ! 1
   \<and> wall_minute (example_day ! 3) = 0 \<and> wall_hour (example_day ! 3) = 20"
proof -
  have s: "sorted example_day" by code_simp
  have run: "pushes 480 [] example_day = [True, False, False, True]" by code_simp
  have p0: "pushes 480 [] example_day ! 0" by (simp add: run)
  have p3: "pushes 480 [] example_day ! 3" by (simp add: run)
  have same: "example_day ! 0 div 60 = example_day ! 1 div 60"
    by (simp add: example_day_def)
  have len: "(1::nat) < length example_day" "(3::nat) < length example_day"
    by (simp_all add: example_day_def)
  have h: "wall_hour (example_day ! 3) = 20" by code_simp
  note inst = scheduled_push_once [of example_day 480]
  have once: "\<not> pushes 480 [] example_day ! 1"
    using inst [THEN conjunct1, rule_format, OF s _ len(1) p0 same] by simp
  have "wall_minute (example_day ! 3) = 0"
    using inst [THEN conjunct2, rule_format, OF len(2) p3] by (rule conjunct1)
  with s run p0 same once h show ?thesis by (intro conjI) assumption+
qed


section \<open>Duplicate events\<close>

lemma distinct_snd_unique:
  "distinct (map snd xs) \<Longrightarrow> (a, k) \<in> set xs \<Longrightarrow> (b, k) \<in> set xs \<Longrightarrow> a = b"
  by (induction xs) (auto simp: image_iff)

lemma dedup_inv_run_timers:
  assumes "dedup_inv st"
  shows "dedup_inv (run_timers t st)"
proof -
  let ?due = "filter (\<lambda>(d, k). d \<le> t) (timers st)"
  let ?rest = "filter (\<lambda>(d, k). \<not> d \<le> t) (timers st)"
  from assms have eq: "set (processedMessages st) = snd ` set (timers st)"
    and dist: "distinct (map snd (timers st))"
    by (simp_all add: dedup_inv_def)
  have disj: "snd ` set ?rest \<inter> snd ` set ?due = {}"
  proof (rule ccontr)
    assume "snd ` set ?rest \<inter> snd ` set ?due \<noteq> {}"
    then obtain d1 d2 k where a: "(d1, k) \<in> set (timers st)" "\<not> d1 \<le> t"
        and b: "(d2, k) \<in> set (timers st)" "d2 \<le> t"
      by auto
    from dist a(1) b(1) have "d1 = d2"
      by (rule distinct_snd_unique)
    with a(2) b(2) show False by simp
  qed
  have "set (timers st) = set ?rest \<union> set ?due" by auto
  then have un: "snd ` set (timers st) = snd ` set ?rest \<union> snd ` set ?due"
    by (metis image_Un)
  have "set (processedMessages (run_timers t st))
        = set (processedMessages st) - snd ` set ?due"
    by (auto simp: run_timers_def fold_set_delete)
  also have "\<dots> = snd ` set ?rest" using eq un disj by auto
  finally have "set (processedMessages (run_timers t st)) = snd ` set (timers (run_timers t st))"
    by (simp add: run_timers_def)
  moreover have "distinct (map snd (timers (run_timers t st)))"
    using dist by (simp add: run_timers_def distinct_map_filter)
  ultimately show ?thesis by (simp add: dedup_inv_def)
qed

lemma dedup_inv_start: "dedup_inv dedup_start"
  by (simp add: dedup_inv_def dedup_start_def)

lemma onMessageCreate_cases:
  "onMessageCreate ev st = (False, run_timers (dl_at ev) st)
   \<or> (\<not> msg_author_bot (dl_message ev)
       \<and> msg_id (dl_message ev) \<notin> set (processedMessages (run_timers (dl_at ev) st))
       \<and> onMessageCreate ev st
           = (msg_isDM (dl_message ev) \<or> msg_isMention (dl_message ev),
              \<lparr> processedMessages
                  = processedMessages (run_timers (dl_at ev) st) @ [msg_id (dl_message ev)],
                timers = timers (run_timers (dl_at ev) st)
                  @ [(dl_at ev + DEDUP_TIMEOUT + int (dl_late ev), msg_id (dl_message ev))] \<rparr>))"
  by (simp add: onMessageCreate_def Let_def set_has_def set_add_def)

lemma dedup_inv_step:
  assumes "dedup_inv st"
  shows "dedup_inv (snd (onMessageCreate ev st))"
proof -
  have inv: "dedup_inv (run_timers (dl_at ev) st)"
    by (rule dedup_inv_run_timers [OF assms])
  from onMessageCreate_cases [of ev st] show ?thesis
  proof
    assume "onMessageCreate ev st = (False, run_timers (dl_at ev) st)"
    with inv show ?thesis by simp
  next
    assume a: "\<not> msg_author_bot (dl_message ev)
       \<and> msg_id (dl_message ev) \<notin> set (processedMessages (run_timers (dl_at ev) st))
       \<and> onMessageCreate ev st
           = (msg_isDM (dl_message ev) \<or> msg_isMention (dl_message ev),
              \<lparr> processedMessages
                  = processedMessages (run_timers (dl_at ev) st) @ [msg_id (dl_message ev)],
                timers = timers (run_timers (dl_at ev) st)
                  @ [(dl_at ev + DEDUP_TIMEOUT + int (dl_late ev), msg_id (dl_message ev))] \<rparr>)"
    with inv show ?thesis by (auto simp: dedup_inv_def)
  qed
qed

lemma dedup_inv_after: "dedup_inv st \<Longrightarrow> dedup_inv (dedup_after st evs)"
  by (induction evs arbitrary: st) (simp_all add: dedup_inv_step)

lemma timer_kept:
  assumes "(d, k) \<in> set (timers st)" and "dl_at ev < d"
  shows "(d, k) \<in> set (timers (snd (onMessageCreate ev st)))"
proof -
  from assms have "(d, k) \<in> set (timers (run_timers (dl_at ev) st))"
    by (simp add: run_timers_def)
  with onMessageCreate_cases [of ev st] show ?thesis by auto
qed

lemma timer_kept_after:
  "(d, k) \<in> set (timers st) \<Longrightarrow> \<forall>ev \<in> set evs. dl_at ev < d \<Longrightarrow>
     (d, k) \<in> set (timers (dedup_after st evs))"
  by (induction evs arbitrary: st) (simp_all add: timer_kept)

lemma pending_timer_blocks:
  assumes "dedup_inv st" and "(d, msg_id (dl_message ev)) \<in> set (timers st)"
    and "dl_at ev < d"
  shows "\<not> fst (onMessageCreate ev st)"
proof -
  from assms(2,3) have "(d, msg_id (dl_message ev)) \<in> set (timers (run_timers (dl_at ev) st))"
    by (simp add: run_timers_def)
  then have "msg_id (dl_message ev) \<in> snd ` set (timers (run_timers (dl_at ev) st))"
    by force
  with dedup_inv_run_timers [OF assms(1), of "dl_at ev"]
  have "msg_id (dl_message ev) \<in> set (processedMessages (run_timers (dl_at ev) st))"
    by (simp add: dedup_inv_def)
  with onMessageCreate_cases [of ev st] show ?thesis by auto
qed

lemma handled_sets_timer:
  assumes "fst (onMessageCreate ev st)"
  shows "\<not> msg_author_bot (dl_message ev)
     \<and> (dl_at ev + DEDUP_TIMEOUT + int (dl_late ev), msg_id (dl_message ev))
         \<in> set (timers (snd (onMessageCreate ev st)))"
  using onMessageCreate_cases [of ev st] assms by auto

lemma dedup_after_append:
  "dedup_after st (xs @ ys) = dedup_after (dedup_after st xs) ys"
  by (induction xs arbitrary: st) simp_all

lemma handled_nth:
  "k < length evs \<Longrightarrow>
     handled st evs ! k = fst (onMessageCreate (evs ! k) (dedup_after st (take k evs)))"
proof (induction evs arbitrary: st k)
  case Nil
  then show ?case by simp
next
  case (Cons ev evs)
  then show ?case by (cases k) simp_all
qed

lemma no_second_handling:
  assumes "sorted (map dl_at evs)" and "i < j" and "j < length evs"
    and "msg_id (dl_message (evs ! i)) = msg_id (dl_message (evs ! j))"
    and "dl_at (evs ! j) - dl_at (evs ! i) < DEDUP_TIMEOUT"
    and "handled dedup_start evs ! i"
  shows "\<not> handled dedup_start evs ! j"
proof -
  let ?Si = "dedup_after dedup_start (take i evs)"
  let ?d = "dl_at (evs ! i) + DEDUP_TIMEOUT + int (dl_late (evs ! i))"
  let ?k = "msg_id (dl_message (evs ! i))"
  from assms have i: "i < length evs" by simp
  from assms(6) i have hi: "fst (onMessageCreate (evs ! i) ?Si)"
    by (simp add: handled_nth)
  have timer: "(?d, ?k) \<in> set (timers (snd (onMessageCreate (evs ! i) ?Si)))"
    using handled_sets_timer [OF hi] by (rule conjunct2)
  have late: "dl_at (evs ! j) < ?d" using assms(5) by simp
  have split: "take j evs = take i evs @ evs ! i # drop (Suc i) (take j evs)"
  proof -
    have "i < length (take j evs)" using assms(2,3) by simp
    then have a: "take j evs = take i (take j evs) @ take j evs ! i # drop (Suc i) (take j evs)"
      by (rule id_take_nth_drop)
    have b: "take i (take j evs) = take i evs" using assms(2) by (simp add: min_def)
    have c: "take j evs ! i = evs ! i" using assms(2) by simp
    from a show ?thesis unfolding b c .
  qed
  have mid: "\<forall>ev \<in> set (drop (Suc i) (take j evs)). dl_at ev < ?d"
  proof
    fix ev
    assume "ev \<in> set (drop (Suc i) (take j evs))"
    then obtain n where n: "n < length (drop (Suc i) (take j evs))"
        "ev = drop (Suc i) (take j evs) ! n"
      by (auto simp: in_set_conv_nth)
    then have nj: "Suc i + n < j" using assms(3) by simp
    with n have ev: "ev = evs ! (Suc i + n)" using assms(3) by simp
    have "map dl_at evs ! (Suc i + n) \<le> map dl_at evs ! j"
      using assms(1,3) nj by (intro sorted_nth_mono) simp_all
    then have "dl_at (evs ! (Suc i + n)) \<le> dl_at (evs ! j)"
      using assms(3) nj by simp
    with late ev show "dl_at ev < ?d" by simp
  qed
  have "dedup_after dedup_start (take i evs @ evs ! i # drop (Suc i) (take j evs))
        = dedup_after (snd (onMessageCreate (evs ! i) ?Si)) (drop (Suc i) (take j evs))"
    by (simp add: dedup_after_append)
  with split have Sj: "dedup_after dedup_start (take j evs)
        = dedup_after (snd (onMessageCreate (evs ! i) ?Si)) (drop (Suc i) (take j evs))"
    by (rule ssubst)
  have "(?d, ?k) \<in> set (timers (dedup_after dedup_start (take j evs)))"
    unfolding Sj by (rule timer_kept_after [OF timer mid])
  then have pending: "(?d, msg_id (dl_message (evs ! j)))
      \<in> set (timers (dedup_after dedup_start (take j evs)))"
    using assms(4) by simp
  have inv: "dedup_inv (dedup_after dedup_start (take j evs))"
    by (rule dedup_inv_after [OF dedup_inv_start])
  have "\<not> fst (onMessageCreate (evs ! j) (dedup_after dedup_start (take j evs)))"
    by (rule pending_timer_blocks [OF inv pending late])
  with assms(3) show ?thesis by (simp add: handled_nth)
qed

lemma bot_not_handled:
  "msg_author_bot (dl_message ev) \<Longrightarrow> \<not> fst (onMessageCreate ev st)"
  using onMessageCreate_cases [of ev st] by auto

text \<open>
  C7. Let the \<open>MessageCreate\<close> events \<open>evs\<close> reach the handler in the order of their
  times, starting with no message processed, each timer firing 10 seconds after it was
  set or later. Of two events that carry the same message id, the later less than 10
  seconds after the earlier, at most one leads to a call of \<open>handleMessage\<close>; and an event
  whose author is a bot leads to none.
\<close>

theorem duplicate_handled_once:
  "(sorted (map dl_at evs) \<longrightarrow>
      (\<forall>i j. i < j \<longrightarrow> j < length evs \<longrightarrow>
         msg_id (dl_message (evs ! i)) = msg_id (dl_message (evs ! j)) \<longrightarrow>
         dl_at (evs ! j) - dl_at (evs ! i) < DEDUP_TIMEOUT \<longrightarrow>
         \<not> (handled dedup_start evs ! i \<and> handled dedup_start evs ! j)))
   \<and> (\<forall>k. k < length evs \<longrightarrow> msg_author_bot (dl_message (evs ! k)) \<longrightarrow>
         \<not> handled dedup_start evs ! k)"
proof (intro conjI impI allI)
  fix i j
  assume a: "sorted (map dl_at evs)" "i < j" "j < length evs"
    "msg_id (dl_message (evs ! i)) = msg_id (dl_message (evs ! j))"
    "dl_at (evs ! j) - dl_at (evs ! i) < DEDUP_TIMEOUT"
  show "\<not> (handled dedup_start evs ! i \<and> handled dedup_start evs ! j)"
  proof
    assume h: "handled dedup_start evs ! i \<and> handled dedup_start evs ! j"
    from no_second_handling [OF a h [THEN conjunct1]] h show False by simp
  qed
next
  fix k
  assume "k < length evs" "msg_author_bot (dl_message (evs ! k))"
  then show "\<not> handled dedup_start evs ! k"
    by (simp add: handled_nth bot_not_handled)
qed

theorem duplicate_handled_once_witness:
  "sorted (map dl_at example_deliveries)
   \<and> handled dedup_start example_deliveries = [True, False, False, True]
   \<and> msg_id (dl_message (example_deliveries ! 0)) = msg_id (dl_message (example_deliveries ! 1))
   \<and> dl_at (example_deliveries ! 1) - dl_at (example_deliveries ! 0) < DEDUP_TIMEOUT
   \<and> \<not> (handled dedup_start example_deliveries ! 0 \<and> handled dedup_start example_deliveries ! 1)
   \<and> msg_author_bot (dl_message (example_deliveries ! 2))
   \<and> \<not> handled dedup_start example_deliveries ! 2"
proof -
  have s: "sorted (map dl_at example_deliveries)" by code_simp
  have run: "handled dedup_start example_deliveries = [True, False, False, True]" by code_simp
  have same: "msg_id (dl_message (example_deliveries ! 0))
      = msg_id (dl_message (example_deliveries ! 1))"
    by (simp add: example_deliveries_def)
  have near: "dl_at (example_deliveries ! 1) - dl_at (example_deliveries ! 0) < DEDUP_TIMEOUT"
    by (simp add: example_deliveries_def DEDUP_TIMEOUT_def)
  have bot: "msg_author_bot (dl_message (example_deliveries ! 2))"
    by (simp add: example_deliveries_def example_bot_message_def)
  have len: "(1::nat) < length example_deliveries" "(2::nat) < length example_deliveries"
    by (simp_all add: example_deliveries_def)
  note inst = duplicate_handled_once [of example_deliveries]
  have once: "\<not> (handled dedup_start example_deliveries ! 0
      \<and> handled dedup_start example_deliveries ! 1)"
    using inst [THEN conjunct1, rule_format, OF s _ len(1) same near] by simp
  have nobot: "\<not> handled dedup_start example_deliveries ! 2"
    by (rule inst [THEN conjunct2, rule_format, OF len(2) bot])
  from s run same near once bot nobot show ?thesis by (intro conjI) assumption+
qed

end
